theory Spec2Isabelle
  imports Main "HOL-Library.Word"
begin

unbundle bit_operations_syntax

section \<open>The I2C interface\<close>

text \<open>
  \<open>I2C_M24C\<close> is an abstract class: the driver only ever reaches the bus through its eight
  virtual methods. A transport is therefore a record of eight functions over a state
  \<open>'s\<close> of the implementation's own choosing. Every method may change that state, also
  \<open>IsStateError\<close>, which C++ declares as an ordinary non-const virtual method.
  Caller memory is a total map from addresses to bytes and a pointer is an address.
  The fields carry the prefix \<open>i2c_\<close>: the driver has methods of the same names
  (\<open>WriteByte\<close>, \<open>ReadByte\<close>, \<open>ReadHalfWord\<close>).
\<close>

datatype I2CMode = TX | RX

type_synonym memory = "nat \<Rightarrow> 8 word"

record 's I2C_M24C =
  i2c_Init :: "'s \<Rightarrow> 's"
  i2c_StartPolling :: "8 word \<Rightarrow> I2CMode \<Rightarrow> bool \<Rightarrow> 's \<Rightarrow> 's"
  i2c_IsStateError :: "'s \<Rightarrow> bool \<times> 's"
  i2c_ReadByte :: "'s \<Rightarrow> 8 word \<times> 's"
  i2c_ReadHalfWord :: "'s \<Rightarrow> 16 word \<times> 's"
  i2c_ReadMultipleBytes :: "memory \<Rightarrow> nat \<Rightarrow> 16 word \<Rightarrow> 's \<Rightarrow> memory \<times> 's"
  i2c_WriteByte :: "8 word \<Rightarrow> 's \<Rightarrow> 's"
  i2c_Stop :: "'s \<Rightarrow> 's"

section \<open>Geometry of the M24C16 and the device select code\<close>

text \<open>\<open>EepromModelTraits<EepromM24CModel::M24C16>\<close>, the only specialisation.\<close>

definition PAGE_SIZE :: "8 word" where
  "PAGE_SIZE = 16"

definition MEMORY_SIZE :: "16 word" where
  "MEMORY_SIZE = 2048"

definition DEVICE_ID :: "8 word" where
  "DEVICE_ID = 0xA0"

definition CHIP_ENABLE_ADRESS_MASK :: "8 word" where
  "CHIP_ENABLE_ADRESS_MASK = 0x0E"

definition CHIP_ENABLE_ADRESS_SHIFT :: nat where
  "CHIP_ENABLE_ADRESS_SHIFT = 7"

text \<open>
  The operands of \<open>|\<close>, \<open>>>\<close> and \<open>&\<close> are promoted to \<open>int\<close> (32 bits, all values
  non-negative here) and the result is converted back to \<open>uint8_t\<close> on return.
\<close>

definition HandleDeviceSelectCode :: "16 word \<Rightarrow> 8 word" where
  "HandleDeviceSelectCode address =
     ucast ((ucast DEVICE_ID :: 32 word)
            OR (drop_bit CHIP_ENABLE_ADRESS_SHIFT (ucast address :: 32 word)
                AND (ucast CHIP_ENABLE_ADRESS_MASK :: 32 word)))"

section \<open>The retry loop\<close>

text \<open>
  Every transaction sits in a \<open>do { ... } while (i2c.IsStateError());\<close>. The loop has no
  bound, so it is a partial function: \<open>None\<close> is a run that never leaves the loop.
  The body yields the value of the local it assigns (\<open>read_value\<close>; nothing for a write).
\<close>

partial_function (option) do_while ::
  "('s \<Rightarrow> 'a \<times> 's) \<Rightarrow> ('s \<Rightarrow> bool \<times> 's) \<Rightarrow> 's \<Rightarrow> ('a \<times> 's) option" where
  "do_while body cond s =
     (case body s of (v, s1) \<Rightarrow>
        (case cond s1 of (e, s2) \<Rightarrow>
           if e then do_while body cond s2 else Some (v, s2)))"

declare do_while.simps [code]

text \<open>The first statement of every loop body: \<open>if (i2c.IsStateError()) { i2c.Init(); }\<close>.\<close>

definition init_if_error :: "'s I2C_M24C \<Rightarrow> 's \<Rightarrow> 's" where
  "init_if_error i2c s =
     (case i2c_IsStateError i2c s of (e, s1) \<Rightarrow> if e then i2c_Init i2c s1 else s1)"

section \<open>Single byte and halfword writes\<close>

definition WriteByte_attempt ::
  "'s I2C_M24C \<Rightarrow> 8 word \<Rightarrow> 16 word \<Rightarrow> 8 word \<Rightarrow> 's \<Rightarrow> unit \<times> 's" where
  "WriteByte_attempt i2c device_code address val s =
     (let s1 = init_if_error i2c s;
          s2 = i2c_StartPolling i2c device_code TX False s1;
          s3 = i2c_WriteByte i2c (ucast address) s2;
          s4 = i2c_WriteByte i2c val s3;
          s5 = i2c_Stop i2c s4
      in ((), s5))"

definition WriteByte :: "'s I2C_M24C \<Rightarrow> 16 word \<Rightarrow> 8 word \<Rightarrow> 's \<Rightarrow> 's option" where
  "WriteByte i2c address val s =
     (let device_code = HandleDeviceSelectCode address
      in map_option snd
           (do_while (WriteByte_attempt i2c device_code address val) (i2c_IsStateError i2c) s))"

definition WriteHalfWord_attempt ::
  "'s I2C_M24C \<Rightarrow> 8 word \<Rightarrow> 16 word \<Rightarrow> 16 word \<Rightarrow> 's \<Rightarrow> unit \<times> 's" where
  "WriteHalfWord_attempt i2c device_code address val s =
     (let s1 = init_if_error i2c s;
          s2 = i2c_StartPolling i2c device_code TX False s1;
          s3 = i2c_WriteByte i2c (ucast address) s2;
          s4 = i2c_WriteByte i2c (ucast val) s3;
          s5 = i2c_WriteByte i2c (ucast (drop_bit 8 val)) s4;
          s6 = i2c_Stop i2c s5
      in ((), s6))"

definition WriteHalfWord :: "'s I2C_M24C \<Rightarrow> 16 word \<Rightarrow> 16 word \<Rightarrow> 's \<Rightarrow> 's option" where
  "WriteHalfWord i2c address val s =
     (let device_code = HandleDeviceSelectCode address
      in map_option snd
           (do_while (WriteHalfWord_attempt i2c device_code address val) (i2c_IsStateError i2c) s))"

section \<open>Page and block writes\<close>

text \<open>\<open>for (uint8_t i = 0; i < data_size; i++) i2c.WriteByte(*(data + i));\<close>\<close>

definition write_bytes :: "'s I2C_M24C \<Rightarrow> memory \<Rightarrow> nat \<Rightarrow> 8 word \<Rightarrow> 's \<Rightarrow> 's" where
  "write_bytes i2c mem data data_size s =
     foldl (\<lambda>s' i. i2c_WriteByte i2c (mem (data + i)) s') s [0 ..< unat data_size]"

definition WritePage_attempt ::
  "'s I2C_M24C \<Rightarrow> memory \<Rightarrow> nat \<Rightarrow> 8 word \<Rightarrow> 16 word \<Rightarrow> 8 word \<Rightarrow> 's \<Rightarrow> unit \<times> 's" where
  "WritePage_attempt i2c mem data device_code address data_size s =
     (let s1 = init_if_error i2c s;
          s2 = i2c_StartPolling i2c device_code TX False s1;
          s3 = i2c_WriteByte i2c (ucast address) s2;
          s4 = write_bytes i2c mem data data_size s3;
          s5 = i2c_Stop i2c s4
      in ((), s5))"

definition WritePage ::
  "'s I2C_M24C \<Rightarrow> memory \<Rightarrow> nat \<Rightarrow> 16 word \<Rightarrow> 8 word \<Rightarrow> 's \<Rightarrow> 's option" where
  "WritePage i2c mem data address data_size s =
     (let device_code = HandleDeviceSelectCode address
      in map_option snd
           (do_while (WritePage_attempt i2c mem data device_code address data_size)
              (i2c_IsStateError i2c) s))"

text \<open>
  The \<open>while (remaining_full_pages >= 1)\<close> loop of \<open>WriteBlock\<close>, with its three loop
  variables; \<open>address += PAGE_SIZE\<close> wraps at 16 bits.
\<close>

function WriteBlock_loop ::
  "'s I2C_M24C \<Rightarrow> memory \<Rightarrow> nat \<Rightarrow> 16 word \<Rightarrow> 16 word \<Rightarrow> 's \<Rightarrow> (nat \<times> 16 word \<times> 's) option" where
  "WriteBlock_loop i2c mem data address remaining_full_pages s =
     (if remaining_full_pages \<ge> 1 then
        (case WritePage i2c mem data address PAGE_SIZE s of
           None \<Rightarrow> None
         | Some s1 \<Rightarrow>
             WriteBlock_loop i2c mem (data + unat PAGE_SIZE) (address + ucast PAGE_SIZE)
               (remaining_full_pages - 1) s1)
      else Some (data, address, s))"
  by pat_completeness auto
termination
proof (relation "measure (\<lambda>(i2c, mem, data, address, remaining, s). unat remaining)")
  show "wf (measure (\<lambda>(i2c :: 's I2C_M24C, mem :: memory, data :: nat, address :: 16 word,
                        remaining :: 16 word, s :: 's). unat remaining))"
    by simp
next
  fix i2c :: "'s I2C_M24C" and mem :: memory and data :: nat and address :: "16 word"
    and remaining_full_pages :: "16 word" and s x2 :: 's
  assume "1 \<le> remaining_full_pages"
  then have "unat (remaining_full_pages - 1) < unat remaining_full_pages"
    by (simp add: unat_sub word_le_nat_alt)
  then show "((i2c, mem, data + unat PAGE_SIZE, address + ucast PAGE_SIZE,
               remaining_full_pages - 1, x2),
              (i2c, mem, data, address, remaining_full_pages, s))
             \<in> measure (\<lambda>(i2c, mem, data, address, remaining, s). unat remaining)"
    by simp
qed

declare WriteBlock_loop.simps [simp del]

definition WriteBlock ::
  "'s I2C_M24C \<Rightarrow> memory \<Rightarrow> nat \<Rightarrow> 16 word \<Rightarrow> 16 word \<Rightarrow> 's \<Rightarrow> 's option" where
  "WriteBlock i2c mem data address data_size s =
     (case WriteBlock_loop i2c mem data address (data_size div ucast PAGE_SIZE) s of
        None \<Rightarrow> None
      | Some (data', address', s1) \<Rightarrow>
          WritePage i2c mem data' address' (ucast (data_size mod ucast PAGE_SIZE)) s1)"

section \<open>Reads\<close>

definition ReadByte_attempt ::
  "'s I2C_M24C \<Rightarrow> 8 word \<Rightarrow> 16 word \<Rightarrow> 's \<Rightarrow> 8 word \<times> 's" where
  "ReadByte_attempt i2c device_code address s =
     (let s1 = init_if_error i2c s;
          s2 = i2c_StartPolling i2c device_code TX False s1;
          s3 = i2c_WriteByte i2c (ucast address) s2;
          s4 = i2c_StartPolling i2c device_code RX False s3
      in i2c_ReadByte i2c s4)"

definition ReadByte :: "'s I2C_M24C \<Rightarrow> 16 word \<Rightarrow> 's \<Rightarrow> (8 word \<times> 's) option" where
  "ReadByte i2c address s =
     (let device_code = HandleDeviceSelectCode address
      in do_while (ReadByte_attempt i2c device_code address) (i2c_IsStateError i2c) s)"

definition ReadHalfWord_attempt ::
  "'s I2C_M24C \<Rightarrow> 8 word \<Rightarrow> 16 word \<Rightarrow> 's \<Rightarrow> 16 word \<times> 's" where
  "ReadHalfWord_attempt i2c device_code address s =
     (let s1 = init_if_error i2c s;
          s2 = i2c_StartPolling i2c device_code TX True s1;
          s3 = i2c_WriteByte i2c (ucast address) s2;
          s4 = i2c_StartPolling i2c device_code RX False s3
      in i2c_ReadHalfWord i2c s4)"

definition ReadHalfWord :: "'s I2C_M24C \<Rightarrow> 16 word \<Rightarrow> 's \<Rightarrow> (16 word \<times> 's) option" where
  "ReadHalfWord i2c address s =
     (let device_code = HandleDeviceSelectCode address
      in do_while (ReadHalfWord_attempt i2c device_code address) (i2c_IsStateError i2c) s)"

text \<open>
  \<open>ReadBlock\<close> hands the caller's buffer to the transport in every attempt, so the buffer
  is part of what the loop changes.
\<close>

definition ReadBlock_attempt ::
  "'s I2C_M24C \<Rightarrow> nat \<Rightarrow> 8 word \<Rightarrow> 16 word \<Rightarrow> 16 word \<Rightarrow> memory \<times> 's \<Rightarrow> unit \<times> memory \<times> 's" where
  "ReadBlock_attempt i2c data device_code address data_size ms =
     (let s1 = init_if_error i2c (snd ms);
          s2 = i2c_StartPolling i2c device_code TX False s1;
          s3 = i2c_WriteByte i2c (ucast address) s2;
          s4 = i2c_StartPolling i2c device_code RX False s3
      in ((), i2c_ReadMultipleBytes i2c (fst ms) data data_size s4))"

definition ReadBlock_check :: "'s I2C_M24C \<Rightarrow> memory \<times> 's \<Rightarrow> bool \<times> memory \<times> 's" where
  "ReadBlock_check i2c ms =
     (case i2c_IsStateError i2c (snd ms) of (e, s1) \<Rightarrow> (e, fst ms, s1))"

definition ReadBlock ::
  "'s I2C_M24C \<Rightarrow> memory \<Rightarrow> nat \<Rightarrow> 16 word \<Rightarrow> 16 word \<Rightarrow> 's \<Rightarrow> (memory \<times> 's) option" where
  "ReadBlock i2c mem data address data_size s =
     (let device_code = HandleDeviceSelectCode address
      in map_option snd
           (do_while (ReadBlock_attempt i2c data device_code address data_size)
              (ReadBlock_check i2c) (mem, s)))"

section \<open>Erase\<close>

text \<open>\<open>for (uint8_t i = 0; i < PAGE_SIZE; i++) i2c.WriteByte(0xFF);\<close>\<close>

definition erase_bytes :: "'s I2C_M24C \<Rightarrow> 's \<Rightarrow> 's" where
  "erase_bytes i2c s = foldl (\<lambda>s' i. i2c_WriteByte i2c 0xFF s') s [0 ..< unat PAGE_SIZE]"

definition ErasePage_attempt ::
  "'s I2C_M24C \<Rightarrow> 8 word \<Rightarrow> 16 word \<Rightarrow> 's \<Rightarrow> unit \<times> 's" where
  "ErasePage_attempt i2c device_code address s =
     (let s1 = init_if_error i2c s;
          s2 = i2c_StartPolling i2c device_code TX False s1;
          s3 = i2c_WriteByte i2c (ucast address) s2;
          s4 = erase_bytes i2c s3;
          s5 = i2c_Stop i2c s4
      in ((), s5))"

definition ErasePage :: "'s I2C_M24C \<Rightarrow> 16 word \<Rightarrow> 's \<Rightarrow> 's option" where
  "ErasePage i2c address s =
     (let device_code = HandleDeviceSelectCode address
      in map_option snd
           (do_while (ErasePage_attempt i2c device_code address) (i2c_IsStateError i2c) s))"

text \<open>
  \<open>for (int i = 0; i < MEMORY_SIZE; i += PAGE_SIZE) ErasePage(i);\<close> The counter is an
  \<open>int\<close>, converted to \<open>uint16_t\<close> at the call.
\<close>

function ChipErase_loop :: "'s I2C_M24C \<Rightarrow> int \<Rightarrow> 's \<Rightarrow> 's option" where
  "ChipErase_loop i2c i s =
     (if i < uint MEMORY_SIZE then
        (case ErasePage i2c (word_of_int i) s of
           None \<Rightarrow> None
         | Some s1 \<Rightarrow> ChipErase_loop i2c (i + uint PAGE_SIZE) s1)
      else Some s)"
  by pat_completeness auto
termination
  by (relation "measure (\<lambda>(i2c, i, s). nat (uint MEMORY_SIZE - i))")
     (simp_all add: PAGE_SIZE_def MEMORY_SIZE_def)

declare ChipErase_loop.simps [simp del]

definition ChipErase :: "'s I2C_M24C \<Rightarrow> 's \<Rightarrow> 's option" where
  "ChipErase i2c s = ChipErase_loop i2c 0 s"

section \<open>Runs of the retry loop\<close>

text \<open>
  The state in which attempt \<open>n\<close> of a loop starts, whether the check that ends attempt
  \<open>n\<close> reports an error, and what the loop returns if it leaves after attempt \<open>n\<close>.
\<close>

fun retry_state :: "('s \<Rightarrow> 'a \<times> 's) \<Rightarrow> ('s \<Rightarrow> bool \<times> 's) \<Rightarrow> nat \<Rightarrow> 's \<Rightarrow> 's" where
  "retry_state body cond 0 s = s"
| "retry_state body cond (Suc n) s = retry_state body cond n (snd (cond (snd (body s))))"

definition attempt_fails ::
  "('s \<Rightarrow> 'a \<times> 's) \<Rightarrow> ('s \<Rightarrow> bool \<times> 's) \<Rightarrow> nat \<Rightarrow> 's \<Rightarrow> bool" where
  "attempt_fails body cond n s = fst (cond (snd (body (retry_state body cond n s))))"

definition attempt_result ::
  "('s \<Rightarrow> 'a \<times> 's) \<Rightarrow> ('s \<Rightarrow> bool \<times> 's) \<Rightarrow> nat \<Rightarrow> 's \<Rightarrow> 'a \<times> 's" where
  "attempt_result body cond n s =
     (fst (body (retry_state body cond n s)),
      snd (cond (snd (body (retry_state body cond n s)))))"

section \<open>Transports used to observe the driver\<close>

text \<open>
  A recording transport: it forwards every call to a transport \<open>t\<close> and appends the call,
  with its arguments, to a log; for \<open>IsStateError\<close> it also records the answer given.
  The log of a run is the sequence of calls the driver made.
\<close>

datatype event =
    Init_ev
  | StartPolling_ev "8 word" I2CMode bool
  | IsStateError_ev bool
  | ReadByte_ev
  | ReadHalfWord_ev
  | ReadMultipleBytes_ev nat "16 word"
  | WriteByte_ev "8 word"
  | Stop_ev

definition logged :: "'s I2C_M24C \<Rightarrow> ('s \<times> event list) I2C_M24C" where
  "logged t =
     \<lparr> i2c_Init = (\<lambda>sl. (i2c_Init t (fst sl), snd sl @ [Init_ev])),
       i2c_StartPolling = (\<lambda>d m p sl.
          (i2c_StartPolling t d m p (fst sl), snd sl @ [StartPolling_ev d m p])),
       i2c_IsStateError = (\<lambda>sl.
          (fst (i2c_IsStateError t (fst sl)),
           snd (i2c_IsStateError t (fst sl)),
           snd sl @ [IsStateError_ev (fst (i2c_IsStateError t (fst sl)))])),
       i2c_ReadByte = (\<lambda>sl.
          (fst (i2c_ReadByte t (fst sl)), snd (i2c_ReadByte t (fst sl)), snd sl @ [ReadByte_ev])),
       i2c_ReadHalfWord = (\<lambda>sl.
          (fst (i2c_ReadHalfWord t (fst sl)),
           snd (i2c_ReadHalfWord t (fst sl)), snd sl @ [ReadHalfWord_ev])),
       i2c_ReadMultipleBytes = (\<lambda>mem data n sl.
          (fst (i2c_ReadMultipleBytes t mem data n (fst sl)),
           snd (i2c_ReadMultipleBytes t mem data n (fst sl)),
           snd sl @ [ReadMultipleBytes_ev data n])),
       i2c_WriteByte = (\<lambda>b sl. (i2c_WriteByte t b (fst sl), snd sl @ [WriteByte_ev b])),
       i2c_Stop = (\<lambda>sl. (i2c_Stop t (fst sl), snd sl @ [Stop_ev])) \<rparr>"

text \<open>
  A transport that answers the \<open>k\<close>-th call of \<open>IsStateError\<close> with \<open>errs k\<close>; its state
  counts those calls. Reads deliver fixed data.
\<close>

definition scripted :: "(nat \<Rightarrow> bool) \<Rightarrow> nat I2C_M24C" where
  "scripted errs =
     \<lparr> i2c_Init = (\<lambda>k. k),
       i2c_StartPolling = (\<lambda>d m p k. k),
       i2c_IsStateError = (\<lambda>k. (errs k, Suc k)),
       i2c_ReadByte = (\<lambda>k. (0x5A, k)),
       i2c_ReadHalfWord = (\<lambda>k. (0xBEEF, k)),
       i2c_ReadMultipleBytes = (\<lambda>mem data n k.
          (\<lambda>a. if data \<le> a \<and> a < data + unat n then 0x5A else mem a, k)),
       i2c_WriteByte = (\<lambda>b k. k),
       i2c_Stop = (\<lambda>k. k) \<rparr>"

text \<open>
  The calls of one attempt: the check and its answer \<open>e\<close>, \<open>Init\<close> if the answer was
  "error", the calls that make up the transaction, and the check that ends the attempt,
  with its answer \<open>e'\<close>. A run that returns is a sequence of attempts whose last check
  reported an error, followed by one attempt whose last check did not.
\<close>

definition attempt_events :: "bool \<Rightarrow> event list \<Rightarrow> bool \<Rightarrow> event list" where
  "attempt_events e frame e' =
     IsStateError_ev e # (if e then [Init_ev] else []) @ frame @ [IsStateError_ev e']"

definition run_events :: "bool list \<Rightarrow> bool \<Rightarrow> event list \<Rightarrow> event list" where
  "run_events pre e frame =
     concat (map (\<lambda>p. attempt_events p frame True) pre) @ attempt_events e frame False"

text \<open>
  The transaction of each operation as the design describes it: what one attempt is
  expected to put on the bus. The theorems below show that the code issues exactly these.
\<close>

definition WriteByte_frame :: "16 word \<Rightarrow> 8 word \<Rightarrow> event list" where
  "WriteByte_frame address val =
     [StartPolling_ev (HandleDeviceSelectCode address) TX False,
      WriteByte_ev (ucast address), WriteByte_ev val, Stop_ev]"

definition WriteHalfWord_frame :: "16 word \<Rightarrow> 16 word \<Rightarrow> event list" where
  "WriteHalfWord_frame address val =
     [StartPolling_ev (HandleDeviceSelectCode address) TX False,
      WriteByte_ev (ucast address), WriteByte_ev (ucast val),
      WriteByte_ev (ucast (drop_bit 8 val)), Stop_ev]"

definition WritePage_frame :: "memory \<Rightarrow> nat \<times> 16 word \<times> 8 word \<Rightarrow> event list" where
  "WritePage_frame mem p =
     (case p of (data, address, data_size) \<Rightarrow>
        [StartPolling_ev (HandleDeviceSelectCode address) TX False, WriteByte_ev (ucast address)]
        @ map (\<lambda>i. WriteByte_ev (mem (data + i))) [0 ..< unat data_size] @ [Stop_ev])"

definition ReadByte_frame :: "16 word \<Rightarrow> event list" where
  "ReadByte_frame address =
     [StartPolling_ev (HandleDeviceSelectCode address) TX False, WriteByte_ev (ucast address),
      StartPolling_ev (HandleDeviceSelectCode address) RX False, ReadByte_ev]"

definition ReadHalfWord_frame :: "16 word \<Rightarrow> event list" where
  "ReadHalfWord_frame address =
     [StartPolling_ev (HandleDeviceSelectCode address) TX True, WriteByte_ev (ucast address),
      StartPolling_ev (HandleDeviceSelectCode address) RX False, ReadHalfWord_ev]"

definition ReadBlock_frame :: "nat \<Rightarrow> 16 word \<Rightarrow> 16 word \<Rightarrow> event list" where
  "ReadBlock_frame data address data_size =
     [StartPolling_ev (HandleDeviceSelectCode address) TX False, WriteByte_ev (ucast address),
      StartPolling_ev (HandleDeviceSelectCode address) RX False,
      ReadMultipleBytes_ev data data_size]"

definition ErasePage_frame :: "16 word \<Rightarrow> event list" where
  "ErasePage_frame address =
     [StartPolling_ev (HandleDeviceSelectCode address) TX False, WriteByte_ev (ucast address)]
     @ replicate 16 (WriteByte_ev 0xFF) @ [Stop_ev]"

section \<open>Sequences of page operations\<close>

text \<open>
  Page writes, given as (data pointer, address, byte count), and page erases, given by
  address, carried out one after the other; a page operation that never returns keeps
  the later ones from starting.
\<close>

fun write_pages ::
  "'s I2C_M24C \<Rightarrow> memory \<Rightarrow> (nat \<times> 16 word \<times> 8 word) list \<Rightarrow> 's \<Rightarrow> 's option" where
  "write_pages i2c mem [] s = Some s"
| "write_pages i2c mem (p # ps) s =
     (case WritePage i2c mem (fst p) (fst (snd p)) (snd (snd p)) s of
        None \<Rightarrow> None
      | Some s1 \<Rightarrow> write_pages i2c mem ps s1)"

fun erase_pages :: "'s I2C_M24C \<Rightarrow> 16 word list \<Rightarrow> 's \<Rightarrow> 's option" where
  "erase_pages i2c [] s = Some s"
| "erase_pages i2c (a # as) s =
     (case ErasePage i2c a s of None \<Rightarrow> None | Some s1 \<Rightarrow> erase_pages i2c as s1)"

text \<open>
  The segmentation of a block write as the design states it: one full page per
  \<open>page_size\<close> bytes, pointer and address advancing by \<open>page_size\<close>, then the remainder.
\<close>

definition spec_full_pages :: "nat \<Rightarrow> 16 word \<Rightarrow> nat \<Rightarrow> (nat \<times> 16 word \<times> 8 word) list" where
  "spec_full_pages data address n =
     map (\<lambda>k. (data + k * 16, address + of_nat (k * 16), 16)) [0 ..< n]"

definition spec_page_writes ::
  "nat \<Rightarrow> 16 word \<Rightarrow> 16 word \<Rightarrow> (nat \<times> 16 word \<times> 8 word) list" where
  "spec_page_writes data address data_size =
     spec_full_pages data address (unat data_size div 16)
     @ [(data + (unat data_size div 16) * 16,
         address + of_nat ((unat data_size div 16) * 16),
         of_nat (unat data_size mod 16))]"

text \<open>The page offsets of a chip erase as the design states them: \<open>0, 16, ..., 2032\<close>.\<close>

definition spec_erase_offsets :: "16 word list" where
  "spec_erase_offsets = map (\<lambda>k. of_nat (k * 16)) [0 ..< 2048 div 16]"

text \<open>What the first statement of a loop body adds to the log.\<close>

definition check_evs :: "'s I2C_M24C \<Rightarrow> 's \<Rightarrow> event list" where
  "check_evs t s = IsStateError_ev (fst (i2c_IsStateError t s))
             # (if fst (i2c_IsStateError t s) then [Init_ev] else [])"

section \<open>Properties of the retry loop\<close>

lemma attempt_fails_Suc:
  "attempt_fails body cond (Suc n) s = attempt_fails body cond n (snd (cond (snd (body s))))"
  by (simp add: attempt_fails_def)

lemma attempt_result_Suc:
  "attempt_result body cond (Suc n) s = attempt_result body cond n (snd (cond (snd (body s))))"
  by (simp add: attempt_result_def)

lemma do_while_step:
  "do_while body cond s =
     (if fst (cond (snd (body s))) then do_while body cond (snd (cond (snd (body s))))
      else Some (fst (body s), snd (cond (snd (body s)))))"
  by (subst do_while.simps) (simp split: prod.splits)

lemma do_while_returns:
  "\<lbrakk>\<And>k. k < n \<Longrightarrow> attempt_fails body cond k s; \<not> attempt_fails body cond n s\<rbrakk>
   \<Longrightarrow> do_while body cond s = Some (attempt_result body cond n s)"
proof (induction n arbitrary: s)
  case 0
  then show ?case
    by (subst do_while_step) (simp add: attempt_fails_def attempt_result_def)
next
  case (Suc n)
  let ?s' = "snd (cond (snd (body s)))"
  have first: "fst (cond (snd (body s)))"
    using Suc.prems(1) [of 0] by (simp add: attempt_fails_def)
  have "do_while body cond ?s' = Some (attempt_result body cond n ?s')"
  proof (rule Suc.IH)
    fix k assume "k < n"
    then show "attempt_fails body cond k ?s'"
      using Suc.prems(1) [of "Suc k"] by (simp add: attempt_fails_Suc)
  next
    show "\<not> attempt_fails body cond n ?s'"
      using Suc.prems(2) by (simp add: attempt_fails_Suc)
  qed
  then show ?case
    using first by (subst do_while_step) (simp add: attempt_result_Suc)
qed

lemma do_while_diverges:
  assumes "\<And>n. attempt_fails body cond n s"
  shows "do_while body cond s = None"
proof (rule ccontr)
  assume "do_while body cond s \<noteq> None"
  then obtain r where r: "do_while body cond s = Some r" by auto
  have "\<exists>n. \<not> attempt_fails body cond n s"
  proof (rule do_while.raw_induct
      [where P = "\<lambda>b c s r. \<exists>n. \<not> attempt_fails b c n s", OF _ r])
    fix f :: "('a \<Rightarrow> 'b \<times> 'a) \<Rightarrow> ('a \<Rightarrow> bool \<times> 'a) \<Rightarrow> 'a \<Rightarrow> ('b \<times> 'a) option"
      and b c s y
    assume IH: "\<And>b' c' s' y'. f b' c' s' = Some y' \<Longrightarrow> \<exists>n. \<not> attempt_fails b' c' n s'"
      and unfolded: "(case b s of (v, s1) \<Rightarrow>
                        (case c s1 of (e, s2) \<Rightarrow> if e then f b c s2 else Some (v, s2))) = Some y"
    show "\<exists>n. \<not> attempt_fails b c n s"
    proof (cases "fst (c (snd (b s)))")
      case True
      then have "f b c (snd (c (snd (b s)))) = Some y"
        using unfolded by (simp split: prod.splits)
      then obtain n where "\<not> attempt_fails b c n (snd (c (snd (b s))))"
        using IH by blast
      then have "\<not> attempt_fails b c (Suc n) s"
        by (simp add: attempt_fails_Suc)
      then show ?thesis by blast
    next
      case False
      then have "\<not> attempt_fails b c 0 s" by (simp add: attempt_fails_def)
      then show ?thesis by blast
    qed
  qed
  then show False using assms by simp
qed

lemma do_while_Some_iff:
  "do_while body cond s = Some r \<longleftrightarrow>
     (\<exists>n. (\<forall>k<n. attempt_fails body cond k s) \<and> \<not> attempt_fails body cond n s
          \<and> r = attempt_result body cond n s)"
proof
  assume r: "do_while body cond s = Some r"
  then have "\<exists>n. \<not> attempt_fails body cond n s"
    using do_while_diverges [of body cond s] by fastforce
  then obtain n where n: "\<not> attempt_fails body cond n s"
    and least: "\<And>k. k < n \<Longrightarrow> attempt_fails body cond k s"
    using exists_least_iff [of "\<lambda>n. \<not> attempt_fails body cond n s"] by auto
  have "do_while body cond s = Some (attempt_result body cond n s)"
    using least n by (rule do_while_returns)
  then show "\<exists>n. (\<forall>k<n. attempt_fails body cond k s) \<and> \<not> attempt_fails body cond n s
          \<and> r = attempt_result body cond n s"
    using r n least by auto
next
  assume "\<exists>n. (\<forall>k<n. attempt_fails body cond k s) \<and> \<not> attempt_fails body cond n s
          \<and> r = attempt_result body cond n s"
  then show "do_while body cond s = Some r"
    using do_while_returns [of _ body cond s] by blast
qed

section \<open>The recording transport\<close>

lemma logged_sel [simp]:
  "i2c_Init (logged t) sl = (i2c_Init t (fst sl), snd sl @ [Init_ev])"
  "i2c_StartPolling (logged t) d m p sl =
     (i2c_StartPolling t d m p (fst sl), snd sl @ [StartPolling_ev d m p])"
  "i2c_IsStateError (logged t) sl =
     (fst (i2c_IsStateError t (fst sl)),
      snd (i2c_IsStateError t (fst sl)),
      snd sl @ [IsStateError_ev (fst (i2c_IsStateError t (fst sl)))])"
  "i2c_ReadByte (logged t) sl =
     (fst (i2c_ReadByte t (fst sl)), snd (i2c_ReadByte t (fst sl)), snd sl @ [ReadByte_ev])"
  "i2c_ReadHalfWord (logged t) sl =
     (fst (i2c_ReadHalfWord t (fst sl)),
      snd (i2c_ReadHalfWord t (fst sl)), snd sl @ [ReadHalfWord_ev])"
  "i2c_ReadMultipleBytes (logged t) mem data n sl =
     (fst (i2c_ReadMultipleBytes t mem data n (fst sl)),
      snd (i2c_ReadMultipleBytes t mem data n (fst sl)),
      snd sl @ [ReadMultipleBytes_ev data n])"
  "i2c_WriteByte (logged t) b sl = (i2c_WriteByte t b (fst sl), snd sl @ [WriteByte_ev b])"
  "i2c_Stop (logged t) sl = (i2c_Stop t (fst sl), snd sl @ [Stop_ev])"
  by (simp_all add: logged_def)

lemma init_if_error_logged:
  "init_if_error (logged t) sl =
     (init_if_error t (fst sl),
      snd sl @ IsStateError_ev (fst (i2c_IsStateError t (fst sl)))
             # (if fst (i2c_IsStateError t (fst sl)) then [Init_ev] else []))"
  by (simp add: init_if_error_def split: prod.splits)

lemma write_bytes_logged:
  "write_bytes (logged t) mem data n sl =
     (write_bytes t mem data n (fst sl),
      snd sl @ map (\<lambda>i. WriteByte_ev (mem (data + i))) [0 ..< unat n])"
proof -
  have "foldl (\<lambda>s' i. i2c_WriteByte (logged t) (mem (data + i)) s') sl xs =
          (foldl (\<lambda>s' i. i2c_WriteByte t (mem (data + i)) s') (fst sl) xs,
           snd sl @ map (\<lambda>i. WriteByte_ev (mem (data + i))) xs)" for xs
    by (induction xs arbitrary: sl) simp_all
  then show ?thesis by (simp add: write_bytes_def)
qed

lemma erase_bytes_logged:
  "erase_bytes (logged t) sl = (erase_bytes t (fst sl), snd sl @ replicate 16 (WriteByte_ev 0xFF))"
proof -
  have "foldl (\<lambda>s' i. i2c_WriteByte (logged t) 0xFF s') sl xs =
          (foldl (\<lambda>s' i. i2c_WriteByte t 0xFF s') (fst sl) xs,
           snd sl @ replicate (length xs) (WriteByte_ev 0xFF))" for xs :: "nat list"
    by (induction xs arbitrary: sl) (simp_all add: replicate_append_same)
  from this [of "[0 ..< unat PAGE_SIZE]"] show ?thesis
    by (simp add: erase_bytes_def PAGE_SIZE_def)
qed

text \<open>What one attempt of each operation adds to the log.\<close>

lemma WriteByte_attempt_logged:
  "WriteByte_attempt (logged t) (HandleDeviceSelectCode a) a v sl =
     ((), snd (WriteByte_attempt t (HandleDeviceSelectCode a) a v (fst sl)),
      snd sl @ check_evs t (fst sl) @ WriteByte_frame a v)"
  by (simp add: WriteByte_attempt_def Let_def init_if_error_logged WriteByte_frame_def check_evs_def)

lemma WriteHalfWord_attempt_logged:
  "WriteHalfWord_attempt (logged t) (HandleDeviceSelectCode a) a v sl =
     ((), snd (WriteHalfWord_attempt t (HandleDeviceSelectCode a) a v (fst sl)),
      snd sl @ check_evs t (fst sl) @ WriteHalfWord_frame a v)"
  by (simp add: WriteHalfWord_attempt_def Let_def init_if_error_logged WriteHalfWord_frame_def
      check_evs_def)

lemma WritePage_attempt_logged:
  "WritePage_attempt (logged t) mem data (HandleDeviceSelectCode a) a n sl =
     ((), snd (WritePage_attempt t mem data (HandleDeviceSelectCode a) a n (fst sl)),
      snd sl @ check_evs t (fst sl) @ WritePage_frame mem (data, a, n))"
  by (simp add: WritePage_attempt_def Let_def init_if_error_logged write_bytes_logged
      WritePage_frame_def check_evs_def)

lemma ReadByte_attempt_logged:
  "ReadByte_attempt (logged t) (HandleDeviceSelectCode a) a sl =
     (fst (ReadByte_attempt t (HandleDeviceSelectCode a) a (fst sl)),
      snd (ReadByte_attempt t (HandleDeviceSelectCode a) a (fst sl)),
      snd sl @ check_evs t (fst sl) @ ReadByte_frame a)"
  by (simp add: ReadByte_attempt_def Let_def init_if_error_logged ReadByte_frame_def check_evs_def)

lemma ReadHalfWord_attempt_logged:
  "ReadHalfWord_attempt (logged t) (HandleDeviceSelectCode a) a sl =
     (fst (ReadHalfWord_attempt t (HandleDeviceSelectCode a) a (fst sl)),
      snd (ReadHalfWord_attempt t (HandleDeviceSelectCode a) a (fst sl)),
      snd sl @ check_evs t (fst sl) @ ReadHalfWord_frame a)"
  by (simp add: ReadHalfWord_attempt_def Let_def init_if_error_logged ReadHalfWord_frame_def
      check_evs_def)

lemma ReadBlock_attempt_logged:
  "ReadBlock_attempt (logged t) data (HandleDeviceSelectCode a) a n msl =
     ((), fst (snd (ReadBlock_attempt t data (HandleDeviceSelectCode a) a n (fst msl, fst (snd msl)))),
      snd (snd (ReadBlock_attempt t data (HandleDeviceSelectCode a) a n (fst msl, fst (snd msl)))),
      snd (snd msl) @ check_evs t (fst (snd msl)) @ ReadBlock_frame data a n)"
  by (simp add: ReadBlock_attempt_def Let_def init_if_error_logged ReadBlock_frame_def
      check_evs_def)

lemma ErasePage_attempt_logged:
  "ErasePage_attempt (logged t) (HandleDeviceSelectCode a) a sl =
     ((), snd (ErasePage_attempt t (HandleDeviceSelectCode a) a (fst sl)),
      snd sl @ check_evs t (fst sl) @ ErasePage_frame a)"
  by (simp add: ErasePage_attempt_def Let_def init_if_error_logged erase_bytes_logged
      ErasePage_frame_def check_evs_def)

lemma ReadBlock_check_logged:
  "ReadBlock_check (logged t) msl =
     (fst (i2c_IsStateError t (fst (snd msl))), fst msl,
      snd (i2c_IsStateError t (fst (snd msl))),
      snd (snd msl) @ [IsStateError_ev (fst (i2c_IsStateError t (fst (snd msl))))])"
  by (simp add: ReadBlock_check_def)

section \<open>The log of a run\<close>

lemma attempt_result_log:
  assumes body: "\<And>\<sigma>. \<exists>e. lg (snd (body \<sigma>)) =
                        lg \<sigma> @ IsStateError_ev e # (if e then [Init_ev] else []) @ frame"
    and cond: "\<And>\<sigma>. lg (snd (cond \<sigma>)) = lg \<sigma> @ [IsStateError_ev (fst (cond \<sigma>))]"
  shows "\<lbrakk>\<And>k. k < n \<Longrightarrow> attempt_fails body cond k \<sigma>; \<not> attempt_fails body cond n \<sigma>\<rbrakk>
         \<Longrightarrow> \<exists>pre e. length pre = n \<and>
               lg (snd (attempt_result body cond n \<sigma>)) = lg \<sigma> @ run_events pre e frame"
proof (induction n arbitrary: \<sigma>)
  case 0
  obtain e where "lg (snd (body \<sigma>)) =
      lg \<sigma> @ IsStateError_ev e # (if e then [Init_ev] else []) @ frame"
    using body by blast
  moreover have "\<not> fst (cond (snd (body \<sigma>)))"
    using 0(2) by (simp add: attempt_fails_def)
  ultimately have "lg (snd (attempt_result body cond 0 \<sigma>)) = lg \<sigma> @ run_events [] e frame"
    by (simp add: attempt_result_def cond attempt_events_def run_events_def)
  then show ?case by (intro exI [of _ "[]"] exI [of _ e]) simp
next
  case (Suc n)
  let ?\<sigma>' = "snd (cond (snd (body \<sigma>)))"
  obtain e0 where "lg (snd (body \<sigma>)) =
      lg \<sigma> @ IsStateError_ev e0 # (if e0 then [Init_ev] else []) @ frame"
    using body by blast
  moreover have "fst (cond (snd (body \<sigma>)))"
    using Suc.prems(1) [of 0] by (simp add: attempt_fails_def)
  ultimately have first: "lg ?\<sigma>' = lg \<sigma> @ attempt_events e0 frame True"
    by (simp add: cond attempt_events_def)
  have "\<exists>pre e. length pre = n \<and>
          lg (snd (attempt_result body cond n ?\<sigma>')) = lg ?\<sigma>' @ run_events pre e frame"
  proof (rule Suc.IH)
    fix k assume "k < n"
    then show "attempt_fails body cond k ?\<sigma>'"
      using Suc.prems(1) [of "Suc k"] by (simp add: attempt_fails_Suc)
  next
    show "\<not> attempt_fails body cond n ?\<sigma>'"
      using Suc.prems(2) by (simp add: attempt_fails_Suc)
  qed
  then obtain pre e where pre: "length pre = n"
    "lg (snd (attempt_result body cond n ?\<sigma>')) = lg ?\<sigma>' @ run_events pre e frame"
    by blast
  have "lg (snd (attempt_result body cond (Suc n) \<sigma>)) = lg \<sigma> @ run_events (e0 # pre) e frame"
    by (simp add: attempt_result_Suc pre(2) first run_events_def)
  then show ?case using pre(1) by (intro exI [of _ "e0 # pre"] exI [of _ e]) simp
qed

lemma do_while_run_log:
  assumes body: "\<And>\<sigma>. \<exists>e. lg (snd (body \<sigma>)) =
                        lg \<sigma> @ IsStateError_ev e # (if e then [Init_ev] else []) @ frame"
    and cond: "\<And>\<sigma>. lg (snd (cond \<sigma>)) = lg \<sigma> @ [IsStateError_ev (fst (cond \<sigma>))]"
    and ret: "do_while body cond \<sigma> = Some r"
  shows "\<exists>pre e. lg (snd r) = lg \<sigma> @ run_events pre e frame"
proof -
  obtain n where n: "\<And>k. k < n \<Longrightarrow> attempt_fails body cond k \<sigma>"
    "\<not> attempt_fails body cond n \<sigma>" "r = attempt_result body cond n \<sigma>"
    using ret unfolding do_while_Some_iff by blast
  from attempt_result_log [of lg body frame cond n \<sigma>, OF body cond n(1) n(2)]
  show ?thesis using n(3) by auto
qed

text \<open>The log of a run of each operation that returns.\<close>

lemma logged_run:
  assumes body: "\<And>sl. snd (snd (body sl)) = snd sl @ check_evs t (fst sl) @ frame"
    and ret: "do_while body (i2c_IsStateError (logged t)) (s, l) = Some r"
  shows "\<exists>pre e. snd (snd r) = l @ run_events pre e frame"
proof -
  have "\<exists>pre e. snd (snd r) = snd (s, l) @ run_events pre e frame"
  proof (rule do_while_run_log [where lg = snd, OF _ _ ret])
    fix \<sigma> :: "'a \<times> event list"
    show "\<exists>e. snd (snd (body \<sigma>)) =
            snd \<sigma> @ IsStateError_ev e # (if e then [Init_ev] else []) @ frame"
      by (intro exI [of _ "fst (i2c_IsStateError t (fst \<sigma>))"]) (simp add: body check_evs_def)
  next
    fix \<sigma> :: "'a \<times> event list"
    show "snd (snd (i2c_IsStateError (logged t) \<sigma>)) =
            snd \<sigma> @ [IsStateError_ev (fst (i2c_IsStateError (logged t) \<sigma>))]"
      by simp
  qed
  then show ?thesis by simp
qed

lemma WriteByte_log:
  assumes "WriteByte (logged t) a v (s, l) = Some (s', l')"
  shows "\<exists>pre e. l' = l @ run_events pre e (WriteByte_frame a v)"
proof -
  obtain r where r: "do_while (WriteByte_attempt (logged t) (HandleDeviceSelectCode a) a v)
          (i2c_IsStateError (logged t)) (s, l) = Some r" and "snd r = (s', l')"
    using assms by (auto simp: WriteByte_def Let_def)
  from logged_run [OF _ r, of "WriteByte_frame a v"] show ?thesis
    using \<open>snd r = (s', l')\<close> by (simp add: WriteByte_attempt_logged)
qed

lemma ReadBlock_log:
  assumes "ReadBlock (logged t) mem data a n (s, l) = Some (mem', s', l')"
  shows "\<exists>pre e. l' = l @ run_events pre e (ReadBlock_frame data a n)"
proof -
  obtain r where r: "do_while (ReadBlock_attempt (logged t) data (HandleDeviceSelectCode a) a n)
          (ReadBlock_check (logged t)) (mem, s, l) = Some r" and "snd r = (mem', s', l')"
    using assms by (auto simp: ReadBlock_def Let_def)
  have "\<exists>pre e. snd (snd (snd r)) = snd (snd (mem, s, l)) @ run_events pre e (ReadBlock_frame data a n)"
  proof (rule do_while_run_log [where lg = "\<lambda>\<sigma>. snd (snd \<sigma>)", OF _ _ r])
    fix \<sigma> :: "memory \<times> 'a \<times> event list"
    show "\<exists>e. snd (snd (snd (ReadBlock_attempt (logged t) data (HandleDeviceSelectCode a) a n \<sigma>))) =
            snd (snd \<sigma>) @ IsStateError_ev e # (if e then [Init_ev] else []) @ ReadBlock_frame data a n"
      by (intro exI [of _ "fst (i2c_IsStateError t (fst (snd \<sigma>)))"])
         (simp add: ReadBlock_attempt_logged check_evs_def)
  next
    fix \<sigma> :: "memory \<times> 'a \<times> event list"
    show "snd (snd (snd (ReadBlock_check (logged t) \<sigma>))) =
            snd (snd \<sigma>) @ [IsStateError_ev (fst (ReadBlock_check (logged t) \<sigma>))]"
      by (simp add: ReadBlock_check_logged)
  qed
  then show ?thesis using \<open>snd r = (mem', s', l')\<close> by simp
qed

lemma WriteHalfWord_log:
  assumes "WriteHalfWord (logged t) a v (s, l) = Some (s', l')"
  shows "\<exists>pre e. l' = l @ run_events pre e (WriteHalfWord_frame a v)"
proof -
  obtain r where r: "do_while (WriteHalfWord_attempt (logged t) (HandleDeviceSelectCode a) a v)
          (i2c_IsStateError (logged t)) (s, l) = Some r" and "snd r = (s', l')"
    using assms by (auto simp: WriteHalfWord_def Let_def)
  from logged_run [OF _ r, of "WriteHalfWord_frame a v"] show ?thesis
    using \<open>snd r = (s', l')\<close> by (simp add: WriteHalfWord_attempt_logged)
qed

lemma WritePage_log:
  assumes "WritePage (logged t) mem data a n (s, l) = Some (s', l')"
  shows "\<exists>pre e. l' = l @ run_events pre e (WritePage_frame mem (data, a, n))"
proof -
  obtain r where r: "do_while (WritePage_attempt (logged t) mem data (HandleDeviceSelectCode a) a n)
          (i2c_IsStateError (logged t)) (s, l) = Some r" and "snd r = (s', l')"
    using assms by (auto simp: WritePage_def Let_def)
  from logged_run [OF _ r, of "WritePage_frame mem (data, a, n)"] show ?thesis
    using \<open>snd r = (s', l')\<close> by (simp add: WritePage_attempt_logged)
qed

lemma ReadByte_log:
  assumes "ReadByte (logged t) a (s, l) = Some (v, s', l')"
  shows "\<exists>pre e. l' = l @ run_events pre e (ReadByte_frame a)"
proof -
  have r: "do_while (ReadByte_attempt (logged t) (HandleDeviceSelectCode a) a)
          (i2c_IsStateError (logged t)) (s, l) = Some (v, s', l')"
    using assms by (auto simp: ReadByte_def Let_def)
  from logged_run [OF _ r, of "ReadByte_frame a"] show ?thesis
    by (simp add: ReadByte_attempt_logged)
qed

lemma ReadHalfWord_log:
  assumes "ReadHalfWord (logged t) a (s, l) = Some (v, s', l')"
  shows "\<exists>pre e. l' = l @ run_events pre e (ReadHalfWord_frame a)"
proof -
  have r: "do_while (ReadHalfWord_attempt (logged t) (HandleDeviceSelectCode a) a)
          (i2c_IsStateError (logged t)) (s, l) = Some (v, s', l')"
    using assms by (auto simp: ReadHalfWord_def Let_def)
  from logged_run [OF _ r, of "ReadHalfWord_frame a"] show ?thesis
    by (simp add: ReadHalfWord_attempt_logged)
qed

lemma ErasePage_log:
  assumes "ErasePage (logged t) a (s, l) = Some (s', l')"
  shows "\<exists>pre e. l' = l @ run_events pre e (ErasePage_frame a)"
proof -
  obtain r where r: "do_while (ErasePage_attempt (logged t) (HandleDeviceSelectCode a) a)
          (i2c_IsStateError (logged t)) (s, l) = Some r" and "snd r = (s', l')"
    using assms by (auto simp: ErasePage_def Let_def)
  from logged_run [OF _ r, of "ErasePage_frame a"] show ?thesis
    using \<open>snd r = (s', l')\<close> by (simp add: ErasePage_attempt_logged)
qed

section \<open>Runs on a transport that never reports an error\<close>

lemma logged_run_clean:
  assumes noerr: "\<And>s. \<not> fst (i2c_IsStateError t s)"
    and body: "\<And>sl. snd (snd (body sl)) = snd sl @ check_evs t (fst sl) @ frame"
  shows "\<exists>v s'. do_while body (i2c_IsStateError (logged t)) (s, l) =
           Some (v, s', l @ run_events [] False frame)"
proof -
  have "do_while body (i2c_IsStateError (logged t)) (s, l) =
          Some (fst (body (s, l)), snd (i2c_IsStateError (logged t) (snd (body (s, l)))))"
    by (subst do_while_step) (simp add: noerr)
  moreover have "snd (snd (i2c_IsStateError (logged t) (snd (body (s, l))))) =
      l @ run_events [] False frame"
    by (simp add: body check_evs_def noerr run_events_def attempt_events_def)
  ultimately show ?thesis
    by (metis prod.collapse)
qed

lemma WritePage_clean:
  assumes "\<And>s. \<not> fst (i2c_IsStateError t s)"
  shows "\<exists>s'. WritePage (logged t) mem data a n (s, l) =
           Some (s', l @ run_events [] False (WritePage_frame mem (data, a, n)))"
  using logged_run_clean [of t "WritePage_attempt (logged t) mem data (HandleDeviceSelectCode a) a n"
      "WritePage_frame mem (data, a, n)" s l, OF assms]
  by (auto simp add: WritePage_def Let_def WritePage_attempt_logged)

lemma ErasePage_clean:
  assumes "\<And>s. \<not> fst (i2c_IsStateError t s)"
  shows "\<exists>s'. ErasePage (logged t) a (s, l) =
           Some (s', l @ run_events [] False (ErasePage_frame a))"
  using logged_run_clean [of t "ErasePage_attempt (logged t) (HandleDeviceSelectCode a) a"
      "ErasePage_frame a" s l, OF assms]
  by (auto simp add: ErasePage_def Let_def ErasePage_attempt_logged)

section \<open>Runs on a scripted transport\<close>

lemma scripted_sel [simp]:
  "i2c_Init (scripted errs) k = k"
  "i2c_StartPolling (scripted errs) d m p k = k"
  "i2c_IsStateError (scripted errs) k = (errs k, Suc k)"
  "i2c_ReadByte (scripted errs) k = (0x5A, k)"
  "i2c_ReadHalfWord (scripted errs) k = (0xBEEF, k)"
  "i2c_ReadMultipleBytes (scripted errs) mem data n k =
     (\<lambda>a. if data \<le> a \<and> a < data + unat n then 0x5A else mem a, k)"
  "i2c_WriteByte (scripted errs) b k = k"
  "i2c_Stop (scripted errs) k = k"
  by (simp_all add: scripted_def)

lemma init_if_error_scripted [simp]: "init_if_error (scripted errs) k = Suc k"
  by (simp add: init_if_error_def)

lemma write_bytes_scripted [simp]: "write_bytes (scripted errs) mem data n k = k"
proof -
  have "foldl (\<lambda>s' i. i2c_WriteByte (scripted errs) (mem (data + i)) s') k xs = k" for xs
    by (induction xs) simp_all
  then show ?thesis by (simp add: write_bytes_def)
qed

lemma erase_bytes_scripted [simp]: "erase_bytes (scripted errs) k = k"
proof -
  have "foldl (\<lambda>s' i. i2c_WriteByte (scripted errs) 0xFF s') k xs = k" for xs :: "nat list"
    by (induction xs) simp_all
  then show ?thesis by (simp add: erase_bytes_def)
qed

lemma attempts_scripted [simp]:
  "WriteByte_attempt (scripted errs) dc a v k = ((), Suc k)"
  "WriteHalfWord_attempt (scripted errs) dc a w k = ((), Suc k)"
  "WritePage_attempt (scripted errs) mem data dc a n k = ((), Suc k)"
  "ReadByte_attempt (scripted errs) dc a k = (0x5A, Suc k)"
  "ReadHalfWord_attempt (scripted errs) dc a k = (0xBEEF, Suc k)"
  "snd (snd (ReadBlock_attempt (scripted errs) data dc a m (mem', k))) = Suc k"
  "ErasePage_attempt (scripted errs) dc a k = ((), Suc k)"
  by (simp_all add: WriteByte_attempt_def WriteHalfWord_attempt_def WritePage_attempt_def
      ReadByte_attempt_def ReadHalfWord_attempt_def ReadBlock_attempt_def ErasePage_attempt_def)

lemma attempt_fails_scripted:
  assumes cb: "\<And>\<sigma>. cnt (snd (body \<sigma>)) = Suc (cnt \<sigma>)"
    and cc: "\<And>\<sigma>. cnt (snd (cond \<sigma>)) = Suc (cnt \<sigma>)"
    and ans: "\<And>\<sigma>. fst (cond \<sigma>) = errs (cnt \<sigma>)"
  shows "attempt_fails body cond k \<sigma> = errs (cnt \<sigma> + 2 * k + 1)"
proof (induction k arbitrary: \<sigma>)
  case 0
  show ?case by (simp add: attempt_fails_def ans cb)
next
  case (Suc k)
  show ?case by (simp add: attempt_fails_Suc Suc.IH cb cc)
qed

lemma scripted_retries:
  assumes cb: "\<And>\<sigma>. cnt (snd (body \<sigma>)) = Suc (cnt \<sigma>)"
    and cc: "\<And>\<sigma>. cnt (snd (cond \<sigma>)) = Suc (cnt \<sigma>)"
    and ans: "\<And>\<sigma>. fst (cond \<sigma>) = (cnt \<sigma> < 2 * n)"
    and body: "\<And>\<sigma>. \<exists>e. lg (snd (body \<sigma>)) =
                        lg \<sigma> @ IsStateError_ev e # (if e then [Init_ev] else []) @ frame"
    and cond: "\<And>\<sigma>. lg (snd (cond \<sigma>)) = lg \<sigma> @ [IsStateError_ev (fst (cond \<sigma>))]"
    and start: "cnt \<sigma> = 0"
  shows "\<exists>r pre e. length pre = n \<and> do_while body cond \<sigma> = Some r
            \<and> lg (snd r) = lg \<sigma> @ run_events pre e frame"
proof -
  have fails: "attempt_fails body cond k \<sigma> = (k < n)" for k
    using attempt_fails_scripted [of cnt body cond "\<lambda>c. c < 2 * n" k \<sigma>, OF cb cc ans] start
    by auto
  have ret: "do_while body cond \<sigma> = Some (attempt_result body cond n \<sigma>)"
    by (rule do_while_returns) (simp_all add: fails)
  obtain pre e where "length pre = n"
    "lg (snd (attempt_result body cond n \<sigma>)) = lg \<sigma> @ run_events pre e frame"
    using attempt_result_log [of lg body frame cond n \<sigma>, OF body cond] fails by auto
  then show ?thesis using ret by blast
qed

lemma logged_scripted_retries:
  assumes body: "\<And>sl. snd (body sl) =
        (Suc (fst sl), snd sl @ check_evs (scripted (\<lambda>k. k < 2 * n)) (fst sl) @ frame)"
  shows "\<exists>v s' pre e. length pre = n \<and>
           do_while body (i2c_IsStateError (logged (scripted (\<lambda>k. k < 2 * n)))) (0, []) =
             Some (v, s', run_events pre e frame)"
proof -
  have "\<exists>r pre e. length pre = n \<and>
           do_while body (i2c_IsStateError (logged (scripted (\<lambda>k. k < 2 * n)))) (0, []) = Some r
            \<and> snd (snd r) = snd (0 :: nat, [] :: event list) @ run_events pre e frame"
  proof (rule scripted_retries [where cnt = fst and lg = snd])
    fix \<sigma> :: "nat \<times> event list"
    show "\<exists>e. snd (snd (body \<sigma>)) =
            snd \<sigma> @ IsStateError_ev e # (if e then [Init_ev] else []) @ frame"
      by (intro exI [of _ "fst \<sigma> < 2 * n"]) (simp add: body check_evs_def)
  qed (simp_all add: body)
  then show ?thesis
    by (metis append_Nil prod.collapse snd_conv)
qed

lemma WriteByte_retries:
  "\<exists>s' pre e. length pre = n \<and>
      WriteByte (logged (scripted (\<lambda>k. k < 2 * n))) a v (0, []) =
        Some (s', run_events pre e (WriteByte_frame a v))"
  using logged_scripted_retries [of "WriteByte_attempt (logged (scripted (\<lambda>k. k < 2 * n)))
      (HandleDeviceSelectCode a) a v" n "WriteByte_frame a v"]
  by (auto simp add: WriteByte_def Let_def WriteByte_attempt_logged)

section \<open>Block writes and chip erases as sequences of page operations\<close>

lemma write_pages_append:
  "write_pages i2c mem (ps @ qs) s =
     (case write_pages i2c mem ps s of None \<Rightarrow> None | Some s1 \<Rightarrow> write_pages i2c mem qs s1)"
  by (induction ps arbitrary: s) (simp_all split: option.splits)

lemma spec_full_pages_Suc:
  "spec_full_pages data address (Suc n) =
     (data, address, 16) # spec_full_pages (data + 16) (address + 16) n"
proof -
  have "[0 ..< Suc n] = 0 # map Suc [0 ..< n]"
    by (simp add: upt_conv_Cons map_Suc_upt del: upt_Suc)
  then show ?thesis
    by (simp add: spec_full_pages_def comp_def add.assoc add.commute del: upt_Suc)
qed

lemma WriteBlock_loop_pages:
  "unat r = n \<Longrightarrow>
   WriteBlock_loop i2c mem data address r s =
     map_option (\<lambda>s'. (data + n * 16, address + of_nat (n * 16), s'))
       (write_pages i2c mem (spec_full_pages data address n) s)"
proof (induction n arbitrary: r data address s)
  case 0
  then have "r = 0" by (simp add: unat_eq_0)
  then show ?case
    by (subst WriteBlock_loop.simps) (simp add: spec_full_pages_def)
next
  case (Suc n)
  have r: "1 \<le> r" using Suc.prems by (simp add: word_le_nat_alt)
  then have r1: "unat (r - 1) = n" using Suc.prems by (simp add: unat_sub)
  show ?case
  proof (cases "WritePage i2c mem data address PAGE_SIZE s")
    case None
    then show ?thesis using r
      by (subst WriteBlock_loop.simps) (simp add: spec_full_pages_Suc PAGE_SIZE_def)
  next
    case (Some s1)
    have "WriteBlock_loop i2c mem data address r s =
            WriteBlock_loop i2c mem (data + 16) (address + 16) (r - 1) s1"
      using r Some by (subst WriteBlock_loop.simps) (simp add: PAGE_SIZE_def)
    also have "\<dots> = map_option (\<lambda>s'. (data + 16 + n * 16, address + 16 + of_nat (n * 16), s'))
                      (write_pages i2c mem (spec_full_pages (data + 16) (address + 16) n) s1)"
      by (rule Suc.IH [OF r1])
    finally show ?thesis using Some
      by (simp add: spec_full_pages_Suc PAGE_SIZE_def add.assoc add.commute add.left_commute)
  qed
qed

lemma page_size_ucast: "(ucast PAGE_SIZE :: 16 word) = 16"
  by (simp add: PAGE_SIZE_def)

lemma WriteBlock_pages:
  "WriteBlock i2c mem data address data_size s =
     write_pages i2c mem (spec_page_writes data address data_size) s"
proof -
  have d: "unat (data_size div ucast PAGE_SIZE) = unat data_size div 16"
    by (simp add: PAGE_SIZE_def unat_div)
  have a: "unat (data_size mod 16) = unat data_size mod 16"
    by (simp add: unat_mod)
  have b: "(ucast w :: 8 word) = of_nat (unat w)" for w :: "16 word"
    by simp
  have m: "(ucast (data_size mod ucast PAGE_SIZE) :: 8 word) = of_nat (unat data_size mod 16)"
    unfolding page_size_ucast b a ..
  show ?thesis
    unfolding WriteBlock_def spec_page_writes_def write_pages_append
      WriteBlock_loop_pages [OF d] m
    by (cases "write_pages i2c mem (spec_full_pages data address (unat data_size div 16)) s")
       (simp_all split: option.splits)
qed

lemma ChipErase_loop_pages:
  "k + j = 128 \<Longrightarrow>
   ChipErase_loop i2c (int (k * 16)) s =
     erase_pages i2c (map (\<lambda>i. of_nat (i * 16)) [k ..< 128]) s"
proof (induction j arbitrary: k s)
  case 0
  then show ?case
    by (subst ChipErase_loop.simps) (simp add: MEMORY_SIZE_def)
next
  case (Suc j)
  from Suc.prems have k: "k < 128" by simp
  have IH: "ChipErase_loop i2c (int (Suc k * 16)) s' =
     erase_pages i2c (map (\<lambda>i. of_nat (i * 16)) [Suc k ..< 128]) s'" for s'
    by (rule Suc.IH) (use Suc.prems in simp)
  have up: "[k ..< 128] = k # [Suc k ..< 128]"
    using k by (simp add: upt_conv_Cons)
  have step: "int (k * 16) + uint PAGE_SIZE = int (Suc k * 16)"
    by (simp add: PAGE_SIZE_def)
  have inside: "int (k * 16) < uint MEMORY_SIZE"
    using k by (simp add: MEMORY_SIZE_def)
  have "ChipErase_loop i2c (int (k * 16)) s =
      (case ErasePage i2c (word_of_int (int (k * 16))) s of
         None \<Rightarrow> None
       | Some s1 \<Rightarrow> ChipErase_loop i2c (int (Suc k * 16)) s1)"
    by (subst ChipErase_loop.simps) (simp only: inside if_True step)
  also have "word_of_int (int (k * 16)) = (of_nat (k * 16) :: 16 word)"
    by simp
  finally show ?case
    unfolding up by (simp only: IH list.map erase_pages.simps)
qed

lemma ChipErase_pages:
  "ChipErase i2c s = erase_pages i2c spec_erase_offsets s"
  using ChipErase_loop_pages [of 0 128 i2c s]
  by (simp add: ChipErase_def spec_erase_offsets_def)

section \<open>Logs of sequences of page operations\<close>

lemma write_pages_log:
  "write_pages (logged t) mem ps (s, l) = Some (s', l') \<Longrightarrow>
   \<exists>rs. length rs = length ps \<and>
        l' = l @ concat (map (\<lambda>(p, pre, e). run_events pre e (WritePage_frame mem p)) (zip ps rs))"
proof (induction ps arbitrary: s l)
  case Nil
  then show ?case by simp
next
  case (Cons p ps)
  obtain s1 l1 where first: "WritePage (logged t) mem (fst p) (fst (snd p)) (snd (snd p)) (s, l)
      = Some (s1, l1)" and rest: "write_pages (logged t) mem ps (s1, l1) = Some (s', l')"
    using Cons.prems by (auto split: option.splits)
  obtain pre e where l1: "l1 = l @ run_events pre e (WritePage_frame mem p)"
    using WritePage_log [OF first] by auto
  obtain rs where rs: "length rs = length ps"
    "l' = l1 @ concat (map (\<lambda>(p, pre, e). run_events pre e (WritePage_frame mem p)) (zip ps rs))"
    using Cons.IH [OF rest] by blast
  show ?case
    by (intro exI [of _ "(pre, e) # rs"]) (simp add: rs l1)
qed

lemma erase_pages_log:
  "erase_pages (logged t) as (s, l) = Some (s', l') \<Longrightarrow>
   \<exists>rs. length rs = length as \<and>
        l' = l @ concat (map (\<lambda>(a, pre, e). run_events pre e (ErasePage_frame a)) (zip as rs))"
proof (induction as arbitrary: s l)
  case Nil
  then show ?case by simp
next
  case (Cons a as)
  obtain s1 l1 where first: "ErasePage (logged t) a (s, l) = Some (s1, l1)"
    and rest: "erase_pages (logged t) as (s1, l1) = Some (s', l')"
    using Cons.prems by (auto split: option.splits)
  obtain pre e where l1: "l1 = l @ run_events pre e (ErasePage_frame a)"
    using ErasePage_log [OF first] by auto
  obtain rs where rs: "length rs = length as"
    "l' = l1 @ concat (map (\<lambda>(a, pre, e). run_events pre e (ErasePage_frame a)) (zip as rs))"
    using Cons.IH [OF rest] by blast
  show ?case
    by (intro exI [of _ "(pre, e) # rs"]) (simp add: rs l1)
qed

lemma write_pages_clean:
  assumes "\<And>s. \<not> fst (i2c_IsStateError t s)"
  shows "\<exists>s'. write_pages (logged t) mem ps (s, l) =
           Some (s', l @ concat (map (\<lambda>p. run_events [] False (WritePage_frame mem p)) ps))"
proof (induction ps arbitrary: s l)
  case Nil
  show ?case by simp
next
  case (Cons p ps)
  obtain s1 where first: "WritePage (logged t) mem (fst p) (fst (snd p)) (snd (snd p)) (s, l) =
      Some (s1, l @ run_events [] False (WritePage_frame mem p))"
    using WritePage_clean [OF assms, of mem "fst p" "fst (snd p)" "snd (snd p)" s l] by auto
  show ?case
    using Cons.IH [of s1 "l @ run_events [] False (WritePage_frame mem p)"]
    by (simp add: first)
qed

lemma erase_pages_clean:
  assumes "\<And>s. \<not> fst (i2c_IsStateError t s)"
  shows "\<exists>s'. erase_pages (logged t) as (s, l) =
           Some (s', l @ concat (map (\<lambda>a. run_events [] False (ErasePage_frame a)) as))"
proof (induction as arbitrary: s l)
  case Nil
  show ?case by simp
next
  case (Cons a as)
  obtain s1 where first: "ErasePage (logged t) a (s, l) =
      Some (s1, l @ run_events [] False (ErasePage_frame a))"
    using ErasePage_clean [OF assms, of a s l] by auto
  show ?case
    using Cons.IH [of s1 "l @ run_events [] False (ErasePage_frame a)"]
    by (simp add: first)
qed

section \<open>The device select code\<close>

lemma HandleDeviceSelectCode_byte:
  "HandleDeviceSelectCode address =
     DEVICE_ID OR (ucast (drop_bit CHIP_ENABLE_ADRESS_SHIFT address) AND CHIP_ENABLE_ADRESS_MASK)"
  unfolding HandleDeviceSelectCode_def DEVICE_ID_def CHIP_ENABLE_ADRESS_MASK_def
    CHIP_ENABLE_ADRESS_SHIFT_def
  by (rule bit_word_eqI) (auto simp add: bit_simps)

text \<open>
  Claim C1, as the spec states it, gives the select code of address \<open>0x0080\<close> as \<open>0xA2\<close>.
  The code yields \<open>0xA0\<close>: \<open>0x0080 >> 7\<close> is \<open>1\<close>, and bit 0 is outside the mask
  \<open>0b00001110\<close>.
\<close>

theorem C1_select_0x0080_counterexample:
  "HandleDeviceSelectCode 0x0080 \<noteq> 0xA2"
  by (simp add: HandleDeviceSelectCode_def DEVICE_ID_def CHIP_ENABLE_ADRESS_MASK_def
      CHIP_ENABLE_ADRESS_SHIFT_def)

section \<open>Block write segmentation\<close>

lemma spec_page_writes_length:
  "length (spec_page_writes data address data_size) = unat data_size div 16 + 1"
  by (simp add: spec_page_writes_def spec_full_pages_def)

lemma WriteBlock_log:
  assumes "WriteBlock (logged t) mem data address data_size (s, l) = Some (s', l')"
  shows "\<exists>rs. length rs = unat data_size div 16 + 1 \<and>
           l' = l @ concat (map (\<lambda>(p, pre, e). run_events pre e (WritePage_frame mem p))
                          (zip (spec_page_writes data address data_size) rs))"
  using write_pages_log [of t mem "spec_page_writes data address data_size" s l s' l'] assms
  by (simp add: WriteBlock_pages spec_page_writes_length)

lemma WriteBlock_clean:
  assumes "\<And>s. \<not> fst (i2c_IsStateError t s)"
  shows "\<exists>s'. WriteBlock (logged t) mem data address data_size (s, l) =
           Some (s', l @ concat (map (\<lambda>p. run_events [] False (WritePage_frame mem p))
                                 (spec_page_writes data address data_size)))"
  using write_pages_clean [OF assms, of mem "spec_page_writes data address data_size" s l]
  by (simp add: WriteBlock_pages)

text \<open>
  Claim C2: \<open>WriteBlock\<close> carries out \<open>data_size / page_size\<close> page writes of \<open>page_size\<close>
  bytes, data pointer and address advancing by \<open>page_size\<close>, then one page write of
  \<open>data_size % page_size\<close> bytes; 33 bytes at address 0 are written as pages of 16, 16
  and 1 bytes. On a transport that reports no error the block write returns and the
  calls made are exactly one attempt per page write; in any run that returns, they are
  the page writes in this order, each with the retries of its own loop.
\<close>

theorem C2_WriteBlock_segmentation:
  "WriteBlock i2c mem data address data_size s =
     write_pages i2c mem (spec_page_writes data address data_size) s
   \<and> length (spec_page_writes data address data_size) = unat data_size div 16 + 1
   \<and> (\<forall>k < unat data_size div 16.
        spec_page_writes data address data_size ! k =
          (data + k * 16, address + of_nat (k * 16), 16))
   \<and> last (spec_page_writes data address data_size) =
        (data + (unat data_size div 16) * 16, address + of_nat ((unat data_size div 16) * 16),
         of_nat (unat data_size mod 16))
   \<and> unat (of_nat (unat data_size mod 16) :: 8 word) = unat data_size mod 16
   \<and> spec_page_writes data 0 33 = [(data, 0, 16), (data + 16, 16, 16), (data + 32, 32, 1)]
   \<and> ((\<forall>s. \<not> fst (i2c_IsStateError t s)) \<longrightarrow>
        (\<exists>s'. WriteBlock (logged t) mem data address data_size (s0, []) =
           Some (s', concat (map (\<lambda>p. run_events [] False (WritePage_frame mem p))
                              (spec_page_writes data address data_size)))))
   \<and> (\<forall>s' l. WriteBlock (logged t) mem data address data_size (s0, []) = Some (s', l) \<longrightarrow>
        (\<exists>rs. length rs = unat data_size div 16 + 1 \<and>
           l = concat (map (\<lambda>(p, pre, e). run_events pre e (WritePage_frame mem p))
                         (zip (spec_page_writes data address data_size) rs))))"
proof (intro conjI allI impI)
  show "WriteBlock i2c mem data address data_size s =
     write_pages i2c mem (spec_page_writes data address data_size) s"
    by (rule WriteBlock_pages)
  show "length (spec_page_writes data address data_size) = unat data_size div 16 + 1"
    by (rule spec_page_writes_length)
  show "last (spec_page_writes data address data_size) =
        (data + (unat data_size div 16) * 16, address + of_nat ((unat data_size div 16) * 16),
         of_nat (unat data_size mod 16))"
    by (simp add: spec_page_writes_def)
  have "unat data_size mod 16 < 256"
    by (rule less_trans [of _ 16]) simp_all
  then show "unat (of_nat (unat data_size mod 16) :: 8 word) = unat data_size mod 16"
    by (simp add: unat_of_nat)
  show "spec_page_writes data 0 33 = [(data, 0, 16), (data + 16, 16, 16), (data + 32, 32, 1)]"
  proof -
    have "spec_full_pages data 0 2 = [(data, 0, 16), (data + 16, 16, 16)]"
      unfolding numeral_2_eq_2 spec_full_pages_Suc by (simp add: spec_full_pages_def)
    moreover have "unat (33 :: 16 word) = 33" by simp
    moreover have "(33 :: nat) div 16 = 2" "(33 :: nat) mod 16 = 1" by simp_all
    ultimately show ?thesis
      unfolding spec_page_writes_def by simp
  qed
next
  fix k assume "k < unat data_size div 16"
  then show "spec_page_writes data address data_size ! k =
          (data + k * 16, address + of_nat (k * 16), 16)"
    by (simp add: spec_page_writes_def spec_full_pages_def nth_append)
next
  assume "\<forall>s. \<not> fst (i2c_IsStateError t s)"
  then show "\<exists>s'. WriteBlock (logged t) mem data address data_size (s0, []) =
           Some (s', concat (map (\<lambda>p. run_events [] False (WritePage_frame mem p))
                              (spec_page_writes data address data_size)))"
    using WriteBlock_clean [of t mem data address data_size s0 "[]"] by simp
next
  fix s' l
  assume "WriteBlock (logged t) mem data address data_size (s0, []) = Some (s', l)"
  then show "\<exists>rs. length rs = unat data_size div 16 + 1 \<and>
           l = concat (map (\<lambda>(p, pre, e). run_events pre e (WritePage_frame mem p))
                         (zip (spec_page_writes data address data_size) rs))"
    using WriteBlock_log [of t mem data address data_size s0 "[]" s' l] by simp
qed

theorem C2_WriteBlock_segmentation_witness:
  "spec_page_writes 0 0 33 = [(0, 0, 16), (16, 16, 16), (32, 32, 1)]
   \<and> (\<exists>s' rs. length rs = 3 \<and>
         WriteBlock (logged (scripted (\<lambda>k. False))) (\<lambda>i. of_nat i) 0 0 33 (0, []) =
           Some (s', concat (map (\<lambda>(p, pre, e). run_events pre e (WritePage_frame (\<lambda>i. of_nat i) p))
                               (zip [(0, 0, 16), (16, 16, 16), (32, 32, 1)] rs))))"
proof -
  note C = C2_WriteBlock_segmentation [of "scripted (\<lambda>k. False)" "\<lambda>i. of_nat i" 0 0 33 0
      "scripted (\<lambda>k. False)" 0]
  note rest = C [THEN conjunct2, THEN conjunct2, THEN conjunct2, THEN conjunct2, THEN conjunct2]
  have pages: "spec_page_writes 0 0 33 = [(0, 0, 16), (16, 16, 16), (32, 32, 1)]"
    using rest [THEN conjunct1] by simp
  have "\<forall>s. \<not> fst (i2c_IsStateError (scripted (\<lambda>k. False)) s)"
    by simp
  then obtain s' l
    where run: "WriteBlock (logged (scripted (\<lambda>k. False))) (\<lambda>i. of_nat i) 0 0 33 (0, []) =
      Some (s', l)"
    using rest [THEN conjunct2, THEN conjunct1] by blast
  have "\<exists>rs. length rs = unat (33 :: 16 word) div 16 + 1 \<and>
    l = concat (map (\<lambda>(p, pre, e). run_events pre e (WritePage_frame (\<lambda>i. of_nat i) p))
                   (zip (spec_page_writes 0 0 33) rs))"
    using rest [THEN conjunct2, THEN conjunct2, rule_format, OF run] .
  then obtain rs where "length rs = 3"
    "l = concat (map (\<lambda>(p, pre, e). run_events pre e (WritePage_frame (\<lambda>i. of_nat i) p))
                   (zip [(0, 0, 16), (16, 16, 16), (32, 32, 1)] rs))"
    unfolding pages by auto
  then show ?thesis using pages run by blast
qed

section \<open>Chip erase\<close>

lemma spec_erase_offsets_length: "length spec_erase_offsets = 128"
  by (simp add: spec_erase_offsets_def)

lemma spec_erase_offsets_nth:
  assumes "k < 128"
  shows "unat (spec_erase_offsets ! k) = k * 16"
proof -
  have "spec_erase_offsets ! k = of_nat (k * 16)"
    using assms by (simp add: spec_erase_offsets_def del: of_nat_mult)
  moreover have "unat (of_nat (k * 16) :: 16 word) = (k * 16) mod 2 ^ LENGTH(16)"
    by (rule unat_of_nat)
  moreover have "(k * 16) mod 2 ^ LENGTH(16) = k * 16"
    using assms by simp
  ultimately show ?thesis by (simp only:)
qed

lemma spec_erase_offsets_cover:
  assumes "a < 2048"
  shows "\<exists>k < 128. unat (spec_erase_offsets ! k) \<le> a \<and> a < unat (spec_erase_offsets ! k) + 16"
proof -
  have k: "a div 16 < 128" using assms by simp
  have "a div 16 * 16 \<le> a \<and> a < a div 16 * 16 + 16"
    using div_times_less_eq_dividend [of a 16] dividend_less_div_times [of 16 a]
    by (simp add: add.commute)
  then show ?thesis
    using k spec_erase_offsets_nth [OF k] by (intro exI [of _ "a div 16"]) simp
qed

lemma ChipErase_log:
  assumes "ChipErase (logged t) (s, l) = Some (s', l')"
  shows "\<exists>rs. length rs = 128 \<and>
           l' = l @ concat (map (\<lambda>(a, pre, e). run_events pre e (ErasePage_frame a))
                          (zip spec_erase_offsets rs))"
  using erase_pages_log [of t spec_erase_offsets s l s' l'] assms
  by (simp add: ChipErase_pages spec_erase_offsets_length)

lemma ChipErase_clean:
  assumes "\<And>s. \<not> fst (i2c_IsStateError t s)"
  shows "\<exists>s'. ChipErase (logged t) (s, l) =
           Some (s', l @ concat (map (\<lambda>a. run_events [] False (ErasePage_frame a))
                                 spec_erase_offsets))"
  using erase_pages_clean [OF assms, of spec_erase_offsets s l]
  by (simp add: ChipErase_pages)

text \<open>
  Claim C4: \<open>ChipErase\<close> carries out \<open>ErasePage\<close> for the 128 offsets
  \<open>0, 16, ..., 2032\<close>, in this order; every byte address below 2048 lies in the page of
  one of them; each page erase sends the address byte and then 16 bytes \<open>0xFF\<close>. On a
  transport that reports no error the chip erase returns after exactly one attempt per
  page; in any run that returns, the calls are the page erases in this order, each with
  the retries of its own loop.
\<close>

theorem C4_ChipErase_pages:
  "ChipErase i2c s = erase_pages i2c spec_erase_offsets s
   \<and> length spec_erase_offsets = 128
   \<and> (\<forall>k < 128. unat (spec_erase_offsets ! k) = k * unat PAGE_SIZE)
   \<and> (\<forall>a < unat MEMORY_SIZE. \<exists>k < 128.
         unat (spec_erase_offsets ! k) \<le> a \<and> a < unat (spec_erase_offsets ! k) + unat PAGE_SIZE)
   \<and> ErasePage_frame address =
        [StartPolling_ev (HandleDeviceSelectCode address) TX False, WriteByte_ev (ucast address)]
        @ replicate (unat PAGE_SIZE) (WriteByte_ev 0xFF) @ [Stop_ev]
   \<and> ((\<forall>s. \<not> fst (i2c_IsStateError t s)) \<longrightarrow>
        (\<exists>s'. ChipErase (logged t) (s0, []) =
           Some (s', concat (map (\<lambda>a. run_events [] False (ErasePage_frame a))
                              spec_erase_offsets))))
   \<and> (\<forall>s' l. ChipErase (logged t) (s0, []) = Some (s', l) \<longrightarrow>
        (\<exists>rs. length rs = 128 \<and>
           l = concat (map (\<lambda>(a, pre, e). run_events pre e (ErasePage_frame a))
                         (zip spec_erase_offsets rs))))"
proof (intro conjI allI impI)
  show "ChipErase i2c s = erase_pages i2c spec_erase_offsets s"
    by (rule ChipErase_pages)
  show "length spec_erase_offsets = 128"
    by (rule spec_erase_offsets_length)
  show "ErasePage_frame address =
        [StartPolling_ev (HandleDeviceSelectCode address) TX False, WriteByte_ev (ucast address)]
        @ replicate (unat PAGE_SIZE) (WriteByte_ev 0xFF) @ [Stop_ev]"
    by (simp add: ErasePage_frame_def PAGE_SIZE_def)
next
  fix k :: nat assume "k < 128"
  then show "unat (spec_erase_offsets ! k) = k * unat PAGE_SIZE"
    by (simp add: spec_erase_offsets_nth PAGE_SIZE_def)
next
  fix a assume "a < unat MEMORY_SIZE"
  then have "a < 2048" by (simp add: MEMORY_SIZE_def)
  then show "\<exists>k < 128. unat (spec_erase_offsets ! k) \<le> a
      \<and> a < unat (spec_erase_offsets ! k) + unat PAGE_SIZE"
    using spec_erase_offsets_cover [of a] by (simp add: PAGE_SIZE_def)
next
  assume "\<forall>s. \<not> fst (i2c_IsStateError t s)"
  then show "\<exists>s'. ChipErase (logged t) (s0, []) =
           Some (s', concat (map (\<lambda>a. run_events [] False (ErasePage_frame a))
                              spec_erase_offsets))"
    using ChipErase_clean [of t s0 "[]"] by simp
next
  fix s' l
  assume "ChipErase (logged t) (s0, []) = Some (s', l)"
  then show "\<exists>rs. length rs = 128 \<and>
           l = concat (map (\<lambda>(a, pre, e). run_events pre e (ErasePage_frame a))
                         (zip spec_erase_offsets rs))"
    using ChipErase_log [of t s0 "[]" s' l] by simp
qed

theorem C4_ChipErase_pages_witness:
  "unat (spec_erase_offsets ! 127) = 2032
   \<and> (\<exists>k < 128. unat (spec_erase_offsets ! k) \<le> 2047 \<and> 2047 < unat (spec_erase_offsets ! k) + 16)
   \<and> (\<exists>s' rs. length rs = 128 \<and>
         ChipErase (logged (scripted (\<lambda>k. False))) (0, []) =
           Some (s', concat (map (\<lambda>(a, pre, e). run_events pre e (ErasePage_frame a))
                               (zip spec_erase_offsets rs))))"
proof -
  note C = C4_ChipErase_pages [of "scripted (\<lambda>k. False)" 0 0 "scripted (\<lambda>k. False)" 0]
  note rest = C [THEN conjunct2, THEN conjunct2]
  have "unat (spec_erase_offsets ! 127) = 127 * unat PAGE_SIZE"
    using rest [THEN conjunct1, rule_format, of 127] by simp
  then have last_page: "unat (spec_erase_offsets ! 127) = 2032"
    by (simp add: PAGE_SIZE_def)
  have "(2047 :: nat) < unat MEMORY_SIZE" by (simp add: MEMORY_SIZE_def)
  from rest [THEN conjunct2, THEN conjunct1, rule_format, OF this]
  have cover: "\<exists>k < 128. unat (spec_erase_offsets ! k) \<le> 2047
      \<and> 2047 < unat (spec_erase_offsets ! k) + 16"
    by (simp add: PAGE_SIZE_def)
  have "\<forall>s. \<not> fst (i2c_IsStateError (scripted (\<lambda>k. False)) s)"
    by simp
  then obtain s' l
    where run: "ChipErase (logged (scripted (\<lambda>k. False))) (0, []) = Some (s', l)"
    using rest [THEN conjunct2, THEN conjunct2, THEN conjunct2, THEN conjunct1] by blast
  obtain rs where "length rs = 128"
    "l = concat (map (\<lambda>(a, pre, e). run_events pre e (ErasePage_frame a))
                   (zip spec_erase_offsets rs))"
    using rest [THEN conjunct2, THEN conjunct2, THEN conjunct2, THEN conjunct2,
        rule_format, OF run] by blast
  then show ?thesis using last_page cover run by blast
qed

section \<open>Halfword write\<close>

lemma unat_ucast_byte: "unat (ucast (w :: 16 word) :: 8 word) = unat w mod 256"
  by (simp add: unsigned_ucast_eq take_bit_eq_mod)

lemma low_byte: "(ucast (w :: 16 word) :: 8 word) = of_nat (unat w mod 256)"
proof -
  have "of_nat (unat (ucast w :: 8 word)) = (ucast w :: 8 word)"
    by simp
  then show ?thesis
    by (simp only: unat_ucast_byte)
qed

lemma high_byte: "(ucast (drop_bit 8 (w :: 16 word)) :: 8 word) = of_nat (unat w div 256)"
proof -
  have d: "unat (drop_bit 8 w) = unat w div 256"
    unfolding unat_drop_bit_eq by (simp add: drop_bit_eq_div)
  have "unat w < 65536"
    using unsigned_less [of w, where 'a = nat] by simp
  then have "unat w div 256 < 256"
    by simp
  then have "unat (ucast (drop_bit 8 w) :: 8 word) = unat w div 256"
    by (simp only: unat_ucast_byte d mod_less)
  moreover have "of_nat (unat (ucast (drop_bit 8 w) :: 8 word)) = (ucast (drop_bit 8 w) :: 8 word)"
    by simp
  ultimately show ?thesis
    by (simp only:)
qed

lemma WriteHalfWord_frame_bytes:
  "WriteHalfWord_frame address val =
     [StartPolling_ev (HandleDeviceSelectCode address) TX False,
      WriteByte_ev (of_nat (unat address mod 256)),
      WriteByte_ev (of_nat (unat val mod 256)),
      WriteByte_ev (of_nat (unat val div 256)), Stop_ev]"
  unfolding WriteHalfWord_frame_def high_byte by (simp only: low_byte)

lemma WriteHalfWord_clean:
  assumes "\<And>s. \<not> fst (i2c_IsStateError t s)"
  shows "\<exists>s'. WriteHalfWord (logged t) a v (s, l) =
           Some (s', l @ run_events [] False (WriteHalfWord_frame a v))"
  using logged_run_clean [of t "WriteHalfWord_attempt (logged t) (HandleDeviceSelectCode a) a v"
      "WriteHalfWord_frame a v" s l, OF assms]
  by (auto simp add: WriteHalfWord_def Let_def WriteHalfWord_attempt_logged)

text \<open>
  Claim C5: in every run of \<open>WriteHalfWord\<close> that returns, each attempt starts a transmit
  transaction with the select code and sends the low 8 bits of the address, the low byte
  of the value, the high byte of the value, and a stop, in this order. The two data
  bytes, read little-endian, are the value. On a transport that reports no error the
  operation returns after one such attempt. Every single attempt, in a run that returns
  or not, makes these calls after its error check.
\<close>

theorem C5_WriteHalfWord_little_endian:
  "(\<forall>s' l. WriteHalfWord (logged t) address val (s, []) = Some (s', l) \<longrightarrow>
      (\<exists>pre e. l = run_events pre e
         [StartPolling_ev (HandleDeviceSelectCode address) TX False,
          WriteByte_ev (of_nat (unat address mod 256)),
          WriteByte_ev (of_nat (unat val mod 256)),
          WriteByte_ev (of_nat (unat val div 256)),
          Stop_ev]))
   \<and> ((\<forall>s. \<not> fst (i2c_IsStateError t s)) \<longrightarrow>
        (\<exists>s'. WriteHalfWord (logged t) address val (s, []) =
           Some (s', run_events [] False
             [StartPolling_ev (HandleDeviceSelectCode address) TX False,
              WriteByte_ev (of_nat (unat address mod 256)),
              WriteByte_ev (of_nat (unat val mod 256)),
              WriteByte_ev (of_nat (unat val div 256)),
              Stop_ev])))
   \<and> unat (of_nat (unat val mod 256) :: 8 word) + 256 * unat (of_nat (unat val div 256) :: 8 word)
       = unat val
   \<and> snd (snd (WriteHalfWord_attempt (logged t) (HandleDeviceSelectCode address) address val
                  (s, []))) =
        IsStateError_ev (fst (i2c_IsStateError t s))
          # (if fst (i2c_IsStateError t s) then [Init_ev] else [])
          @ [StartPolling_ev (HandleDeviceSelectCode address) TX False,
             WriteByte_ev (of_nat (unat address mod 256)),
             WriteByte_ev (of_nat (unat val mod 256)),
             WriteByte_ev (of_nat (unat val div 256)),
             Stop_ev]"
proof (intro conjI allI impI)
  show "snd (snd (WriteHalfWord_attempt (logged t) (HandleDeviceSelectCode address) address val
                  (s, []))) =
        IsStateError_ev (fst (i2c_IsStateError t s))
          # (if fst (i2c_IsStateError t s) then [Init_ev] else [])
          @ [StartPolling_ev (HandleDeviceSelectCode address) TX False,
             WriteByte_ev (of_nat (unat address mod 256)),
             WriteByte_ev (of_nat (unat val mod 256)),
             WriteByte_ev (of_nat (unat val div 256)),
             Stop_ev]"
    by (simp add: WriteHalfWord_attempt_logged check_evs_def WriteHalfWord_frame_bytes)
next
  fix s' l
  assume "WriteHalfWord (logged t) address val (s, []) = Some (s', l)"
  then show "\<exists>pre e. l = run_events pre e
         [StartPolling_ev (HandleDeviceSelectCode address) TX False,
          WriteByte_ev (of_nat (unat address mod 256)),
          WriteByte_ev (of_nat (unat val mod 256)),
          WriteByte_ev (of_nat (unat val div 256)),
          Stop_ev]"
    using WriteHalfWord_log [of t address val s "[]" s' l]
    by (simp add: WriteHalfWord_frame_bytes)
next
  assume "\<forall>s. \<not> fst (i2c_IsStateError t s)"
  then show "\<exists>s'. WriteHalfWord (logged t) address val (s, []) =
           Some (s', run_events [] False
             [StartPolling_ev (HandleDeviceSelectCode address) TX False,
              WriteByte_ev (of_nat (unat address mod 256)),
              WriteByte_ev (of_nat (unat val mod 256)),
              WriteByte_ev (of_nat (unat val div 256)),
              Stop_ev])"
    using WriteHalfWord_clean [of t address val s "[]"]
    by (simp add: WriteHalfWord_frame_bytes)
next
  have "unat val < 65536"
    using unsigned_less [of val, where 'a = nat] by simp
  then have "unat val div 256 < 256"
    by simp
  then have "unat (of_nat (unat val div 256) :: 8 word) = unat val div 256"
    by (simp add: unat_of_nat)
  moreover have "unat (of_nat (unat val mod 256) :: 8 word) = unat val mod 256"
    by (simp add: unat_of_nat)
  ultimately show "unat (of_nat (unat val mod 256) :: 8 word)
      + 256 * unat (of_nat (unat val div 256) :: 8 word) = unat val"
    by simp
qed

theorem C5_WriteHalfWord_little_endian_witness:
  "\<exists>s' pre e.
     WriteHalfWord (logged (scripted (\<lambda>k. False))) 0x0123 0xBEEF (0, []) =
       Some (s', [IsStateError_ev False, StartPolling_ev 0xA2 TX False, WriteByte_ev 0x23,
                  WriteByte_ev 0xEF, WriteByte_ev 0xBE, Stop_ev, IsStateError_ev False])
     \<and> [IsStateError_ev False, StartPolling_ev 0xA2 TX False, WriteByte_ev 0x23,
          WriteByte_ev 0xEF, WriteByte_ev 0xBE, Stop_ev, IsStateError_ev False] =
         run_events pre e [StartPolling_ev 0xA2 TX False, WriteByte_ev 0x23,
                           WriteByte_ev 0xEF, WriteByte_ev 0xBE, Stop_ev]"
proof -
  note C = C5_WriteHalfWord_little_endian [of "scripted (\<lambda>k. False)" "0x0123" "0xBEEF" 0]
  have sel: "HandleDeviceSelectCode 0x0123 = 0xA2"
    by (simp add: HandleDeviceSelectCode_def DEVICE_ID_def CHIP_ENABLE_ADRESS_MASK_def
        CHIP_ENABLE_ADRESS_SHIFT_def)
  have bytes: "(of_nat (unat (0x0123 :: 16 word) mod 256) :: 8 word) = 0x23"
    "(of_nat (unat (0xBEEF :: 16 word) mod 256) :: 8 word) = 0xEF"
    "(of_nat (unat (0xBEEF :: 16 word) div 256) :: 8 word) = 0xBE"
    by simp_all
  have "\<forall>s. \<not> fst (i2c_IsStateError (scripted (\<lambda>k. False)) s)"
    by simp
  then obtain s' where "WriteHalfWord (logged (scripted (\<lambda>k. False))) 0x0123 0xBEEF (0, []) =
      Some (s', run_events [] False
             [StartPolling_ev (HandleDeviceSelectCode 0x0123) TX False,
              WriteByte_ev (of_nat (unat (0x0123 :: 16 word) mod 256)),
              WriteByte_ev (of_nat (unat (0xBEEF :: 16 word) mod 256)),
              WriteByte_ev (of_nat (unat (0xBEEF :: 16 word) div 256)),
              Stop_ev])"
    using C [THEN conjunct2, THEN conjunct1] by blast
  then have run: "WriteHalfWord (logged (scripted (\<lambda>k. False))) 0x0123 0xBEEF (0, []) =
       Some (s', [IsStateError_ev False, StartPolling_ev 0xA2 TX False, WriteByte_ev 0x23,
                  WriteByte_ev 0xEF, WriteByte_ev 0xBE, Stop_ev, IsStateError_ev False])"
    unfolding sel bytes by (simp add: run_events_def attempt_events_def)
  from C [THEN conjunct1, rule_format, OF run]
  obtain pre e where "[IsStateError_ev False, StartPolling_ev 0xA2 TX False, WriteByte_ev 0x23,
          WriteByte_ev 0xEF, WriteByte_ev 0xBE, Stop_ev, IsStateError_ev False] =
         run_events pre e [StartPolling_ev 0xA2 TX False, WriteByte_ev 0x23,
                           WriteByte_ev 0xEF, WriteByte_ev 0xBE, Stop_ev]"
    unfolding sel bytes by blast
  then show ?thesis using run by blast
qed

section \<open>Read transactions\<close>

lemma run_events_members:
  "x \<in> set (run_events pre e frame) \<Longrightarrow>
     x \<in> set frame \<or> x = Init_ev \<or> (\<exists>b. x = IsStateError_ev b)"
  by (auto simp add: run_events_def attempt_events_def split: if_splits)

lemma frame_in_run_events: "set frame \<subseteq> set (run_events pre e frame)"
  by (auto simp add: run_events_def attempt_events_def)

lemma ReadByte_frame_bytes:
  "ReadByte_frame address =
     [StartPolling_ev (HandleDeviceSelectCode address) TX False,
      WriteByte_ev (of_nat (unat address mod 256)),
      StartPolling_ev (HandleDeviceSelectCode address) RX False, ReadByte_ev]"
  by (simp only: ReadByte_frame_def low_byte)

lemma ReadHalfWord_frame_bytes:
  "ReadHalfWord_frame address =
     [StartPolling_ev (HandleDeviceSelectCode address) TX True,
      WriteByte_ev (of_nat (unat address mod 256)),
      StartPolling_ev (HandleDeviceSelectCode address) RX False, ReadHalfWord_ev]"
  by (simp only: ReadHalfWord_frame_def low_byte)

lemma ReadByte_clean:
  assumes "\<And>s. \<not> fst (i2c_IsStateError t s)"
  shows "\<exists>v s'. ReadByte (logged t) a (s, l) =
           Some (v, s', l @ run_events [] False (ReadByte_frame a))"
  using logged_run_clean [of t "ReadByte_attempt (logged t) (HandleDeviceSelectCode a) a"
      "ReadByte_frame a" s l, OF assms]
  by (auto simp add: ReadByte_def Let_def ReadByte_attempt_logged)

lemma ReadHalfWord_clean:
  assumes "\<And>s. \<not> fst (i2c_IsStateError t s)"
  shows "\<exists>v s'. ReadHalfWord (logged t) a (s, l) =
           Some (v, s', l @ run_events [] False (ReadHalfWord_frame a))"
  using logged_run_clean [of t "ReadHalfWord_attempt (logged t) (HandleDeviceSelectCode a) a"
      "ReadHalfWord_frame a" s l, OF assms]
  by (auto simp add: ReadHalfWord_def Let_def ReadHalfWord_attempt_logged)

lemma ReadByte_value:
  assumes "ReadByte i2c a s = Some (v, s')"
  shows "\<exists>u u'. i2c_ReadByte i2c u = (v, u') \<and> i2c_IsStateError i2c u' = (False, s')"
proof -
  let ?body = "ReadByte_attempt i2c (HandleDeviceSelectCode a) a"
  obtain n where n: "\<not> attempt_fails ?body (i2c_IsStateError i2c) n s"
    "(v, s') = attempt_result ?body (i2c_IsStateError i2c) n s"
    using assms unfolding ReadByte_def Let_def do_while_Some_iff by blast
  let ?s = "retry_state ?body (i2c_IsStateError i2c) n s"
  obtain u where u: "?body ?s = i2c_ReadByte i2c u"
    by (simp add: ReadByte_attempt_def Let_def)
  have "i2c_ReadByte i2c u = (v, snd (i2c_ReadByte i2c u))"
    using n(2) u by (simp add: attempt_result_def prod_eq_iff)
  moreover have "i2c_IsStateError i2c (snd (i2c_ReadByte i2c u)) = (False, s')"
    using n u by (simp add: attempt_result_def attempt_fails_def prod_eq_iff)
  ultimately show ?thesis by blast
qed

lemma ReadHalfWord_value:
  assumes "ReadHalfWord i2c a s = Some (v, s')"
  shows "\<exists>u u'. i2c_ReadHalfWord i2c u = (v, u') \<and> i2c_IsStateError i2c u' = (False, s')"
proof -
  let ?body = "ReadHalfWord_attempt i2c (HandleDeviceSelectCode a) a"
  obtain n where n: "\<not> attempt_fails ?body (i2c_IsStateError i2c) n s"
    "(v, s') = attempt_result ?body (i2c_IsStateError i2c) n s"
    using assms unfolding ReadHalfWord_def Let_def do_while_Some_iff by blast
  let ?s = "retry_state ?body (i2c_IsStateError i2c) n s"
  obtain u where u: "?body ?s = i2c_ReadHalfWord i2c u"
    by (simp add: ReadHalfWord_attempt_def Let_def)
  have "i2c_ReadHalfWord i2c u = (v, snd (i2c_ReadHalfWord i2c u))"
    using n(2) u by (simp add: attempt_result_def prod_eq_iff)
  moreover have "i2c_IsStateError i2c (snd (i2c_ReadHalfWord i2c u)) = (False, s')"
    using n u by (simp add: attempt_result_def attempt_fails_def prod_eq_iff)
  ultimately show ?thesis by blast
qed

text \<open>
  Claim C6: in every run of \<open>ReadByte\<close> and of \<open>ReadHalfWord\<close> that returns, each attempt
  starts a transmit transaction, sends the low 8 bits of the address, starts the bus
  again in receive mode and calls the transport's read primitive for one byte or for a
  halfword; the driver never calls \<open>Stop\<close>. The value returned is the one the read
  primitive delivered in the attempt whose closing check reported no error. On a
  transport that reports no error both operations return after one attempt. Every single
  attempt, in a run that returns or not, makes these calls after its error check.
\<close>

theorem C6_read_transactions:
  "(\<forall>v s' l. ReadByte (logged t) address (s, []) = Some (v, s', l) \<longrightarrow>
      (\<exists>pre e. l = run_events pre e
         [StartPolling_ev (HandleDeviceSelectCode address) TX False,
          WriteByte_ev (of_nat (unat address mod 256)),
          StartPolling_ev (HandleDeviceSelectCode address) RX False,
          ReadByte_ev])
      \<and> Stop_ev \<notin> set l)
   \<and> (\<forall>v s' l. ReadHalfWord (logged t) address (s, []) = Some (v, s', l) \<longrightarrow>
      (\<exists>pre e. l = run_events pre e
         [StartPolling_ev (HandleDeviceSelectCode address) TX True,
          WriteByte_ev (of_nat (unat address mod 256)),
          StartPolling_ev (HandleDeviceSelectCode address) RX False,
          ReadHalfWord_ev])
      \<and> Stop_ev \<notin> set l)
   \<and> (\<forall>v s'. ReadByte t address s = Some (v, s') \<longrightarrow>
        (\<exists>u u'. i2c_ReadByte t u = (v, u') \<and> i2c_IsStateError t u' = (False, s')))
   \<and> (\<forall>v s'. ReadHalfWord t address s = Some (v, s') \<longrightarrow>
        (\<exists>u u'. i2c_ReadHalfWord t u = (v, u') \<and> i2c_IsStateError t u' = (False, s')))
   \<and> ((\<forall>s. \<not> fst (i2c_IsStateError t s)) \<longrightarrow>
        (\<exists>v s'. ReadByte (logged t) address (s, []) =
           Some (v, s', run_events [] False
             [StartPolling_ev (HandleDeviceSelectCode address) TX False,
              WriteByte_ev (of_nat (unat address mod 256)),
              StartPolling_ev (HandleDeviceSelectCode address) RX False,
              ReadByte_ev]))
        \<and> (\<exists>v s'. ReadHalfWord (logged t) address (s, []) =
           Some (v, s', run_events [] False
             [StartPolling_ev (HandleDeviceSelectCode address) TX True,
              WriteByte_ev (of_nat (unat address mod 256)),
              StartPolling_ev (HandleDeviceSelectCode address) RX False,
              ReadHalfWord_ev])))
   \<and> snd (snd (ReadByte_attempt (logged t) (HandleDeviceSelectCode address) address (s, []))) =
        IsStateError_ev (fst (i2c_IsStateError t s))
          # (if fst (i2c_IsStateError t s) then [Init_ev] else [])
          @ [StartPolling_ev (HandleDeviceSelectCode address) TX False,
             WriteByte_ev (of_nat (unat address mod 256)),
             StartPolling_ev (HandleDeviceSelectCode address) RX False,
             ReadByte_ev]
   \<and> snd (snd (ReadHalfWord_attempt (logged t) (HandleDeviceSelectCode address) address
                  (s, []))) =
        IsStateError_ev (fst (i2c_IsStateError t s))
          # (if fst (i2c_IsStateError t s) then [Init_ev] else [])
          @ [StartPolling_ev (HandleDeviceSelectCode address) TX True,
             WriteByte_ev (of_nat (unat address mod 256)),
             StartPolling_ev (HandleDeviceSelectCode address) RX False,
             ReadHalfWord_ev]"
proof (intro conjI allI impI)
  show "snd (snd (ReadByte_attempt (logged t) (HandleDeviceSelectCode address) address (s, []))) =
        IsStateError_ev (fst (i2c_IsStateError t s))
          # (if fst (i2c_IsStateError t s) then [Init_ev] else [])
          @ [StartPolling_ev (HandleDeviceSelectCode address) TX False,
             WriteByte_ev (of_nat (unat address mod 256)),
             StartPolling_ev (HandleDeviceSelectCode address) RX False,
             ReadByte_ev]"
    by (simp add: ReadByte_attempt_logged check_evs_def ReadByte_frame_bytes)
  show "snd (snd (ReadHalfWord_attempt (logged t) (HandleDeviceSelectCode address) address
                  (s, []))) =
        IsStateError_ev (fst (i2c_IsStateError t s))
          # (if fst (i2c_IsStateError t s) then [Init_ev] else [])
          @ [StartPolling_ev (HandleDeviceSelectCode address) TX True,
             WriteByte_ev (of_nat (unat address mod 256)),
             StartPolling_ev (HandleDeviceSelectCode address) RX False,
             ReadHalfWord_ev]"
    by (simp add: ReadHalfWord_attempt_logged check_evs_def ReadHalfWord_frame_bytes)
next
  fix v s' l
  assume run: "ReadByte (logged t) address (s, []) = Some (v, s', l)"
  then obtain pre e where l: "l = run_events pre e (ReadByte_frame address)"
    using ReadByte_log [of t address s "[]" v s' l] by auto
  then show "\<exists>pre e. l = run_events pre e
         [StartPolling_ev (HandleDeviceSelectCode address) TX False,
          WriteByte_ev (of_nat (unat address mod 256)),
          StartPolling_ev (HandleDeviceSelectCode address) RX False,
          ReadByte_ev]"
    unfolding ReadByte_frame_bytes by blast
  show "Stop_ev \<notin> set l"
    using run_events_members [of Stop_ev pre e "ReadByte_frame address"]
    unfolding l by (auto simp add: ReadByte_frame_def)
next
  fix v s' l
  assume run: "ReadHalfWord (logged t) address (s, []) = Some (v, s', l)"
  then obtain pre e where l: "l = run_events pre e (ReadHalfWord_frame address)"
    using ReadHalfWord_log [of t address s "[]" v s' l] by auto
  then show "\<exists>pre e. l = run_events pre e
         [StartPolling_ev (HandleDeviceSelectCode address) TX True,
          WriteByte_ev (of_nat (unat address mod 256)),
          StartPolling_ev (HandleDeviceSelectCode address) RX False,
          ReadHalfWord_ev]"
    unfolding ReadHalfWord_frame_bytes by blast
  show "Stop_ev \<notin> set l"
    using run_events_members [of Stop_ev pre e "ReadHalfWord_frame address"]
    unfolding l by (auto simp add: ReadHalfWord_frame_def)
next
  fix v s'
  assume "ReadByte t address s = Some (v, s')"
  then show "\<exists>u u'. i2c_ReadByte t u = (v, u') \<and> i2c_IsStateError t u' = (False, s')"
    by (rule ReadByte_value)
next
  fix v s'
  assume "ReadHalfWord t address s = Some (v, s')"
  then show "\<exists>u u'. i2c_ReadHalfWord t u = (v, u') \<and> i2c_IsStateError t u' = (False, s')"
    by (rule ReadHalfWord_value)
next
  assume clean: "\<forall>s. \<not> fst (i2c_IsStateError t s)"
  then show "\<exists>v s'. ReadByte (logged t) address (s, []) =
           Some (v, s', run_events [] False
             [StartPolling_ev (HandleDeviceSelectCode address) TX False,
              WriteByte_ev (of_nat (unat address mod 256)),
              StartPolling_ev (HandleDeviceSelectCode address) RX False,
              ReadByte_ev])"
    using ReadByte_clean [of t address s "[]"] by (simp add: ReadByte_frame_bytes)
  from clean show "\<exists>v s'. ReadHalfWord (logged t) address (s, []) =
           Some (v, s', run_events [] False
             [StartPolling_ev (HandleDeviceSelectCode address) TX True,
              WriteByte_ev (of_nat (unat address mod 256)),
              StartPolling_ev (HandleDeviceSelectCode address) RX False,
              ReadHalfWord_ev])"
    using ReadHalfWord_clean [of t address s "[]"] by (simp add: ReadHalfWord_frame_bytes)
qed

theorem C6_read_transactions_witness:
  "(\<exists>v s' l pre e.
      ReadByte (logged (scripted (\<lambda>k. False))) 0x0123 (0, []) = Some (v, s', l)
      \<and> l = run_events pre e [StartPolling_ev 0xA2 TX False, WriteByte_ev 0x23,
                               StartPolling_ev 0xA2 RX False, ReadByte_ev]
      \<and> Stop_ev \<notin> set l)
   \<and> (\<exists>v s' l pre e.
      ReadHalfWord (logged (scripted (\<lambda>k. False))) 0x0123 (0, []) = Some (v, s', l)
      \<and> l = run_events pre e [StartPolling_ev 0xA2 TX True, WriteByte_ev 0x23,
                               StartPolling_ev 0xA2 RX False, ReadHalfWord_ev]
      \<and> Stop_ev \<notin> set l)
   \<and> ReadByte (scripted (\<lambda>k. False)) 0x0123 0 = Some (0x5A, 2)
   \<and> (\<exists>u u'. i2c_ReadByte (scripted (\<lambda>k. False)) u = (0x5A, u')
         \<and> i2c_IsStateError (scripted (\<lambda>k. False)) u' = (False, 2))
   \<and> ReadHalfWord (scripted (\<lambda>k. False)) 0x0123 0 = Some (0xBEEF, 2)
   \<and> (\<exists>u u'. i2c_ReadHalfWord (scripted (\<lambda>k. False)) u = (0xBEEF, u')
         \<and> i2c_IsStateError (scripted (\<lambda>k. False)) u' = (False, 2))"
proof -
  note C = C6_read_transactions [of "scripted (\<lambda>k. False)" "0x0123" 0]
  note c1 = C [THEN conjunct1]
  note c2 = C [THEN conjunct2, THEN conjunct1]
  note c3 = C [THEN conjunct2, THEN conjunct2, THEN conjunct1]
  note c4 = C [THEN conjunct2, THEN conjunct2, THEN conjunct2, THEN conjunct1]
  note c5 = C [THEN conjunct2, THEN conjunct2, THEN conjunct2, THEN conjunct2, THEN conjunct1]
  have sel: "HandleDeviceSelectCode 0x0123 = 0xA2"
    by (simp add: HandleDeviceSelectCode_def DEVICE_ID_def CHIP_ENABLE_ADRESS_MASK_def
        CHIP_ENABLE_ADRESS_SHIFT_def)
  have byte: "(of_nat (unat (0x0123 :: 16 word) mod 256) :: 8 word) = 0x23"
    by simp
  have clean: "\<forall>s. \<not> fst (i2c_IsStateError (scripted (\<lambda>k. False)) s)"
    by simp
  obtain v s' l where rb: "ReadByte (logged (scripted (\<lambda>k. False))) 0x0123 (0, []) = Some (v, s', l)"
    using c5 [THEN mp, OF clean, THEN conjunct1] by blast
  have b: "\<exists>v s' l pre e.
      ReadByte (logged (scripted (\<lambda>k. False))) 0x0123 (0, []) = Some (v, s', l)
      \<and> l = run_events pre e [StartPolling_ev 0xA2 TX False, WriteByte_ev 0x23,
                               StartPolling_ev 0xA2 RX False, ReadByte_ev]
      \<and> Stop_ev \<notin> set l"
    using c1 [rule_format, OF rb] rb unfolding sel byte by blast
  obtain w s'' l' where rh:
    "ReadHalfWord (logged (scripted (\<lambda>k. False))) 0x0123 (0, []) = Some (w, s'', l')"
    using c5 [THEN mp, OF clean, THEN conjunct2] by blast
  have h: "\<exists>v s' l pre e.
      ReadHalfWord (logged (scripted (\<lambda>k. False))) 0x0123 (0, []) = Some (v, s', l)
      \<and> l = run_events pre e [StartPolling_ev 0xA2 TX True, WriteByte_ev 0x23,
                               StartPolling_ev 0xA2 RX False, ReadHalfWord_ev]
      \<and> Stop_ev \<notin> set l"
    using c2 [rule_format, OF rh] rh unfolding sel byte by blast
  have vb: "ReadByte (scripted (\<lambda>k. False)) 0x0123 0 = Some (0x5A, 2)"
    by (simp add: ReadByte_def do_while_step)
  have vh: "ReadHalfWord (scripted (\<lambda>k. False)) 0x0123 0 = Some (0xBEEF, 2)"
    by (simp add: ReadHalfWord_def do_while_step)
  show ?thesis
    using b h vb vh c3 [rule_format, OF vb] c4 [rule_format, OF vh] by (intro conjI)
qed

section \<open>Zero-length page writes\<close>

lemma WritePage_frame_empty:
  "WritePage_frame mem (data, address, 0) =
     [StartPolling_ev (HandleDeviceSelectCode address) TX False,
      WriteByte_ev (of_nat (unat address mod 256)), Stop_ev]"
  by (simp add: WritePage_frame_def low_byte)

lemma spec_page_writes_multiple:
  assumes "unat data_size mod 16 = 0"
  shows "spec_page_writes data address data_size =
           spec_full_pages data address (unat data_size div 16)
           @ [(data + unat data_size, address + data_size, 0)]"
proof -
  have n: "unat data_size div 16 * 16 = unat data_size"
    using assms by (simp add: mod_eq_0_iff_dvd)
  have "(of_nat (unat data_size div 16 * 16) :: 16 word) = data_size"
    unfolding n by simp
  then show ?thesis
    unfolding spec_page_writes_def n assms by simp
qed

text \<open>
  Claim C7: a page write of zero bytes is carried out like any other: in every run that
  returns, each attempt consists of the start with the select code, the address byte and
  the stop, with no data byte in between, and on a transport that reports no error it
  returns after one attempt. When \<open>data_size\<close> is a multiple of the page size, the last
  page write of \<open>WriteBlock\<close> is such a zero-length write, at \<open>address + data_size\<close>.
  Every single attempt of a zero-length page write, in a run that returns or not, makes
  these three calls after its error check.
\<close>

theorem C7_zero_length_page_write:
  "(\<forall>s' l. WritePage (logged t) mem data address 0 (s, []) = Some (s', l) \<longrightarrow>
      (\<exists>pre e. l = run_events pre e
         [StartPolling_ev (HandleDeviceSelectCode address) TX False,
          WriteByte_ev (of_nat (unat address mod 256)),
          Stop_ev]))
   \<and> ((\<forall>s. \<not> fst (i2c_IsStateError t s)) \<longrightarrow>
        (\<exists>s'. WritePage (logged t) mem data address 0 (s, []) =
           Some (s', run_events [] False
             [StartPolling_ev (HandleDeviceSelectCode address) TX False,
              WriteByte_ev (of_nat (unat address mod 256)),
              Stop_ev])))
   \<and> (unat data_size mod unat PAGE_SIZE = 0 \<longrightarrow>
        WriteBlock t mem data address data_size s =
          (case write_pages t mem (spec_full_pages data address (unat data_size div 16)) s of
             None \<Rightarrow> None
           | Some s1 \<Rightarrow> WritePage t mem (data + unat data_size) (address + data_size) 0 s1))
   \<and> snd (snd (WritePage_attempt (logged t) mem data (HandleDeviceSelectCode address) address 0
                  (s, []))) =
        IsStateError_ev (fst (i2c_IsStateError t s))
          # (if fst (i2c_IsStateError t s) then [Init_ev] else [])
          @ [StartPolling_ev (HandleDeviceSelectCode address) TX False,
             WriteByte_ev (of_nat (unat address mod 256)),
             Stop_ev]"
proof (intro conjI allI impI)
  show "snd (snd (WritePage_attempt (logged t) mem data (HandleDeviceSelectCode address) address 0
                  (s, []))) =
        IsStateError_ev (fst (i2c_IsStateError t s))
          # (if fst (i2c_IsStateError t s) then [Init_ev] else [])
          @ [StartPolling_ev (HandleDeviceSelectCode address) TX False,
             WriteByte_ev (of_nat (unat address mod 256)),
             Stop_ev]"
    by (simp add: WritePage_attempt_logged check_evs_def WritePage_frame_empty)
next
  fix s' l
  assume "WritePage (logged t) mem data address 0 (s, []) = Some (s', l)"
  then show "\<exists>pre e. l = run_events pre e
         [StartPolling_ev (HandleDeviceSelectCode address) TX False,
          WriteByte_ev (of_nat (unat address mod 256)),
          Stop_ev]"
    using WritePage_log [of t mem data address 0 s "[]" s' l]
    by (simp add: WritePage_frame_empty)
next
  assume "\<forall>s. \<not> fst (i2c_IsStateError t s)"
  then show "\<exists>s'. WritePage (logged t) mem data address 0 (s, []) =
           Some (s', run_events [] False
             [StartPolling_ev (HandleDeviceSelectCode address) TX False,
              WriteByte_ev (of_nat (unat address mod 256)),
              Stop_ev])"
    using WritePage_clean [of t mem data address 0 s "[]"]
    by (simp add: WritePage_frame_empty)
next
  assume "unat data_size mod unat PAGE_SIZE = 0"
  then have "unat data_size mod 16 = 0"
    by (simp add: PAGE_SIZE_def)
  then show "WriteBlock t mem data address data_size s =
          (case write_pages t mem (spec_full_pages data address (unat data_size div 16)) s of
             None \<Rightarrow> None
           | Some s1 \<Rightarrow> WritePage t mem (data + unat data_size) (address + data_size) 0 s1)"
    unfolding WriteBlock_pages
    by (simp add: spec_page_writes_multiple write_pages_append split: option.splits)
qed

theorem C7_zero_length_page_write_witness:
  "(\<exists>s' pre e.
      WritePage (logged (scripted (\<lambda>k. False))) (\<lambda>i. 0xAB) 0 0x0120 0 (0, []) =
        Some (s', [IsStateError_ev False, StartPolling_ev 0xA2 TX False, WriteByte_ev 0x20,
                   Stop_ev, IsStateError_ev False])
      \<and> [IsStateError_ev False, StartPolling_ev 0xA2 TX False, WriteByte_ev 0x20,
                   Stop_ev, IsStateError_ev False] =
          run_events pre e [StartPolling_ev 0xA2 TX False, WriteByte_ev 0x20, Stop_ev])
   \<and> unat (32 :: 16 word) mod unat PAGE_SIZE = 0
   \<and> WriteBlock (scripted (\<lambda>k. False)) (\<lambda>i. 0xAB) 0 0x0100 32 0 =
        (case write_pages (scripted (\<lambda>k. False)) (\<lambda>i. 0xAB)
                [(0, 0x0100, 16), (16, 0x0110, 16)] 0 of
           None \<Rightarrow> None
         | Some s1 \<Rightarrow> WritePage (scripted (\<lambda>k. False)) (\<lambda>i. 0xAB) 32 0x0120 0 s1)"
proof -
  note C = C7_zero_length_page_write [of "scripted (\<lambda>k. False)" "\<lambda>i. 0xAB" 0 "0x0120" 0]
  have sel: "HandleDeviceSelectCode 0x0120 = 0xA2"
    by (simp add: HandleDeviceSelectCode_def DEVICE_ID_def CHIP_ENABLE_ADRESS_MASK_def
        CHIP_ENABLE_ADRESS_SHIFT_def)
  have byte: "(of_nat (unat (0x0120 :: 16 word) mod 256) :: 8 word) = 0x20"
    by simp
  have clean: "\<forall>s. \<not> fst (i2c_IsStateError (scripted (\<lambda>k. False)) s)"
    by simp
  obtain s' where
    "WritePage (logged (scripted (\<lambda>k. False))) (\<lambda>i. 0xAB) 0 0x0120 0 (0, []) =
       Some (s', run_events [] False
             [StartPolling_ev (HandleDeviceSelectCode 0x0120) TX False,
              WriteByte_ev (of_nat (unat (0x0120 :: 16 word) mod 256)),
              Stop_ev])"
    using C [THEN conjunct2, THEN conjunct1, THEN mp, OF clean] by blast
  then have run: "WritePage (logged (scripted (\<lambda>k. False))) (\<lambda>i. 0xAB) 0 0x0120 0 (0, []) =
        Some (s', [IsStateError_ev False, StartPolling_ev 0xA2 TX False, WriteByte_ev 0x20,
                   Stop_ev, IsStateError_ev False])"
    unfolding sel byte by (simp add: run_events_def attempt_events_def)
  have first: "\<exists>s' pre e.
      WritePage (logged (scripted (\<lambda>k. False))) (\<lambda>i. 0xAB) 0 0x0120 0 (0, []) =
        Some (s', [IsStateError_ev False, StartPolling_ev 0xA2 TX False, WriteByte_ev 0x20,
                   Stop_ev, IsStateError_ev False])
      \<and> [IsStateError_ev False, StartPolling_ev 0xA2 TX False, WriteByte_ev 0x20,
                   Stop_ev, IsStateError_ev False] =
          run_events pre e [StartPolling_ev 0xA2 TX False, WriteByte_ev 0x20, Stop_ev]"
    using C [THEN conjunct1, rule_format, OF run] run unfolding sel byte by blast
  have mult: "unat (32 :: 16 word) mod unat PAGE_SIZE = 0"
    by (simp add: PAGE_SIZE_def)
  have pages: "spec_full_pages 0 0x0100 (unat (32 :: 16 word) div 16) =
      [(0, 0x0100, 16), (16, 0x0110, 16)]"
  proof -
    have "unat (32 :: 16 word) div 16 = Suc (Suc 0)" by simp
    moreover have "spec_full_pages 0 0x0100 (Suc (Suc 0)) = [(0, 0x0100, 16), (16, 0x0110, 16)]"
      unfolding spec_full_pages_Suc by (simp add: spec_full_pages_def)
    ultimately show ?thesis by (simp only:)
  qed
  have e: "0 + unat (32 :: 16 word) = 32" "0x0100 + 32 = (0x0120 :: 16 word)"
    by simp_all
  have "WriteBlock (scripted (\<lambda>k. False)) (\<lambda>i. 0xAB) 0 0x0100 32 0 =
        (case write_pages (scripted (\<lambda>k. False)) (\<lambda>i. 0xAB)
                (spec_full_pages 0 0x0100 (unat (32 :: 16 word) div 16)) 0 of
           None \<Rightarrow> None
         | Some s1 \<Rightarrow> WritePage (scripted (\<lambda>k. False)) (\<lambda>i. 0xAB) (0 + unat (32 :: 16 word))
             (0x0100 + 32) 0 s1)"
    using C7_zero_length_page_write [of "scripted (\<lambda>k. False)" "\<lambda>i. 0xAB" 0 "0x0100" 0 32,
        THEN conjunct2, THEN conjunct2, THEN conjunct1, THEN mp, OF mult] .
  then have "WriteBlock (scripted (\<lambda>k. False)) (\<lambda>i. 0xAB) 0 0x0100 32 0 =
        (case write_pages (scripted (\<lambda>k. False)) (\<lambda>i. 0xAB)
                [(0, 0x0100, 16), (16, 0x0110, 16)] 0 of
           None \<Rightarrow> None
         | Some s1 \<Rightarrow> WritePage (scripted (\<lambda>k. False)) (\<lambda>i. 0xAB) 32 0x0120 0 s1)"
    unfolding pages e .
  then show ?thesis using first mult by (intro conjI)
qed

section \<open>Addressing depends on the address modulo 2048\<close>

lemma mask_consts:
  "(14 :: 32 word) = mask 4 AND NOT (mask 1)"
  "(0x0700 :: 16 word) = mask 11 AND NOT (mask 8)"
  "(0x00FF :: 16 word) = mask 8"
  by (simp_all add: mask_eq_exp_minus_1)

lemma select_masks:
  "HandleDeviceSelectCode a =
     ucast ((160 :: 32 word) OR (drop_bit 7 (ucast a) AND (mask 4 AND NOT (mask 1))))"
proof -
  have "HandleDeviceSelectCode a = ucast ((160 :: 32 word) OR (drop_bit 7 (ucast a) AND 14))"
    by (simp add: HandleDeviceSelectCode_def DEVICE_ID_def CHIP_ENABLE_ADRESS_MASK_def
    CHIP_ENABLE_ADRESS_SHIFT_def)
  then show ?thesis
    unfolding mask_consts(1) .
qed

lemma select_take_bit: "HandleDeviceSelectCode (take_bit 11 a) = HandleDeviceSelectCode a"
  unfolding select_masks
  by (rule bit_word_eqI) (auto simp add: bit_simps)

lemma byte_take_bit: "(ucast (take_bit 11 a :: 16 word) :: 8 word) = ucast a"
  by (rule bit_word_eqI) (auto simp add: bit_simps)

lemma select_bits_8_10: "HandleDeviceSelectCode (a AND 0x0700) = HandleDeviceSelectCode a"
  unfolding select_masks mask_consts(2)
  by (rule bit_word_eqI) (auto simp add: bit_simps)

lemma byte_bits_0_7: "(ucast ((a :: 16 word) AND 0x00FF) :: 8 word) = ucast a"
  unfolding mask_consts(3)
  by (rule bit_word_eqI) (auto simp add: bit_simps)

lemma mod_2048_take_bit:
  assumes "unat (a :: 16 word) mod 2048 = unat (b :: 16 word) mod 2048"
  shows "take_bit 11 a = take_bit 11 b"
proof -
  have tb: "unat (take_bit 11 w) = unat w mod 2048" for w :: "16 word"
  proof -
    have "unat (take_bit 11 w) = take_bit 11 (unat w)"
      by (rule unsigned_take_bit_eq)
    also have "\<dots> = unat w mod 2 ^ 11"
      by (rule take_bit_eq_mod)
    finally show ?thesis by simp
  qed
  have "unat (take_bit 11 a) = unat (take_bit 11 b)"
    using assms by (simp only: tb)
  then show ?thesis
    by (rule word_unat_eq_iff [THEN iffD2])
qed

lemma addressing_cong:
  assumes "unat (a :: 16 word) mod 2048 = unat (b :: 16 word) mod 2048"
  shows "HandleDeviceSelectCode a = HandleDeviceSelectCode b"
    and "(ucast a :: 8 word) = ucast b"
  using mod_2048_take_bit [OF assms]
    select_take_bit [of a] select_take_bit [of b] byte_take_bit [of a] byte_take_bit [of b]
  by simp_all

lemma mod_2048_shift:
  assumes "unat (a :: 16 word) mod 2048 = unat (b :: 16 word) mod 2048"
  shows "unat (a + x) mod 2048 = unat (b + x) mod 2048"
proof -
  have sum: "unat (w + x) mod 2048 = (unat w + unat x) mod 2048" for w :: "16 word"
  proof -
    have "unat (w + x) = (unat w + unat x) mod 65536"
      by (simp add: unat_word_ariths)
    moreover have "(unat w + unat x) mod 65536 mod 2048 = (unat w + unat x) mod 2048"
      by (rule mod_mod_cancel) simp
    ultimately show ?thesis by simp
  qed
  have "(unat a + unat x) mod 2048 = (unat b + unat x) mod 2048"
    using assms by (rule mod_add_cong) simp
  then show ?thesis
    by (simp only: sum)
qed

lemma attempts_cong:
  assumes "(ucast (a :: 16 word) :: 8 word) = ucast (b :: 16 word)"
  shows "WriteByte_attempt i2c dc a v = WriteByte_attempt i2c dc b v"
    and "WriteHalfWord_attempt i2c dc a w = WriteHalfWord_attempt i2c dc b w"
    and "WritePage_attempt i2c mem data dc a n = WritePage_attempt i2c mem data dc b n"
    and "ReadByte_attempt i2c dc a = ReadByte_attempt i2c dc b"
    and "ReadHalfWord_attempt i2c dc a = ReadHalfWord_attempt i2c dc b"
    and "ReadBlock_attempt i2c data dc a m = ReadBlock_attempt i2c data dc b m"
    and "ErasePage_attempt i2c dc a = ErasePage_attempt i2c dc b"
  using assms
  by (simp_all add: fun_eq_iff WriteByte_attempt_def WriteHalfWord_attempt_def
      WritePage_attempt_def ReadByte_attempt_def ReadHalfWord_attempt_def ReadBlock_attempt_def
      ErasePage_attempt_def)

lemma operations_cong:
  assumes "unat (a :: 16 word) mod 2048 = unat (b :: 16 word) mod 2048"
  shows "WriteByte i2c a v s = WriteByte i2c b v s"
    and "WriteHalfWord i2c a w s = WriteHalfWord i2c b w s"
    and "WritePage i2c mem data a n s = WritePage i2c mem data b n s"
    and "ReadByte i2c a s = ReadByte i2c b s"
    and "ReadHalfWord i2c a s = ReadHalfWord i2c b s"
    and "ReadBlock i2c mem data a m s = ReadBlock i2c mem data b m s"
    and "ErasePage i2c a s = ErasePage i2c b s"
  by (simp_all add: WriteByte_def WriteHalfWord_def WritePage_def ReadByte_def
      ReadHalfWord_def ReadBlock_def ErasePage_def
      addressing_cong(1) [OF assms] attempts_cong [OF addressing_cong(2) [OF assms]])

lemma write_pages_cong:
  assumes "list_all2 (\<lambda>p q. fst p = fst q \<and> snd (snd p) = snd (snd q)
                         \<and> unat (fst (snd p)) mod 2048 = unat (fst (snd q)) mod 2048) ps qs"
  shows "write_pages i2c mem ps s = write_pages i2c mem qs s"
  using assms
proof (induction ps qs arbitrary: s rule: list_all2_induct)
  case Nil
  show ?case by simp
next
  case (Cons p ps q qs)
  have "WritePage i2c mem (fst p) (fst (snd p)) (snd (snd p)) s =
        WritePage i2c mem (fst q) (fst (snd q)) (snd (snd q)) s"
    using Cons.hyps(1) operations_cong(3) [of "fst (snd p)" "fst (snd q)" i2c mem "fst q" "snd (snd q)" s]
    by simp
  then show ?case
    by (simp add: Cons.IH cong: option.case_cong)
qed

lemma WriteBlock_cong:
  assumes "unat (a :: 16 word) mod 2048 = unat (b :: 16 word) mod 2048"
  shows "WriteBlock i2c mem data a n s = WriteBlock i2c mem data b n s"
proof -
  have "list_all2 (\<lambda>p q. fst p = fst q \<and> snd (snd p) = snd (snd q)
                         \<and> unat (fst (snd p)) mod 2048 = unat (fst (snd q)) mod 2048)
          (spec_page_writes data a n) (spec_page_writes data b n)"
    unfolding spec_page_writes_def spec_full_pages_def
    by (intro list_all2_appendI)
       (simp_all add: list_all2_map1 list_all2_map2 list_all2_same mod_2048_shift [OF assms]
        del: of_nat_mult)
  then show ?thesis
    unfolding WriteBlock_pages by (rule write_pages_cong)
qed

text \<open>
  Claim C9: the select code depends only on address bits 8 to 10 and the address byte
  only on bits 0 to 7, so two addresses that agree modulo 2048 give the same select code
  and the same address byte, and every operation that takes an address behaves the same
  for both on every transport. Addresses at or above the memory size are not treated
  differently.
\<close>

theorem C9_addressing_mod_2048:
  assumes "unat a mod 2048 = unat b mod 2048"
  shows "HandleDeviceSelectCode a = HandleDeviceSelectCode b
   \<and> (ucast a :: 8 word) = ucast b
   \<and> HandleDeviceSelectCode (a AND 0x0700) = HandleDeviceSelectCode a
   \<and> (ucast (a AND 0x00FF) :: 8 word) = ucast a
   \<and> WriteByte i2c a v s = WriteByte i2c b v s
   \<and> WriteHalfWord i2c a w s = WriteHalfWord i2c b w s
   \<and> WriteBlock i2c mem data a n s = WriteBlock i2c mem data b n s
   \<and> ReadByte i2c a s = ReadByte i2c b s
   \<and> ReadHalfWord i2c a s = ReadHalfWord i2c b s
   \<and> ReadBlock i2c mem data a n s = ReadBlock i2c mem data b n s
   \<and> ErasePage i2c a s = ErasePage i2c b s"
proof -
  show ?thesis
    using addressing_cong [OF assms] operations_cong [OF assms] WriteBlock_cong [OF assms]
      select_bits_8_10 [of a] byte_bits_0_7 [of a]
    by (intro conjI)
qed

theorem C9_addressing_mod_2048_witness:
  "unat (0x0923 :: 16 word) mod 2048 = unat (0x0123 :: 16 word) mod 2048
   \<and> HandleDeviceSelectCode 0x0923 = 0xA2 \<and> HandleDeviceSelectCode 0x0123 = 0xA2
   \<and> (ucast (0x0923 :: 16 word) :: 8 word) = 0x23
   \<and> WriteByte (scripted (\<lambda>k. False)) 0x0923 0x42 0 = Some 2
   \<and> WriteByte (scripted (\<lambda>k. False)) 0x0123 0x42 0 = Some 2"
proof -
  have m: "unat (0x0923 :: 16 word) mod 2048 = unat (0x0123 :: 16 word) mod 2048"
    by simp
  note C = C9_addressing_mod_2048 [OF m, of "scripted (\<lambda>k. False)" "0x42" 0]
  have sel: "HandleDeviceSelectCode 0x0123 = 0xA2"
    by (simp add: HandleDeviceSelectCode_def DEVICE_ID_def CHIP_ENABLE_ADRESS_MASK_def
        CHIP_ENABLE_ADRESS_SHIFT_def)
  have run: "WriteByte (scripted (\<lambda>k. False)) 0x0123 0x42 0 = Some 2"
    by (simp add: WriteByte_def do_while_step)
  have "(ucast (0x0123 :: 16 word) :: 8 word) = 0x23"
    by simp
  then show ?thesis
    using m sel run C [THEN conjunct1] C [THEN conjunct2, THEN conjunct1]
      C [THEN conjunct2, THEN conjunct2, THEN conjunct2, THEN conjunct2, THEN conjunct1]
    by simp
qed

section \<open>The extended-addressing flag\<close>

lemma run_events_starts:
  "StartPolling_ev d m p \<in> set (run_events pre e frame) \<longleftrightarrow> StartPolling_ev d m p \<in> set frame"
  using run_events_members [of "StartPolling_ev d m p" pre e frame]
    frame_in_run_events [of frame pre e]
  by auto

lemma frame_flags:
  "StartPolling_ev d m p \<in> set (WriteByte_frame a v) \<Longrightarrow> \<not> p"
  "StartPolling_ev d m p \<in> set (WriteHalfWord_frame a w) \<Longrightarrow> \<not> p"
  "StartPolling_ev d m p \<in> set (WritePage_frame mem pg) \<Longrightarrow> \<not> p"
  "StartPolling_ev d m p \<in> set (ReadByte_frame a) \<Longrightarrow> \<not> p"
  "StartPolling_ev d m p \<in> set (ReadBlock_frame data a n) \<Longrightarrow> \<not> p"
  "StartPolling_ev d m p \<in> set (ErasePage_frame a) \<Longrightarrow> \<not> p"
  "StartPolling_ev d m p \<in> set (ReadHalfWord_frame a) \<Longrightarrow> p \<longleftrightarrow> m = TX"
  by (auto simp add: WriteByte_frame_def WriteHalfWord_frame_def WritePage_frame_def
      ReadByte_frame_def ReadBlock_frame_def ErasePage_frame_def ReadHalfWord_frame_def
      split: prod.splits)

lemma page_runs_starts:
  assumes "StartPolling_ev d m p \<in> set (concat (map (\<lambda>(x, pre, e). run_events pre e (f x)) xs))"
  shows "\<exists>x. StartPolling_ev d m p \<in> set (f x)"
  using assms by (auto simp add: run_events_starts)

lemma WriteByte_clean:
  assumes "\<And>s. \<not> fst (i2c_IsStateError t s)"
  shows "\<exists>s'. WriteByte (logged t) a v (s, l) =
           Some (s', l @ run_events [] False (WriteByte_frame a v))"
  using logged_run_clean [of t "WriteByte_attempt (logged t) (HandleDeviceSelectCode a) a v"
      "WriteByte_frame a v" s l, OF assms]
  by (auto simp add: WriteByte_def Let_def WriteByte_attempt_logged)

lemma attempt_starts:
  "StartPolling_ev d m p \<in> set (snd (snd (WriteByte_attempt (logged t) dc a v (s, [])))) \<Longrightarrow> \<not> p"
  "StartPolling_ev d m p \<in> set (snd (snd (WriteHalfWord_attempt (logged t) dc a w (s, []))))
     \<Longrightarrow> \<not> p"
  "StartPolling_ev d m p \<in> set (snd (snd (WritePage_attempt (logged t) mem data dc a n (s, []))))
     \<Longrightarrow> \<not> p"
  "StartPolling_ev d m p \<in> set (snd (snd (ReadByte_attempt (logged t) dc a (s, [])))) \<Longrightarrow> \<not> p"
  "StartPolling_ev d m p \<in> set (snd (snd (snd (ReadBlock_attempt (logged t) data dc a k (mem, s, []))))) 
     \<Longrightarrow> \<not> p"
  "StartPolling_ev d m p \<in> set (snd (snd (ErasePage_attempt (logged t) dc a (s, [])))) \<Longrightarrow> \<not> p"
  "StartPolling_ev d m p \<in> set (snd (snd (ReadHalfWord_attempt (logged t) dc a (s, []))))
     \<Longrightarrow> p \<longleftrightarrow> m = TX"
  by (auto simp add: WriteByte_attempt_def WriteHalfWord_attempt_def WritePage_attempt_def
      ReadByte_attempt_def ReadBlock_attempt_def ErasePage_attempt_def ReadHalfWord_attempt_def
      Let_def init_if_error_logged write_bytes_logged erase_bytes_logged split: if_splits)

text \<open>
  Claim C10: in every run that returns, every \<open>StartPolling\<close> call of \<open>WriteByte\<close>,
  \<open>WriteHalfWord\<close>, \<open>WriteBlock\<close>, \<open>ReadByte\<close>, \<open>ReadBlock\<close>, \<open>ErasePage\<close> and
  \<open>ChipErase\<close> passes \<open>set_pos_bit = false\<close>; \<open>ReadHalfWord\<close> passes \<open>true\<close> on its
  transmit-phase call, which it does make, and \<open>false\<close> on its receive-phase call. The
  same holds for the calls of any single attempt, whether or not the run returns.
\<close>

theorem C10_set_pos_bit:
  "(\<forall>s' l d m p. WriteByte (logged t) a v (s, []) = Some (s', l) \<longrightarrow>
       StartPolling_ev d m p \<in> set l \<longrightarrow> \<not> p)
   \<and> (\<forall>s' l d m p. WriteHalfWord (logged t) a w (s, []) = Some (s', l) \<longrightarrow>
       StartPolling_ev d m p \<in> set l \<longrightarrow> \<not> p)
   \<and> (\<forall>s' l d m p. WriteBlock (logged t) mem data a n (s, []) = Some (s', l) \<longrightarrow>
       StartPolling_ev d m p \<in> set l \<longrightarrow> \<not> p)
   \<and> (\<forall>r s' l d m p. ReadByte (logged t) a (s, []) = Some (r, s', l) \<longrightarrow>
       StartPolling_ev d m p \<in> set l \<longrightarrow> \<not> p)
   \<and> (\<forall>mem' s' l d m p. ReadBlock (logged t) mem data a n (s, []) = Some (mem', s', l) \<longrightarrow>
       StartPolling_ev d m p \<in> set l \<longrightarrow> \<not> p)
   \<and> (\<forall>s' l d m p. ErasePage (logged t) a (s, []) = Some (s', l) \<longrightarrow>
       StartPolling_ev d m p \<in> set l \<longrightarrow> \<not> p)
   \<and> (\<forall>s' l d m p. ChipErase (logged t) (s, []) = Some (s', l) \<longrightarrow>
       StartPolling_ev d m p \<in> set l \<longrightarrow> \<not> p)
   \<and> (\<forall>r s' l d m p. ReadHalfWord (logged t) a (s, []) = Some (r, s', l) \<longrightarrow>
       StartPolling_ev d m p \<in> set l \<longrightarrow> (p \<longleftrightarrow> m = TX))
   \<and> (\<forall>r s' l. ReadHalfWord (logged t) a (s, []) = Some (r, s', l) \<longrightarrow>
       StartPolling_ev (HandleDeviceSelectCode a) TX True \<in> set l
       \<and> StartPolling_ev (HandleDeviceSelectCode a) RX False \<in> set l)
   \<and> (\<forall>d m p.
        (StartPolling_ev d m p \<in> set (snd (snd (WriteByte_attempt (logged t) dc a v (s, []))))
           \<longrightarrow> \<not> p)
      \<and> (StartPolling_ev d m p \<in> set (snd (snd (WriteHalfWord_attempt (logged t) dc a w (s, []))))
           \<longrightarrow> \<not> p)
      \<and> (StartPolling_ev d m p
            \<in> set (snd (snd (WritePage_attempt (logged t) mem data dc a k (s, []))))
           \<longrightarrow> \<not> p)
      \<and> (StartPolling_ev d m p \<in> set (snd (snd (ReadByte_attempt (logged t) dc a (s, []))))
           \<longrightarrow> \<not> p)
      \<and> (StartPolling_ev d m p
            \<in> set (snd (snd (snd (ReadBlock_attempt (logged t) data dc a n (mem, s, [])))))
           \<longrightarrow> \<not> p)
      \<and> (StartPolling_ev d m p \<in> set (snd (snd (ErasePage_attempt (logged t) dc a (s, []))))
           \<longrightarrow> \<not> p)
      \<and> (StartPolling_ev d m p \<in> set (snd (snd (ReadHalfWord_attempt (logged t) dc a (s, []))))
           \<longrightarrow> (p \<longleftrightarrow> m = TX)))"
proof (intro conjI allI impI)
  fix s' l d m p
  assume "WriteByte (logged t) a v (s, []) = Some (s', l)" "StartPolling_ev d m p \<in> set l"
  then show "\<not> p"
    using WriteByte_log [of t a v s "[]" s' l] frame_flags(1) [of d m p a v]
    by (auto simp add: run_events_starts)
next
  fix s' l d m p
  assume "WriteHalfWord (logged t) a w (s, []) = Some (s', l)" "StartPolling_ev d m p \<in> set l"
  then show "\<not> p"
    using WriteHalfWord_log [of t a w s "[]" s' l] frame_flags(2) [of d m p a w]
    by (auto simp add: run_events_starts)
next
  fix s' l d m p
  assume run: "WriteBlock (logged t) mem data a n (s, []) = Some (s', l)"
    and ev: "StartPolling_ev d m p \<in> set l"
  obtain rs where "l = concat (map (\<lambda>(p, pre, e). run_events pre e (WritePage_frame mem p))
                                 (zip (spec_page_writes data a n) rs))"
    using WriteBlock_log [OF run] by auto
  then obtain pg where "StartPolling_ev d m p \<in> set (WritePage_frame mem pg)"
    using ev page_runs_starts [of d m p "WritePage_frame mem" "zip (spec_page_writes data a n) rs"]
    by blast
  then show "\<not> p"
    by (rule frame_flags(3))
next
  fix r s' l d m p
  assume "ReadByte (logged t) a (s, []) = Some (r, s', l)" "StartPolling_ev d m p \<in> set l"
  then show "\<not> p"
    using ReadByte_log [of t a s "[]" r s' l] frame_flags(4) [of d m p a]
    by (auto simp add: run_events_starts)
next
  fix mem' s' l d m p
  assume "ReadBlock (logged t) mem data a n (s, []) = Some (mem', s', l)"
    "StartPolling_ev d m p \<in> set l"
  then show "\<not> p"
    using ReadBlock_log [of t mem data a n s "[]" mem' s' l] frame_flags(5) [of d m p data a n]
    by (auto simp add: run_events_starts)
next
  fix s' l d m p
  assume "ErasePage (logged t) a (s, []) = Some (s', l)" "StartPolling_ev d m p \<in> set l"
  then show "\<not> p"
    using ErasePage_log [of t a s "[]" s' l] frame_flags(6) [of d m p a]
    by (auto simp add: run_events_starts)
next
  fix s' l d m p
  assume run: "ChipErase (logged t) (s, []) = Some (s', l)"
    and ev: "StartPolling_ev d m p \<in> set l"
  obtain rs where "l = concat (map (\<lambda>(x, pre, e). run_events pre e (ErasePage_frame x))
                                 (zip spec_erase_offsets rs))"
    using ChipErase_log [OF run] by auto
  then obtain x where "StartPolling_ev d m p \<in> set (ErasePage_frame x)"
    using ev page_runs_starts [of d m p ErasePage_frame "zip spec_erase_offsets rs"]
    by blast
  then show "\<not> p"
    by (rule frame_flags(6))
next
  fix r s' l d m p
  assume "ReadHalfWord (logged t) a (s, []) = Some (r, s', l)" "StartPolling_ev d m p \<in> set l"
  then show "p \<longleftrightarrow> m = TX"
    using ReadHalfWord_log [of t a s "[]" r s' l] frame_flags(7) [of d m p a]
    by (auto simp add: run_events_starts)
next
  fix r s' l
  assume "ReadHalfWord (logged t) a (s, []) = Some (r, s', l)"
  then obtain pre e where l: "l = run_events pre e (ReadHalfWord_frame a)"
    using ReadHalfWord_log [of t a s "[]" r s' l] by auto
  show "StartPolling_ev (HandleDeviceSelectCode a) TX True \<in> set l"
    unfolding l run_events_starts by (simp add: ReadHalfWord_frame_def)
  show "StartPolling_ev (HandleDeviceSelectCode a) RX False \<in> set l"
    unfolding l run_events_starts by (simp add: ReadHalfWord_frame_def)
qed (rule attempt_starts, assumption)+

theorem C10_set_pos_bit_witness:
  "(\<exists>s' l. WriteHalfWord (logged (scripted (\<lambda>k. False))) 0x0123 0xBEEF (0, []) = Some (s', l)
        \<and> StartPolling_ev 0xA2 TX False \<in> set l
        \<and> StartPolling_ev 0xA2 TX True \<notin> set l)
   \<and> (\<exists>r s' l. ReadHalfWord (logged (scripted (\<lambda>k. False))) 0x0123 (0, []) = Some (r, s', l)
        \<and> StartPolling_ev 0xA2 TX True \<in> set l
        \<and> StartPolling_ev 0xA2 RX False \<in> set l
        \<and> StartPolling_ev 0xA2 TX False \<notin> set l
        \<and> StartPolling_ev 0xA2 RX True \<notin> set l)
   \<and> StartPolling_ev 0xA2 RX True
        \<notin> set (snd (snd (ReadHalfWord_attempt (logged (scripted (\<lambda>k. False))) 0xA2 0x0123 (0, []))))"
proof -
  note C = C10_set_pos_bit [of "scripted (\<lambda>k. False)" "0x0123" _ 0 "0xBEEF" _ _ _ "0xA2"]
  have sel: "HandleDeviceSelectCode 0x0123 = 0xA2"
    by (simp add: HandleDeviceSelectCode_def DEVICE_ID_def CHIP_ENABLE_ADRESS_MASK_def
        CHIP_ENABLE_ADRESS_SHIFT_def)
  have clean: "\<And>s. \<not> fst (i2c_IsStateError (scripted (\<lambda>k. False)) s)"
    by simp
  obtain s1 where w: "WriteHalfWord (logged (scripted (\<lambda>k. False))) 0x0123 0xBEEF (0, []) =
      Some (s1, run_events [] False (WriteHalfWord_frame 0x0123 0xBEEF))"
    using WriteHalfWord_clean [OF clean, of "0x0123" "0xBEEF" 0 "[]"] by auto
  have w_in: "StartPolling_ev 0xA2 TX False \<in> set (run_events [] False (WriteHalfWord_frame 0x0123 0xBEEF))"
    unfolding run_events_starts by (simp add: WriteHalfWord_frame_def sel)
  have w_out: "StartPolling_ev 0xA2 TX True \<notin> set (run_events [] False (WriteHalfWord_frame 0x0123 0xBEEF))"
    using C [THEN conjunct2, THEN conjunct1, rule_format, OF w, of "0xA2" TX True] by blast
  obtain r s2 l where h: "ReadHalfWord (logged (scripted (\<lambda>k. False))) 0x0123 (0, []) = Some (r, s2, l)"
    using ReadHalfWord_clean [OF clean, of "0x0123" 0 "[]"] by auto
  note c8 = C [THEN conjunct2, THEN conjunct2, THEN conjunct2, THEN conjunct2, THEN conjunct2,
      THEN conjunct2, THEN conjunct2, THEN conjunct1, rule_format, OF h]
  note c9 = C [THEN conjunct2, THEN conjunct2, THEN conjunct2, THEN conjunct2, THEN conjunct2,
      THEN conjunct2, THEN conjunct2, THEN conjunct2, THEN conjunct1, rule_format, OF h]
  note c10 = C [THEN conjunct2, THEN conjunct2, THEN conjunct2, THEN conjunct2, THEN conjunct2,
      THEN conjunct2, THEN conjunct2, THEN conjunct2, THEN conjunct2, rule_format]
  have h_in: "StartPolling_ev 0xA2 TX True \<in> set l" "StartPolling_ev 0xA2 RX False \<in> set l"
    using c9 unfolding sel by simp_all
  have h_out: "StartPolling_ev 0xA2 TX False \<notin> set l" "StartPolling_ev 0xA2 RX True \<notin> set l"
    using c8 [of "0xA2" TX False] c8 [of "0xA2" RX True] by auto
  have a_out: "StartPolling_ev 0xA2 RX True
        \<notin> set (snd (snd (ReadHalfWord_attempt (logged (scripted (\<lambda>k. False))) 0xA2 0x0123 (0, []))))"
    using c10 [of "0xA2" RX True] by blast
  show ?thesis
    using w w_in w_out h h_in h_out a_out by blast
qed

section \<open>Stepping through runs on a scripted transport\<close>

lemma WritePage_scripted_step:
  "WritePage (logged (scripted errs)) mem data a n (k, l) =
     (if errs (Suc k)
      then WritePage (logged (scripted errs)) mem data a n
             (Suc (Suc k), l @ attempt_events (errs k) (WritePage_frame mem (data, a, n)) True)
      else Some (Suc (Suc k),
                 l @ attempt_events (errs k) (WritePage_frame mem (data, a, n)) False))"
proof -
  let ?body = "WritePage_attempt (logged (scripted errs)) mem data (HandleDeviceSelectCode a) a n"
  have body: "?body (k, l) =
      ((), Suc k, l @ check_evs (scripted errs) k @ WritePage_frame mem (data, a, n))"
    by (simp add: WritePage_attempt_logged)
  have "do_while ?body (i2c_IsStateError (logged (scripted errs))) (k, l) =
     (if errs (Suc k)
      then do_while ?body (i2c_IsStateError (logged (scripted errs)))
             (Suc (Suc k), l @ attempt_events (errs k) (WritePage_frame mem (data, a, n)) True)
      else Some ((), Suc (Suc k),
                 l @ attempt_events (errs k) (WritePage_frame mem (data, a, n)) False))"
    by (subst do_while_step) (simp add: body check_evs_def attempt_events_def)
  then show ?thesis
    by (simp add: WritePage_def Let_def)
qed

lemma pages16: "spec_page_writes 0 0 16 = [(0, 0, 16), (16, 16, 0)]"
proof -
  have "unat (16 :: 16 word) div 16 = Suc 0" "unat (16 :: 16 word) mod 16 = 0" by simp_all
  moreover have "spec_full_pages 0 0 (Suc 0) = [(0, 0, 16)]"
    unfolding spec_full_pages_Suc by (simp add: spec_full_pages_def)
  ultimately show ?thesis
    unfolding spec_page_writes_def by simp
qed

lemma sel0: "HandleDeviceSelectCode 0 = 0xA0" "HandleDeviceSelectCode 16 = 0xA0"
  by (simp_all add: HandleDeviceSelectCode_def DEVICE_ID_def CHIP_ENABLE_ADRESS_MASK_def
        CHIP_ENABLE_ADRESS_SHIFT_def)

lemma WriteBlock_retry_run:
  "WriteBlock (logged (scripted (\<lambda>k. k = 3 \<or> k = 4))) (\<lambda>i. 0xAB) 0 0 16 (0, []) =
     Some (6,
       [IsStateError_ev False, StartPolling_ev 0xA0 TX False, WriteByte_ev 0]
       @ replicate 16 (WriteByte_ev 0xAB)
       @ [Stop_ev, IsStateError_ev False,
          IsStateError_ev False, StartPolling_ev 0xA0 TX False, WriteByte_ev 16, Stop_ev,
          IsStateError_ev True,
          IsStateError_ev True, Init_ev, StartPolling_ev 0xA0 TX False, WriteByte_ev 16, Stop_ev,
          IsStateError_ev False])"
proof -
  let ?t = "logged (scripted (\<lambda>k. k = 3 \<or> k = 4))"
  let ?f0 = "WritePage_frame (\<lambda>i. 0xAB) (0, 0, 16)"
  let ?f1 = "WritePage_frame (\<lambda>i. 0xAB) (16, 16, 0)"
  have p0: "WritePage ?t (\<lambda>i. 0xAB) 0 0 16 (0, []) = Some (2, attempt_events False ?f0 False)"
    by (subst WritePage_scripted_step) simp
  have p1: "WritePage ?t (\<lambda>i. 0xAB) 16 16 0 (2, attempt_events False ?f0 False) =
      WritePage ?t (\<lambda>i. 0xAB) 16 16 0 (4, attempt_events False ?f0 False @ attempt_events False ?f1 True)"
    by (subst WritePage_scripted_step) (simp add: numeral_2_eq_2 numeral_3_eq_3 eval_nat_numeral)
  have p2: "WritePage ?t (\<lambda>i. 0xAB) 16 16 0
        (4, attempt_events False ?f0 False @ attempt_events False ?f1 True) =
      Some (6, attempt_events False ?f0 False @ attempt_events False ?f1 True
               @ attempt_events True ?f1 False)"
    by (subst WritePage_scripted_step) (simp add: eval_nat_numeral)
  have "WriteBlock ?t (\<lambda>i. 0xAB) 0 0 16 (0, []) =
      Some (6, attempt_events False ?f0 False @ attempt_events False ?f1 True
               @ attempt_events True ?f1 False)"
    unfolding WriteBlock_pages pages16 by (simp add: p0 p1 p2)
  then show ?thesis
    by (simp add: attempt_events_def WritePage_frame_def sel0 map_replicate_const)
qed

section \<open>Retries without bound\<close>

lemma WriteHalfWord_retries:
  "\<exists>s' pre e. length pre = n \<and>
      WriteHalfWord (logged (scripted (\<lambda>k. k < 2 * n))) a w (0, []) =
        Some (s', run_events pre e (WriteHalfWord_frame a w))"
  using logged_scripted_retries [of "WriteHalfWord_attempt (logged (scripted (\<lambda>k. k < 2 * n)))
      (HandleDeviceSelectCode a) a w" n "WriteHalfWord_frame a w"]
  by (auto simp add: WriteHalfWord_def Let_def WriteHalfWord_attempt_logged)

lemma WritePage_retries:
  "\<exists>s' pre e. length pre = n \<and>
      WritePage (logged (scripted (\<lambda>k. k < 2 * n))) mem data a m (0, []) =
        Some (s', run_events pre e (WritePage_frame mem (data, a, m)))"
  using logged_scripted_retries [of "WritePage_attempt (logged (scripted (\<lambda>k. k < 2 * n)))
      mem data (HandleDeviceSelectCode a) a m" n "WritePage_frame mem (data, a, m)"]
  by (auto simp add: WritePage_def Let_def WritePage_attempt_logged)

lemma ReadByte_retries:
  "\<exists>v s' pre e. length pre = n \<and>
      ReadByte (logged (scripted (\<lambda>k. k < 2 * n))) a (0, []) =
        Some (v, s', run_events pre e (ReadByte_frame a))"
  using logged_scripted_retries [of "ReadByte_attempt (logged (scripted (\<lambda>k. k < 2 * n)))
      (HandleDeviceSelectCode a) a" n "ReadByte_frame a"]
  by (auto simp add: ReadByte_def Let_def ReadByte_attempt_logged)

lemma ReadHalfWord_retries:
  "\<exists>v s' pre e. length pre = n \<and>
      ReadHalfWord (logged (scripted (\<lambda>k. k < 2 * n))) a (0, []) =
        Some (v, s', run_events pre e (ReadHalfWord_frame a))"
  using logged_scripted_retries [of "ReadHalfWord_attempt (logged (scripted (\<lambda>k. k < 2 * n)))
      (HandleDeviceSelectCode a) a" n "ReadHalfWord_frame a"]
  by (auto simp add: ReadHalfWord_def Let_def ReadHalfWord_attempt_logged)

lemma ErasePage_retries:
  "\<exists>s' pre e. length pre = n \<and>
      ErasePage (logged (scripted (\<lambda>k. k < 2 * n))) a (0, []) =
        Some (s', run_events pre e (ErasePage_frame a))"
  using logged_scripted_retries [of "ErasePage_attempt (logged (scripted (\<lambda>k. k < 2 * n)))
      (HandleDeviceSelectCode a) a" n "ErasePage_frame a"]
  by (auto simp add: ErasePage_def Let_def ErasePage_attempt_logged)

lemma ReadBlock_retries:
  "\<exists>mem' s' pre e. length pre = n \<and>
      ReadBlock (logged (scripted (\<lambda>k. k < 2 * n))) mem data a m (0, []) =
        Some (mem', s', run_events pre e (ReadBlock_frame data a m))"
proof -
  let ?t = "scripted (\<lambda>k. k < 2 * n)"
  let ?body = "ReadBlock_attempt (logged ?t) data (HandleDeviceSelectCode a) a m"
  have "\<exists>r pre e. length pre = n \<and>
           do_while ?body (ReadBlock_check (logged ?t)) (mem, 0, []) = Some r
            \<and> snd (snd (snd r)) = snd (snd (mem, 0 :: nat, [] :: event list))
                @ run_events pre e (ReadBlock_frame data a m)"
  proof (rule scripted_retries [where cnt = "\<lambda>\<sigma>. fst (snd \<sigma>)" and lg = "\<lambda>\<sigma>. snd (snd \<sigma>)"])
    fix \<sigma> :: "memory \<times> nat \<times> event list"
    show "\<exists>e. snd (snd (snd (?body \<sigma>))) =
            snd (snd \<sigma>) @ IsStateError_ev e # (if e then [Init_ev] else []) @ ReadBlock_frame data a m"
      by (intro exI [of _ "fst (snd \<sigma>) < 2 * n"])
         (simp add: ReadBlock_attempt_logged check_evs_def)
    show "fst (snd (snd (?body \<sigma>))) = Suc (fst (snd \<sigma>))"
      by (simp add: ReadBlock_attempt_logged)
  qed (simp_all add: ReadBlock_check_logged)
  then obtain r pre e where "length pre = n"
    "do_while ?body (ReadBlock_check (logged ?t)) (mem, 0, []) = Some r"
    "snd (snd (snd r)) = run_events pre e (ReadBlock_frame data a m)"
    by auto
  then have "length pre = n \<and> ReadBlock (logged ?t) mem data a m (0, []) =
      Some (fst (snd r), fst (snd (snd r)), run_events pre e (ReadBlock_frame data a m))"
    by (simp add: ReadBlock_def Let_def prod_eq_iff)
  then show ?thesis by blast
qed

section \<open>The retry discipline\<close>

lemma run_events_unfold:
  "run_events [] e frame =
     IsStateError_ev e # (if e then [Init_ev] else []) @ frame @ [IsStateError_ev False]"
  "run_events (p # pre) e frame =
     IsStateError_ev p # (if p then [Init_ev] else []) @ frame @ [IsStateError_ev True]
     @ run_events pre e frame"
  by (simp_all add: run_events_def attempt_events_def)

lemma retry_unfold:
  "WriteByte t a v s =
     (let s1 = snd (WriteByte_attempt t (HandleDeviceSelectCode a) a v s);
          c = i2c_IsStateError t s1
      in if fst c then WriteByte t a v (snd c) else Some (snd c))"
  "WriteHalfWord t a w s =
     (let s1 = snd (WriteHalfWord_attempt t (HandleDeviceSelectCode a) a w s);
          c = i2c_IsStateError t s1
      in if fst c then WriteHalfWord t a w (snd c) else Some (snd c))"
  "WritePage t mem data a sz s =
     (let s1 = snd (WritePage_attempt t mem data (HandleDeviceSelectCode a) a sz s);
          c = i2c_IsStateError t s1
      in if fst c then WritePage t mem data a sz (snd c) else Some (snd c))"
  "ReadByte t a s =
     (let r = ReadByte_attempt t (HandleDeviceSelectCode a) a s;
          c = i2c_IsStateError t (snd r)
      in if fst c then ReadByte t a (snd c) else Some (fst r, snd c))"
  "ReadHalfWord t a s =
     (let r = ReadHalfWord_attempt t (HandleDeviceSelectCode a) a s;
          c = i2c_IsStateError t (snd r)
      in if fst c then ReadHalfWord t a (snd c) else Some (fst r, snd c))"
  "ReadBlock t mem data a m s =
     (let r = snd (ReadBlock_attempt t data (HandleDeviceSelectCode a) a m (mem, s));
          c = i2c_IsStateError t (snd r)
      in if fst c then ReadBlock t (fst r) data a m (snd c) else Some (fst r, snd c))"
  "ErasePage t a s =
     (let s1 = snd (ErasePage_attempt t (HandleDeviceSelectCode a) a s);
          c = i2c_IsStateError t s1
      in if fst c then ErasePage t a (snd c) else Some (snd c))"
  unfolding WriteByte_def WriteHalfWord_def WritePage_def ReadByte_def ReadHalfWord_def
    ReadBlock_def ErasePage_def Let_def
  by (subst do_while_step, simp add: ReadBlock_check_def split: prod.splits)+

lemma attempt_shapes:
  "snd (snd (WriteByte_attempt (logged t) (HandleDeviceSelectCode a) a v (s, []))) =
        IsStateError_ev (fst (i2c_IsStateError t s))
          # (if fst (i2c_IsStateError t s) then [Init_ev] else []) @ WriteByte_frame a v"
  "snd (snd (WriteHalfWord_attempt (logged t) (HandleDeviceSelectCode a) a w (s, []))) =
        IsStateError_ev (fst (i2c_IsStateError t s))
          # (if fst (i2c_IsStateError t s) then [Init_ev] else []) @ WriteHalfWord_frame a w"
  "snd (snd (WritePage_attempt (logged t) mem data (HandleDeviceSelectCode a) a sz (s, []))) =
        IsStateError_ev (fst (i2c_IsStateError t s))
          # (if fst (i2c_IsStateError t s) then [Init_ev] else []) @ WritePage_frame mem (data, a, sz)"
  "snd (snd (ReadByte_attempt (logged t) (HandleDeviceSelectCode a) a (s, []))) =
        IsStateError_ev (fst (i2c_IsStateError t s))
          # (if fst (i2c_IsStateError t s) then [Init_ev] else []) @ ReadByte_frame a"
  "snd (snd (ReadHalfWord_attempt (logged t) (HandleDeviceSelectCode a) a (s, []))) =
        IsStateError_ev (fst (i2c_IsStateError t s))
          # (if fst (i2c_IsStateError t s) then [Init_ev] else []) @ ReadHalfWord_frame a"
  "snd (snd (snd (ReadBlock_attempt (logged t) data (HandleDeviceSelectCode a) a m (mem, s, [])))) =
        IsStateError_ev (fst (i2c_IsStateError t s))
          # (if fst (i2c_IsStateError t s) then [Init_ev] else []) @ ReadBlock_frame data a m"
  "snd (snd (ErasePage_attempt (logged t) (HandleDeviceSelectCode a) a (s, []))) =
        IsStateError_ev (fst (i2c_IsStateError t s))
          # (if fst (i2c_IsStateError t s) then [Init_ev] else []) @ ErasePage_frame a"
  by (simp_all add: WriteByte_attempt_logged WriteHalfWord_attempt_logged
      WritePage_attempt_logged ReadByte_attempt_logged ReadHalfWord_attempt_logged
      ReadBlock_attempt_logged ErasePage_attempt_logged check_evs_def)

text \<open>
  Claim C3, as the spec states it, has every public operation retry "the entire operation
  from the beginning". \<open>WriteBlock\<close> does not: below, the check after the second page
  write reports an error, and only that page write is repeated; the first page, at
  address 0, is written once.
\<close>

theorem C3_WriteBlock_retry_counterexample:
  "WriteBlock (logged (scripted (\<lambda>k. k = 3 \<or> k = 4))) (\<lambda>i. 0xAB) 0 0 16 (0, []) =
     Some (6,
       [IsStateError_ev False, StartPolling_ev 0xA0 TX False, WriteByte_ev 0]
       @ replicate 16 (WriteByte_ev 0xAB)
       @ [Stop_ev, IsStateError_ev False,
          IsStateError_ev False, StartPolling_ev 0xA0 TX False, WriteByte_ev 16, Stop_ev,
          IsStateError_ev True,
          IsStateError_ev True, Init_ev, StartPolling_ev 0xA0 TX False, WriteByte_ev 16, Stop_ev,
          IsStateError_ev False])"
  by (rule WriteBlock_retry_run)

text \<open>
  Claim C3, amended: the retry discipline holds for each transaction. In every run that
  returns of \<open>WriteByte\<close>, \<open>WriteHalfWord\<close>, \<open>ReadByte\<close>, \<open>ReadHalfWord\<close>, \<open>ReadBlock\<close>,
  \<open>ErasePage\<close> and of the page write inside \<open>WriteBlock\<close>, the calls are a sequence of
  attempts: the check, \<open>Init\<close> exactly if the check reported an error, the transaction
  starting with the select code of the address, and the closing check; an attempt whose
  closing check reported an error is followed by another complete attempt, and the run
  ends with the first attempt whose closing check did not. For every \<open>n\<close> there is a run
  with \<open>n\<close> failed attempts. \<open>WriteBlock\<close> and \<open>ChipErase\<close> run their page operations in
  order, each with its own retries; they do not start over. In any run, returning or not,
  a single attempt makes the calls just described, and an operation whose closing check
  reports an error continues as the same operation started afresh in the state the check
  left.
\<close>

theorem C3_retry_discipline:
  "run_events [] e frame =
     IsStateError_ev e # (if e then [Init_ev] else []) @ frame @ [IsStateError_ev False]
   \<and> run_events (p # ps) e frame =
     IsStateError_ev p # (if p then [Init_ev] else []) @ frame @ [IsStateError_ev True]
     @ run_events ps e frame
   \<and> (\<forall>s' l. WriteByte (logged t) a v (s, []) = Some (s', l) \<longrightarrow>
        (\<exists>pre e. l = run_events pre e (WriteByte_frame a v)))
   \<and> (\<forall>s' l. WriteHalfWord (logged t) a w (s, []) = Some (s', l) \<longrightarrow>
        (\<exists>pre e. l = run_events pre e (WriteHalfWord_frame a w)))
   \<and> (\<forall>s' l. WritePage (logged t) mem data a sz (s, []) = Some (s', l) \<longrightarrow>
        (\<exists>pre e. l = run_events pre e (WritePage_frame mem (data, a, sz))))
   \<and> (\<forall>r s' l. ReadByte (logged t) a (s, []) = Some (r, s', l) \<longrightarrow>
        (\<exists>pre e. l = run_events pre e (ReadByte_frame a)))
   \<and> (\<forall>r s' l. ReadHalfWord (logged t) a (s, []) = Some (r, s', l) \<longrightarrow>
        (\<exists>pre e. l = run_events pre e (ReadHalfWord_frame a)))
   \<and> (\<forall>mem' s' l. ReadBlock (logged t) mem data a m (s, []) = Some (mem', s', l) \<longrightarrow>
        (\<exists>pre e. l = run_events pre e (ReadBlock_frame data a m)))
   \<and> (\<forall>s' l. ErasePage (logged t) a (s, []) = Some (s', l) \<longrightarrow>
        (\<exists>pre e. l = run_events pre e (ErasePage_frame a)))
   \<and> (\<exists>s' pre e. length pre = n \<and>
        WriteByte (logged (scripted (\<lambda>k. k < 2 * n))) a v (0, []) =
          Some (s', run_events pre e (WriteByte_frame a v)))
   \<and> (\<exists>s' pre e. length pre = n \<and>
        WriteHalfWord (logged (scripted (\<lambda>k. k < 2 * n))) a w (0, []) =
          Some (s', run_events pre e (WriteHalfWord_frame a w)))
   \<and> (\<exists>s' pre e. length pre = n \<and>
        WritePage (logged (scripted (\<lambda>k. k < 2 * n))) mem data a sz (0, []) =
          Some (s', run_events pre e (WritePage_frame mem (data, a, sz))))
   \<and> (\<exists>r s' pre e. length pre = n \<and>
        ReadByte (logged (scripted (\<lambda>k. k < 2 * n))) a (0, []) =
          Some (r, s', run_events pre e (ReadByte_frame a)))
   \<and> (\<exists>r s' pre e. length pre = n \<and>
        ReadHalfWord (logged (scripted (\<lambda>k. k < 2 * n))) a (0, []) =
          Some (r, s', run_events pre e (ReadHalfWord_frame a)))
   \<and> (\<exists>mem' s' pre e. length pre = n \<and>
        ReadBlock (logged (scripted (\<lambda>k. k < 2 * n))) mem data a m (0, []) =
          Some (mem', s', run_events pre e (ReadBlock_frame data a m)))
   \<and> (\<exists>s' pre e. length pre = n \<and>
        ErasePage (logged (scripted (\<lambda>k. k < 2 * n))) a (0, []) =
          Some (s', run_events pre e (ErasePage_frame a)))
   \<and> (\<forall>s' l. WriteBlock (logged t) mem data a m (s, []) = Some (s', l) \<longrightarrow>
        (\<exists>rs. length rs = unat m div 16 + 1 \<and>
           l = concat (map (\<lambda>(p, pre, e). run_events pre e (WritePage_frame mem p))
                         (zip (spec_page_writes data a m) rs))))
   \<and> (\<forall>s' l. ChipErase (logged t) (s, []) = Some (s', l) \<longrightarrow>
        (\<exists>rs. length rs = 128 \<and>
           l = concat (map (\<lambda>(x, pre, e). run_events pre e (ErasePage_frame x))
                         (zip spec_erase_offsets rs))))
   \<and> snd (snd (WriteByte_attempt (logged t) (HandleDeviceSelectCode a) a v (s, []))) =
        IsStateError_ev (fst (i2c_IsStateError t s))
          # (if fst (i2c_IsStateError t s) then [Init_ev] else []) @ WriteByte_frame a v
   \<and> snd (snd (WriteHalfWord_attempt (logged t) (HandleDeviceSelectCode a) a w (s, []))) =
        IsStateError_ev (fst (i2c_IsStateError t s))
          # (if fst (i2c_IsStateError t s) then [Init_ev] else []) @ WriteHalfWord_frame a w
   \<and> snd (snd (WritePage_attempt (logged t) mem data (HandleDeviceSelectCode a) a sz (s, []))) =
        IsStateError_ev (fst (i2c_IsStateError t s))
          # (if fst (i2c_IsStateError t s) then [Init_ev] else []) @ WritePage_frame mem (data, a, sz)
   \<and> snd (snd (ReadByte_attempt (logged t) (HandleDeviceSelectCode a) a (s, []))) =
        IsStateError_ev (fst (i2c_IsStateError t s))
          # (if fst (i2c_IsStateError t s) then [Init_ev] else []) @ ReadByte_frame a
   \<and> snd (snd (ReadHalfWord_attempt (logged t) (HandleDeviceSelectCode a) a (s, []))) =
        IsStateError_ev (fst (i2c_IsStateError t s))
          # (if fst (i2c_IsStateError t s) then [Init_ev] else []) @ ReadHalfWord_frame a
   \<and> snd (snd (snd (ReadBlock_attempt (logged t) data (HandleDeviceSelectCode a) a m (mem, s, [])))) =
        IsStateError_ev (fst (i2c_IsStateError t s))
          # (if fst (i2c_IsStateError t s) then [Init_ev] else []) @ ReadBlock_frame data a m
   \<and> snd (snd (ErasePage_attempt (logged t) (HandleDeviceSelectCode a) a (s, []))) =
        IsStateError_ev (fst (i2c_IsStateError t s))
          # (if fst (i2c_IsStateError t s) then [Init_ev] else []) @ ErasePage_frame a
   \<and> WriteByte t a v s =
        (let s1 = snd (WriteByte_attempt t (HandleDeviceSelectCode a) a v s);
             c = i2c_IsStateError t s1
         in if fst c then WriteByte t a v (snd c) else Some (snd c))
   \<and> WriteHalfWord t a w s =
        (let s1 = snd (WriteHalfWord_attempt t (HandleDeviceSelectCode a) a w s);
             c = i2c_IsStateError t s1
         in if fst c then WriteHalfWord t a w (snd c) else Some (snd c))
   \<and> WritePage t mem data a sz s =
        (let s1 = snd (WritePage_attempt t mem data (HandleDeviceSelectCode a) a sz s);
             c = i2c_IsStateError t s1
         in if fst c then WritePage t mem data a sz (snd c) else Some (snd c))
   \<and> ReadByte t a s =
        (let r = ReadByte_attempt t (HandleDeviceSelectCode a) a s;
             c = i2c_IsStateError t (snd r)
         in if fst c then ReadByte t a (snd c) else Some (fst r, snd c))
   \<and> ReadHalfWord t a s =
        (let r = ReadHalfWord_attempt t (HandleDeviceSelectCode a) a s;
             c = i2c_IsStateError t (snd r)
         in if fst c then ReadHalfWord t a (snd c) else Some (fst r, snd c))
   \<and> ReadBlock t mem data a m s =
        (let r = snd (ReadBlock_attempt t data (HandleDeviceSelectCode a) a m (mem, s));
             c = i2c_IsStateError t (snd r)
         in if fst c then ReadBlock t (fst r) data a m (snd c) else Some (fst r, snd c))
   \<and> ErasePage t a s =
        (let s1 = snd (ErasePage_attempt t (HandleDeviceSelectCode a) a s);
             c = i2c_IsStateError t s1
         in if fst c then ErasePage t a (snd c) else Some (snd c))"
proof (intro conjI allI impI attempt_shapes retry_unfold)
  show "run_events [] e frame =
     IsStateError_ev e # (if e then [Init_ev] else []) @ frame @ [IsStateError_ev False]"
    by (rule run_events_unfold)
  show "run_events (p # ps) e frame =
     IsStateError_ev p # (if p then [Init_ev] else []) @ frame @ [IsStateError_ev True]
     @ run_events ps e frame"
    by (rule run_events_unfold)
  show "\<exists>s' pre e. length pre = n \<and>
        WriteByte (logged (scripted (\<lambda>k. k < 2 * n))) a v (0, []) =
          Some (s', run_events pre e (WriteByte_frame a v))"
    by (rule WriteByte_retries)
  show "\<exists>s' pre e. length pre = n \<and>
        WriteHalfWord (logged (scripted (\<lambda>k. k < 2 * n))) a w (0, []) =
          Some (s', run_events pre e (WriteHalfWord_frame a w))"
    by (rule WriteHalfWord_retries)
  show "\<exists>s' pre e. length pre = n \<and>
        WritePage (logged (scripted (\<lambda>k. k < 2 * n))) mem data a sz (0, []) =
          Some (s', run_events pre e (WritePage_frame mem (data, a, sz)))"
    by (rule WritePage_retries)
  show "\<exists>r s' pre e. length pre = n \<and>
        ReadByte (logged (scripted (\<lambda>k. k < 2 * n))) a (0, []) =
          Some (r, s', run_events pre e (ReadByte_frame a))"
    by (rule ReadByte_retries)
  show "\<exists>r s' pre e. length pre = n \<and>
        ReadHalfWord (logged (scripted (\<lambda>k. k < 2 * n))) a (0, []) =
          Some (r, s', run_events pre e (ReadHalfWord_frame a))"
    by (rule ReadHalfWord_retries)
  show "\<exists>mem' s' pre e. length pre = n \<and>
        ReadBlock (logged (scripted (\<lambda>k. k < 2 * n))) mem data a m (0, []) =
          Some (mem', s', run_events pre e (ReadBlock_frame data a m))"
    by (rule ReadBlock_retries)
  show "\<exists>s' pre e. length pre = n \<and>
        ErasePage (logged (scripted (\<lambda>k. k < 2 * n))) a (0, []) =
          Some (s', run_events pre e (ErasePage_frame a))"
    by (rule ErasePage_retries)
next
  fix s' l assume "WriteByte (logged t) a v (s, []) = Some (s', l)"
  then show "\<exists>pre e. l = run_events pre e (WriteByte_frame a v)"
    using WriteByte_log [of t a v s "[]" s' l] by simp
next
  fix s' l assume "WriteHalfWord (logged t) a w (s, []) = Some (s', l)"
  then show "\<exists>pre e. l = run_events pre e (WriteHalfWord_frame a w)"
    using WriteHalfWord_log [of t a w s "[]" s' l] by simp
next
  fix s' l assume "WritePage (logged t) mem data a sz (s, []) = Some (s', l)"
  then show "\<exists>pre e. l = run_events pre e (WritePage_frame mem (data, a, sz))"
    using WritePage_log [of t mem data a sz s "[]" s' l] by simp
next
  fix r s' l assume "ReadByte (logged t) a (s, []) = Some (r, s', l)"
  then show "\<exists>pre e. l = run_events pre e (ReadByte_frame a)"
    using ReadByte_log [of t a s "[]" r s' l] by simp
next
  fix r s' l assume "ReadHalfWord (logged t) a (s, []) = Some (r, s', l)"
  then show "\<exists>pre e. l = run_events pre e (ReadHalfWord_frame a)"
    using ReadHalfWord_log [of t a s "[]" r s' l] by simp
next
  fix mem' s' l assume "ReadBlock (logged t) mem data a m (s, []) = Some (mem', s', l)"
  then show "\<exists>pre e. l = run_events pre e (ReadBlock_frame data a m)"
    using ReadBlock_log [of t mem data a m s "[]" mem' s' l] by simp
next
  fix s' l assume "ErasePage (logged t) a (s, []) = Some (s', l)"
  then show "\<exists>pre e. l = run_events pre e (ErasePage_frame a)"
    using ErasePage_log [of t a s "[]" s' l] by simp
next
  fix s' l assume "WriteBlock (logged t) mem data a m (s, []) = Some (s', l)"
  then show "\<exists>rs. length rs = unat m div 16 + 1 \<and>
           l = concat (map (\<lambda>(p, pre, e). run_events pre e (WritePage_frame mem p))
                         (zip (spec_page_writes data a m) rs))"
    using WriteBlock_log [of t mem data a m s "[]" s' l] by simp
next
  fix s' l assume "ChipErase (logged t) (s, []) = Some (s', l)"
  then show "\<exists>rs. length rs = 128 \<and>
           l = concat (map (\<lambda>(x, pre, e). run_events pre e (ErasePage_frame x))
                         (zip spec_erase_offsets rs))"
    using ChipErase_log [of t s "[]" s' l] by simp
qed

theorem C3_retry_discipline_witness:
  "(\<exists>s' pre e. length pre = 2 \<and>
      WriteByte (logged (scripted (\<lambda>k. k < 2 * 2))) 0x0123 0x42 (0, []) =
        Some (s', run_events pre e (WriteByte_frame 0x0123 0x42)))
   \<and> (\<exists>s' pre e. length pre = 2 \<and>
      WriteHalfWord (logged (scripted (\<lambda>k. k < 2 * 2))) 0x0123 0xBEEF (0, []) =
        Some (s', run_events pre e (WriteHalfWord_frame 0x0123 0xBEEF)))
   \<and> (\<exists>s' pre e. length pre = 2 \<and>
      WritePage (logged (scripted (\<lambda>k. k < 2 * 2))) (\<lambda>i. 0xAB) 0 0x0123 3 (0, []) =
        Some (s', run_events pre e (WritePage_frame (\<lambda>i. 0xAB) (0, 0x0123, 3))))
   \<and> (\<exists>r s' pre e. length pre = 2 \<and>
      ReadByte (logged (scripted (\<lambda>k. k < 2 * 2))) 0x0123 (0, []) =
        Some (r, s', run_events pre e (ReadByte_frame 0x0123)))
   \<and> (\<exists>r s' pre e. length pre = 2 \<and>
      ReadHalfWord (logged (scripted (\<lambda>k. k < 2 * 2))) 0x0123 (0, []) =
        Some (r, s', run_events pre e (ReadHalfWord_frame 0x0123)))
   \<and> (\<exists>mem' s' pre e. length pre = 2 \<and>
      ReadBlock (logged (scripted (\<lambda>k. k < 2 * 2))) (\<lambda>i. 0xAB) 0 0x0123 5 (0, []) =
        Some (mem', s', run_events pre e (ReadBlock_frame 0 0x0123 5)))
   \<and> (\<exists>s' pre e. length pre = 2 \<and>
      ErasePage (logged (scripted (\<lambda>k. k < 2 * 2))) 0x0123 (0, []) =
        Some (s', run_events pre e (ErasePage_frame 0x0123)))
   \<and> (\<exists>s' rs. length rs = 2 \<and>
      WriteBlock (logged (scripted (\<lambda>k. k = 3 \<or> k = 4))) (\<lambda>i. 0xAB) 0 0 16 (0, []) =
        Some (s', concat (map (\<lambda>(p, pre, e). run_events pre e (WritePage_frame (\<lambda>i. 0xAB) p))
                            (zip [(0, 0, 16), (16, 16, 0)] rs))))
   \<and> (\<exists>s' rs. length rs = 128 \<and>
      ChipErase (logged (scripted (\<lambda>k. False))) (0, []) =
        Some (s', concat (map (\<lambda>(x, pre, e). run_events pre e (ErasePage_frame x))
                            (zip spec_erase_offsets rs))))"
proof -
  note C = C3_retry_discipline [where t = "scripted (\<lambda>k. k < 2 * 2)" and n = 2 and s = 0
      and a = "0x0123" and v = "0x42" and w = "0xBEEF" and mem = "\<lambda>i. 0xAB" and data = 0
      and sz = 3 and m = 5, THEN conjunct2, THEN conjunct2]
  note A = C [THEN conjunct1] C [THEN conjunct2, THEN conjunct1]
    C [THEN conjunct2, THEN conjunct2, THEN conjunct1]
    C [THEN conjunct2, THEN conjunct2, THEN conjunct2, THEN conjunct1]
    C [THEN conjunct2, THEN conjunct2, THEN conjunct2, THEN conjunct2, THEN conjunct1]
    C [THEN conjunct2, THEN conjunct2, THEN conjunct2, THEN conjunct2, THEN conjunct2,
       THEN conjunct1]
    C [THEN conjunct2, THEN conjunct2, THEN conjunct2, THEN conjunct2, THEN conjunct2,
       THEN conjunct2, THEN conjunct1]
  note B0 = C [THEN conjunct2, THEN conjunct2, THEN conjunct2, THEN conjunct2, THEN conjunct2,
       THEN conjunct2, THEN conjunct2]
  note B = B0 [THEN conjunct1] B0 [THEN conjunct2, THEN conjunct1]
    B0 [THEN conjunct2, THEN conjunct2, THEN conjunct1]
    B0 [THEN conjunct2, THEN conjunct2, THEN conjunct2, THEN conjunct1]
    B0 [THEN conjunct2, THEN conjunct2, THEN conjunct2, THEN conjunct2, THEN conjunct1]
    B0 [THEN conjunct2, THEN conjunct2, THEN conjunct2, THEN conjunct2, THEN conjunct2,
       THEN conjunct1]
    B0 [THEN conjunct2, THEN conjunct2, THEN conjunct2, THEN conjunct2, THEN conjunct2,
       THEN conjunct2, THEN conjunct1]
  have wb: "\<exists>s' pre e. length pre = 2 \<and>
      WriteByte (logged (scripted (\<lambda>k. k < 2 * 2))) 0x0123 0x42 (0, []) =
        Some (s', run_events pre e (WriteByte_frame 0x0123 0x42))"
  proof -
    obtain s' pre e where r: "length pre = 2"
      "WriteByte (logged (scripted (\<lambda>k. k < 2 * 2))) 0x0123 0x42 (0, []) =
        Some (s', run_events pre e (WriteByte_frame 0x0123 0x42))"
      using B(1) by blast
    from A(1) [rule_format, OF r(2)] r show ?thesis by blast
  qed
  note D = C3_retry_discipline [where t = "scripted (\<lambda>k. k = 3 \<or> k = 4)" and s = 0
      and mem = "\<lambda>i. 0xAB" and data = 0 and a = 0 and m = 16,
      THEN conjunct2, THEN conjunct2, THEN conjunct2, THEN conjunct2, THEN conjunct2,
      THEN conjunct2, THEN conjunct2, THEN conjunct2, THEN conjunct2, THEN conjunct2,
      THEN conjunct2, THEN conjunct2, THEN conjunct2, THEN conjunct2, THEN conjunct2,
      THEN conjunct2, THEN conjunct1, rule_format, OF WriteBlock_retry_run]
  have blk: "\<exists>s' rs. length rs = 2 \<and>
      WriteBlock (logged (scripted (\<lambda>k. k = 3 \<or> k = 4))) (\<lambda>i. 0xAB) 0 0 16 (0, []) =
        Some (s', concat (map (\<lambda>(p, pre, e). run_events pre e (WritePage_frame (\<lambda>i. 0xAB) p))
                            (zip [(0, 0, 16), (16, 16, 0)] rs)))"
  proof -
    obtain rs where "length rs = unat (16 :: 16 word) div 16 + 1"
      "[IsStateError_ev False, StartPolling_ev 0xA0 TX False, WriteByte_ev 0]
       @ replicate 16 (WriteByte_ev 0xAB)
       @ [Stop_ev, IsStateError_ev False,
          IsStateError_ev False, StartPolling_ev 0xA0 TX False, WriteByte_ev 16, Stop_ev,
          IsStateError_ev True,
          IsStateError_ev True, Init_ev, StartPolling_ev 0xA0 TX False, WriteByte_ev 16, Stop_ev,
          IsStateError_ev False] =
       concat (map (\<lambda>(p, pre, e). run_events pre e (WritePage_frame (\<lambda>i. 0xAB) p))
                   (zip (spec_page_writes 0 0 16) rs))"
      using D by blast
    then have "length rs = 2 \<and>
      WriteBlock (logged (scripted (\<lambda>k. k = 3 \<or> k = 4))) (\<lambda>i. 0xAB) 0 0 16 (0, []) =
        Some (6, concat (map (\<lambda>(p, pre, e). run_events pre e (WritePage_frame (\<lambda>i. 0xAB) p))
                            (zip [(0, 0, 16), (16, 16, 0)] rs)))"
      using WriteBlock_retry_run by (simp add: pages16)
    then show ?thesis by blast
  qed
  have clean: "\<And>s. \<not> fst (i2c_IsStateError (scripted (\<lambda>k. False)) s)"
    by simp
  obtain s1 l1 where ce: "ChipErase (logged (scripted (\<lambda>k. False))) (0, []) = Some (s1, l1)"
    using ChipErase_clean [OF clean, of 0 "[]"] by auto
  note E = C3_retry_discipline [where t = "scripted (\<lambda>k. False)" and s = 0,
      THEN conjunct2, THEN conjunct2, THEN conjunct2, THEN conjunct2, THEN conjunct2,
      THEN conjunct2, THEN conjunct2, THEN conjunct2, THEN conjunct2, THEN conjunct2,
      THEN conjunct2, THEN conjunct2, THEN conjunct2, THEN conjunct2, THEN conjunct2,
      THEN conjunct2, THEN conjunct2, THEN conjunct1, rule_format, OF ce]
  have chip: "\<exists>s' rs. length rs = 128 \<and>
      ChipErase (logged (scripted (\<lambda>k. False))) (0, []) =
        Some (s', concat (map (\<lambda>(x, pre, e). run_events pre e (ErasePage_frame x))
                            (zip spec_erase_offsets rs)))"
    using E ce by blast
  show ?thesis
    using wb B(2-7) blk chip by (intro conjI)
qed

section \<open>Returning and looping forever\<close>

lemma do_while_returns_iff:
  "(\<exists>r. do_while body cond s = Some r) \<longleftrightarrow> (\<exists>n. \<not> attempt_fails body cond n s)"
proof
  assume "\<exists>r. do_while body cond s = Some r"
  then show "\<exists>n. \<not> attempt_fails body cond n s"
    unfolding do_while_Some_iff by blast
next
  assume "\<exists>n. \<not> attempt_fails body cond n s"
  then obtain n where "\<not> attempt_fails body cond n s"
    and "\<And>k. k < n \<Longrightarrow> attempt_fails body cond k s"
    using exists_least_iff [of "\<lambda>n. \<not> attempt_fails body cond n s"] by auto
  then have "do_while body cond s = Some (attempt_result body cond n s)"
    using do_while_returns [of n body cond s] by blast
  then show "\<exists>r. do_while body cond s = Some r" by blast
qed

lemma ReadBlock_check_fst: "fst (ReadBlock_check i2c ms) = fst (i2c_IsStateError i2c (snd ms))"
  by (simp add: ReadBlock_check_def split: prod.splits)

lemma do_while_always_error:
  assumes "\<And>s. fst (cond s)"
  shows "do_while body cond s = None"
  by (rule do_while_diverges) (simp add: attempt_fails_def assms)

lemma do_while_never_error:
  assumes "\<And>s. \<not> fst (cond s)"
  shows "\<exists>r. do_while body cond s = Some r"
  by (subst do_while_step) (simp add: assms)

lemma loops_always_error:
  assumes "\<And>s. fst (i2c_IsStateError i2c s)"
  shows "WriteByte i2c a v s = None"
    and "WriteHalfWord i2c a w s = None"
    and "WritePage i2c mem data a sz s = None"
    and "ReadByte i2c a s = None"
    and "ReadHalfWord i2c a s = None"
    and "ReadBlock i2c mem data a m s = None"
    and "ErasePage i2c a s = None"
  by (simp_all add: WriteByte_def WriteHalfWord_def WritePage_def ReadByte_def ReadHalfWord_def
      ReadBlock_def ErasePage_def do_while_always_error assms ReadBlock_check_fst)

lemma composites_always_error:
  assumes "\<And>s. fst (i2c_IsStateError i2c s)"
  shows "WriteBlock i2c mem data a m s = None" and "ChipErase i2c s = None"
proof -
  have "spec_page_writes data a m \<noteq> []"
    by (simp add: spec_page_writes_def)
  then obtain p ps where "spec_page_writes data a m = p # ps"
    by (cases "spec_page_writes data a m") auto
  then show "WriteBlock i2c mem data a m s = None"
    by (simp add: WriteBlock_pages loops_always_error(3) [OF assms])
  obtain x xs where "spec_erase_offsets = x # xs"
    using spec_erase_offsets_length by (cases spec_erase_offsets) auto
  moreover have "erase_pages i2c (x # xs) s = None"
    by (simp add: loops_always_error(7) [OF assms])
  ultimately show "ChipErase i2c s = None"
    by (simp only: ChipErase_pages)
qed

lemma map_option_snd_Some: "\<exists>r. x = Some r \<Longrightarrow> \<exists>r. map_option snd x = Some r"
  by auto

lemma loops_never_error:
  assumes "\<And>s. \<not> fst (i2c_IsStateError i2c s)"
  shows "\<exists>r. WriteByte i2c a v s = Some r"
    and "\<exists>r. WriteHalfWord i2c a w s = Some r"
    and "\<exists>r. WritePage i2c mem data a sz s = Some r"
    and "\<exists>r. ReadByte i2c a s = Some r"
    and "\<exists>r. ReadHalfWord i2c a s = Some r"
    and "\<exists>r. ReadBlock i2c mem data a m s = Some r"
    and "\<exists>r. ErasePage i2c a s = Some r"
proof -
  have rb: "\<And>ms. \<not> fst (ReadBlock_check i2c ms)"
    by (simp add: ReadBlock_check_fst assms)
  show "\<exists>r. WriteByte i2c a v s = Some r"
    unfolding WriteByte_def Let_def
    by (rule map_option_snd_Some) (rule do_while_never_error [OF assms])
  show "\<exists>r. WriteHalfWord i2c a w s = Some r"
    unfolding WriteHalfWord_def Let_def
    by (rule map_option_snd_Some) (rule do_while_never_error [OF assms])
  show "\<exists>r. WritePage i2c mem data a sz s = Some r"
    unfolding WritePage_def Let_def
    by (rule map_option_snd_Some) (rule do_while_never_error [OF assms])
  show "\<exists>r. ReadByte i2c a s = Some r"
    unfolding ReadByte_def Let_def by (rule do_while_never_error [OF assms])
  show "\<exists>r. ReadHalfWord i2c a s = Some r"
    unfolding ReadHalfWord_def Let_def by (rule do_while_never_error [OF assms])
  show "\<exists>r. ReadBlock i2c mem data a m s = Some r"
    unfolding ReadBlock_def Let_def
    by (rule map_option_snd_Some) (rule do_while_never_error [OF rb])
  show "\<exists>r. ErasePage i2c a s = Some r"
    unfolding ErasePage_def Let_def
    by (rule map_option_snd_Some) (rule do_while_never_error [OF assms])
qed

lemma write_pages_never_error:
  assumes "\<And>s. \<not> fst (i2c_IsStateError i2c s)"
  shows "\<exists>r. write_pages i2c mem ps s = Some r"
proof (induction ps arbitrary: s)
  case Nil
  show ?case by simp
next
  case (Cons p ps)
  obtain s1 where "WritePage i2c mem (fst p) (fst (snd p)) (snd (snd p)) s = Some s1"
    using loops_never_error(3) [OF assms] by blast
  then show ?case using Cons.IH [of s1] by simp
qed

lemma erase_pages_never_error:
  assumes "\<And>s. \<not> fst (i2c_IsStateError i2c s)"
  shows "\<exists>r. erase_pages i2c as s = Some r"
proof (induction as arbitrary: s)
  case Nil
  show ?case by simp
next
  case (Cons a as)
  obtain s1 where "ErasePage i2c a s = Some s1"
    using loops_never_error(7) [OF assms] by blast
  then show ?case using Cons.IH [of s1] by simp
qed

lemma WritePage_stuck_run:
  "WritePage (scripted (\<lambda>k. 2 \<le> k)) mem data a sz 2 = None"
proof -
  let ?t = "scripted (\<lambda>k. 2 \<le> k)"
  let ?body = "WritePage_attempt ?t mem data (HandleDeviceSelectCode a) a sz"
  have "attempt_fails ?body (i2c_IsStateError ?t) n 2 = (2 \<le> 2 + 2 * n + 1)" for n
    by (rule attempt_fails_scripted [where cnt = "\<lambda>k. k"]) simp_all
  then have "do_while ?body (i2c_IsStateError ?t) 2 = None"
    by (intro do_while_diverges) simp
  then show ?thesis
    by (simp add: WritePage_def)
qed

lemma WriteBlock_stuck_run:
  "\<not> attempt_fails (WritePage_attempt (scripted (\<lambda>k. 2 \<le> k)) (\<lambda>i. 0xAB) 0
          (HandleDeviceSelectCode 0) 0 16)
        (i2c_IsStateError (scripted (\<lambda>k. 2 \<le> k))) 0 0
   \<and> WritePage (scripted (\<lambda>k. 2 \<le> k)) (\<lambda>i. 0xAB) 0 0 16 0 = Some 2
   \<and> WriteBlock (scripted (\<lambda>k. 2 \<le> k)) (\<lambda>i. 0xAB) 0 0 16 0 = None"
proof -
  have first: "WritePage (scripted (\<lambda>k. 2 \<le> k)) (\<lambda>i. 0xAB) 0 0 16 0 = Some 2"
    by (simp add: WritePage_def do_while_step)
  then have "WriteBlock (scripted (\<lambda>k. 2 \<le> k)) (\<lambda>i. 0xAB) 0 0 16 0 = None"
    unfolding WriteBlock_pages pages16 by (simp add: WritePage_stuck_run)
  then show ?thesis
    using first by (simp add: attempt_fails_def)
qed

lemma map_option_snd_Some_iff: "(\<exists>r. map_option snd x = Some r) \<longleftrightarrow> (\<exists>r. x = Some r)"
  by auto

lemma loops_return_iff:
  "(\<exists>r. WriteByte i2c a v s = Some r) \<longleftrightarrow>
     (\<exists>n. \<not> attempt_fails (WriteByte_attempt i2c (HandleDeviceSelectCode a) a v)
              (i2c_IsStateError i2c) n s)"
  "(\<exists>r. WriteHalfWord i2c a w s = Some r) \<longleftrightarrow>
     (\<exists>n. \<not> attempt_fails (WriteHalfWord_attempt i2c (HandleDeviceSelectCode a) a w)
              (i2c_IsStateError i2c) n s)"
  "(\<exists>r. WritePage i2c mem data a sz s = Some r) \<longleftrightarrow>
     (\<exists>n. \<not> attempt_fails (WritePage_attempt i2c mem data (HandleDeviceSelectCode a) a sz)
              (i2c_IsStateError i2c) n s)"
  "(\<exists>r. ReadByte i2c a s = Some r) \<longleftrightarrow>
     (\<exists>n. \<not> attempt_fails (ReadByte_attempt i2c (HandleDeviceSelectCode a) a)
              (i2c_IsStateError i2c) n s)"
  "(\<exists>r. ReadHalfWord i2c a s = Some r) \<longleftrightarrow>
     (\<exists>n. \<not> attempt_fails (ReadHalfWord_attempt i2c (HandleDeviceSelectCode a) a)
              (i2c_IsStateError i2c) n s)"
  "(\<exists>r. ReadBlock i2c mem data a m s = Some r) \<longleftrightarrow>
     (\<exists>n. \<not> attempt_fails (ReadBlock_attempt i2c data (HandleDeviceSelectCode a) a m)
              (ReadBlock_check i2c) n (mem, s))"
  "(\<exists>r. ErasePage i2c a s = Some r) \<longleftrightarrow>
     (\<exists>n. \<not> attempt_fails (ErasePage_attempt i2c (HandleDeviceSelectCode a) a)
              (i2c_IsStateError i2c) n s)"
  unfolding WriteByte_def WriteHalfWord_def WritePage_def ReadByte_def ReadHalfWord_def
    ReadBlock_def ErasePage_def Let_def map_option_snd_Some_iff
  by (rule do_while_returns_iff)+

text \<open>
  Claim C8, as the spec states it, makes every public operation return exactly when an
  iteration of its retry loop ends with \<open>IsStateError\<close> reporting false. For \<open>WriteBlock\<close>
  that fails: below, the first attempt of the first page write ends with a clean check,
  and that page write returns, but the second page write never leaves its loop, so
  \<open>WriteBlock\<close> never returns.
\<close>

theorem C8_WriteBlock_counterexample:
  "\<not> attempt_fails (WritePage_attempt (scripted (\<lambda>k. 2 \<le> k)) (\<lambda>i. 0xAB) 0
          (HandleDeviceSelectCode 0) 0 16)
        (i2c_IsStateError (scripted (\<lambda>k. 2 \<le> k))) 0 0
   \<and> WritePage (scripted (\<lambda>k. 2 \<le> k)) (\<lambda>i. 0xAB) 0 0 16 0 = Some 2
   \<and> WriteBlock (scripted (\<lambda>k. 2 \<le> k)) (\<lambda>i. 0xAB) 0 0 16 0 = None"
  by (rule WriteBlock_stuck_run)

text \<open>
  Claim C8, amended: no operation has an error result: a write or erase yields only the
  transport state, a read the value and the transport state, and not returning is the
  only other outcome. \<open>WriteByte\<close>, \<open>WriteHalfWord\<close>, \<open>ReadByte\<close>, \<open>ReadHalfWord\<close>,
  \<open>ReadBlock\<close>, \<open>ErasePage\<close> and the page write return exactly when some attempt of
  their loop ends with \<open>IsStateError\<close> reporting false. \<open>WriteBlock\<close> and \<open>ChipErase\<close>
  return exactly when their page operations, carried out in order, all return. If the
  transport reports an error at every check, no operation returns; if it never reports
  one, every operation returns.
\<close>

theorem C8_return_or_loop_forever:
  "((\<exists>r. WriteByte i2c a v s = Some r) \<longleftrightarrow>
      (\<exists>n. \<not> attempt_fails (WriteByte_attempt i2c (HandleDeviceSelectCode a) a v)
               (i2c_IsStateError i2c) n s))
   \<and> ((\<exists>r. WriteHalfWord i2c a w s = Some r) \<longleftrightarrow>
      (\<exists>n. \<not> attempt_fails (WriteHalfWord_attempt i2c (HandleDeviceSelectCode a) a w)
               (i2c_IsStateError i2c) n s))
   \<and> ((\<exists>r. WritePage i2c mem data a sz s = Some r) \<longleftrightarrow>
      (\<exists>n. \<not> attempt_fails (WritePage_attempt i2c mem data (HandleDeviceSelectCode a) a sz)
               (i2c_IsStateError i2c) n s))
   \<and> ((\<exists>r. ReadByte i2c a s = Some r) \<longleftrightarrow>
      (\<exists>n. \<not> attempt_fails (ReadByte_attempt i2c (HandleDeviceSelectCode a) a)
               (i2c_IsStateError i2c) n s))
   \<and> ((\<exists>r. ReadHalfWord i2c a s = Some r) \<longleftrightarrow>
      (\<exists>n. \<not> attempt_fails (ReadHalfWord_attempt i2c (HandleDeviceSelectCode a) a)
               (i2c_IsStateError i2c) n s))
   \<and> ((\<exists>r. ReadBlock i2c mem data a m s = Some r) \<longleftrightarrow>
      (\<exists>n. \<not> attempt_fails (ReadBlock_attempt i2c data (HandleDeviceSelectCode a) a m)
               (ReadBlock_check i2c) n (mem, s)))
   \<and> ((\<exists>r. ErasePage i2c a s = Some r) \<longleftrightarrow>
      (\<exists>n. \<not> attempt_fails (ErasePage_attempt i2c (HandleDeviceSelectCode a) a)
               (i2c_IsStateError i2c) n s))
   \<and> WriteBlock i2c mem data a m s = write_pages i2c mem (spec_page_writes data a m) s
   \<and> ChipErase i2c s = erase_pages i2c spec_erase_offsets s
   \<and> ((\<forall>s. fst (i2c_IsStateError i2c s)) \<longrightarrow>
        WriteByte i2c a v s = None \<and> WriteHalfWord i2c a w s = None
        \<and> WriteBlock i2c mem data a m s = None \<and> ReadByte i2c a s = None
        \<and> ReadHalfWord i2c a s = None \<and> ReadBlock i2c mem data a m s = None
        \<and> ErasePage i2c a s = None \<and> ChipErase i2c s = None)
   \<and> ((\<forall>s. \<not> fst (i2c_IsStateError i2c s)) \<longrightarrow>
        (\<exists>r. WriteByte i2c a v s = Some r) \<and> (\<exists>r. WriteHalfWord i2c a w s = Some r)
        \<and> (\<exists>r. WriteBlock i2c mem data a m s = Some r) \<and> (\<exists>r. ReadByte i2c a s = Some r)
        \<and> (\<exists>r. ReadHalfWord i2c a s = Some r) \<and> (\<exists>r. ReadBlock i2c mem data a m s = Some r)
        \<and> (\<exists>r. ErasePage i2c a s = Some r) \<and> (\<exists>r. ChipErase i2c s = Some r))"
proof -
  have always: "WriteByte i2c a v s = None \<and> WriteHalfWord i2c a w s = None
        \<and> WriteBlock i2c mem data a m s = None \<and> ReadByte i2c a s = None
        \<and> ReadHalfWord i2c a s = None \<and> ReadBlock i2c mem data a m s = None
        \<and> ErasePage i2c a s = None \<and> ChipErase i2c s = None"
    if "\<forall>s. fst (i2c_IsStateError i2c s)"
    using loops_always_error [of i2c] composites_always_error [of i2c] that by simp
  have never: "(\<exists>r. WriteByte i2c a v s = Some r) \<and> (\<exists>r. WriteHalfWord i2c a w s = Some r)
        \<and> (\<exists>r. WriteBlock i2c mem data a m s = Some r) \<and> (\<exists>r. ReadByte i2c a s = Some r)
        \<and> (\<exists>r. ReadHalfWord i2c a s = Some r) \<and> (\<exists>r. ReadBlock i2c mem data a m s = Some r)
        \<and> (\<exists>r. ErasePage i2c a s = Some r) \<and> (\<exists>r. ChipErase i2c s = Some r)"
    if "\<forall>s. \<not> fst (i2c_IsStateError i2c s)"
  proof -
    have c: "\<And>s. \<not> fst (i2c_IsStateError i2c s)" using that by simp
    show ?thesis
      unfolding WriteBlock_pages ChipErase_pages
      by (intro conjI loops_never_error [OF c] write_pages_never_error [OF c]
          erase_pages_never_error [OF c])
  qed
  show ?thesis
    using always never
    by (intro conjI impI loops_return_iff WriteBlock_pages ChipErase_pages) blast+
qed

theorem C8_return_or_loop_forever_witness:
  "WriteByte (scripted (\<lambda>k. True)) 0x0120 0x42 0 = None
   \<and> WriteHalfWord (scripted (\<lambda>k. True)) 0x0120 0xBEEF 0 = None
   \<and> WriteBlock (scripted (\<lambda>k. True)) (\<lambda>i. 0xAB) 0 0x0120 33 0 = None
   \<and> ReadByte (scripted (\<lambda>k. True)) 0x0120 0 = None
   \<and> ReadHalfWord (scripted (\<lambda>k. True)) 0x0120 0 = None
   \<and> ReadBlock (scripted (\<lambda>k. True)) (\<lambda>i. 0xAB) 0 0x0120 33 0 = None
   \<and> ErasePage (scripted (\<lambda>k. True)) 0x0120 0 = None
   \<and> ChipErase (scripted (\<lambda>k. True)) 0 = None
   \<and> (\<exists>r. WriteByte (scripted (\<lambda>k. False)) 0x0120 0x42 0 = Some r)
   \<and> (\<exists>r. WriteHalfWord (scripted (\<lambda>k. False)) 0x0120 0xBEEF 0 = Some r)
   \<and> (\<exists>r. WriteBlock (scripted (\<lambda>k. False)) (\<lambda>i. 0xAB) 0 0x0120 33 0 = Some r)
   \<and> (\<exists>r. ReadByte (scripted (\<lambda>k. False)) 0x0120 0 = Some r)
   \<and> (\<exists>r. ReadHalfWord (scripted (\<lambda>k. False)) 0x0120 0 = Some r)
   \<and> (\<exists>r. ReadBlock (scripted (\<lambda>k. False)) (\<lambda>i. 0xAB) 0 0x0120 33 0 = Some r)
   \<and> (\<exists>r. ErasePage (scripted (\<lambda>k. False)) 0x0120 0 = Some r)
   \<and> (\<exists>r. ChipErase (scripted (\<lambda>k. False)) 0 = Some r)
   \<and> (\<exists>r. WriteByte (scripted (\<lambda>k. k < 3)) 0x0120 0x42 0 = Some r)"
proof -
  have bad: "\<forall>s. fst (i2c_IsStateError (scripted (\<lambda>k. True)) s)"
    by simp
  have good: "\<forall>s. \<not> fst (i2c_IsStateError (scripted (\<lambda>k. False)) s)"
    by simp
  note rest = conjunct2 [THEN conjunct2, THEN conjunct2, THEN conjunct2, THEN conjunct2,
      THEN conjunct2, THEN conjunct2, THEN conjunct2, THEN conjunct2]
  note A = C8_return_or_loop_forever [where ?i2c = "scripted (\<lambda>k. True)" and a = "0x0120"
      and v = "0x42" and w = "0xBEEF" and mem = "\<lambda>i. 0xAB" and data = 0 and m = 33 and s = 0,
      THEN rest, THEN conjunct1, THEN mp, OF bad]
  note B = C8_return_or_loop_forever [where ?i2c = "scripted (\<lambda>k. False)" and a = "0x0120"
      and v = "0x42" and w = "0xBEEF" and mem = "\<lambda>i. 0xAB" and data = 0 and m = 33 and s = 0,
      THEN rest, THEN conjunct2, THEN mp, OF good]
  have "\<not> attempt_fails (WriteByte_attempt (scripted (\<lambda>k. k < 3)) (HandleDeviceSelectCode 0x0120)
            0x0120 0x42) (i2c_IsStateError (scripted (\<lambda>k. k < 3))) 1 0"
    by (simp add: attempt_fails_def)
  then have C: "\<exists>r. WriteByte (scripted (\<lambda>k. k < 3)) 0x0120 0x42 0 = Some r"
    using C8_return_or_loop_forever [where ?i2c = "scripted (\<lambda>k. k < 3)" and a = "0x0120"
      and v = "0x42" and s = 0, THEN conjunct1] by blast
  show ?thesis
    using A B C by simp
qed

section \<open>The select code in every transaction\<close>

lemma frame_select:
  "StartPolling_ev d m p \<in> set (WriteByte_frame a v) \<Longrightarrow> d = HandleDeviceSelectCode a"
  "StartPolling_ev d m p \<in> set (WriteHalfWord_frame a w) \<Longrightarrow> d = HandleDeviceSelectCode a"
  "StartPolling_ev d m p \<in> set (WritePage_frame mem (data, a, sz)) \<Longrightarrow> d = HandleDeviceSelectCode a"
  "StartPolling_ev d m p \<in> set (ReadByte_frame a) \<Longrightarrow> d = HandleDeviceSelectCode a"
  "StartPolling_ev d m p \<in> set (ReadHalfWord_frame a) \<Longrightarrow> d = HandleDeviceSelectCode a"
  "StartPolling_ev d m p \<in> set (ReadBlock_frame data a n) \<Longrightarrow> d = HandleDeviceSelectCode a"
  "StartPolling_ev d m p \<in> set (ErasePage_frame a) \<Longrightarrow> d = HandleDeviceSelectCode a"
  by (auto simp add: WriteByte_frame_def WriteHalfWord_frame_def WritePage_frame_def
      ReadByte_frame_def ReadBlock_frame_def ErasePage_frame_def ReadHalfWord_frame_def)

lemma frame_heads:
  "\<exists>rest. WriteByte_frame a v = StartPolling_ev (HandleDeviceSelectCode a) TX False # rest"
  "\<exists>rest. WriteHalfWord_frame a w = StartPolling_ev (HandleDeviceSelectCode a) TX False # rest"
  "\<exists>rest. WritePage_frame mem (data, a, sz)
             = StartPolling_ev (HandleDeviceSelectCode a) TX False # rest"
  "\<exists>rest. ReadByte_frame a = StartPolling_ev (HandleDeviceSelectCode a) TX False # rest"
  "\<exists>rest. ReadHalfWord_frame a = StartPolling_ev (HandleDeviceSelectCode a) TX True # rest"
  "\<exists>rest. ReadBlock_frame data a n = StartPolling_ev (HandleDeviceSelectCode a) TX False # rest"
  "\<exists>rest. ErasePage_frame a = StartPolling_ev (HandleDeviceSelectCode a) TX False # rest"
  by (simp_all add: WriteByte_frame_def WriteHalfWord_frame_def WritePage_frame_def
      ReadByte_frame_def ReadBlock_frame_def ErasePage_frame_def ReadHalfWord_frame_def)

lemma run_select:
  assumes frame: "\<exists>rest. frame = StartPolling_ev c TX q # rest"
    and sel: "\<And>d m p. StartPolling_ev d m p \<in> set frame \<Longrightarrow> d = c"
    and l: "\<exists>pre e. l = run_events pre e frame"
  shows "(\<exists>pre e rest. l = run_events pre e (StartPolling_ev c TX q # rest))
         \<and> (\<forall>d m p. StartPolling_ev d m p \<in> set l \<longrightarrow> d = c)"
proof (intro conjI allI impI)
  show "\<exists>pre e rest. l = run_events pre e (StartPolling_ev c TX q # rest)"
    using frame l by blast
next
  fix d m p
  assume "StartPolling_ev d m p \<in> set l"
  then have "StartPolling_ev d m p \<in> set frame"
    using l by (auto simp add: run_events_starts)
  then show "d = c" by (rule sel)
qed

lemma spec_page_writes_members:
  assumes "(d, x, sz) \<in> set (spec_page_writes data a n)"
  shows "\<exists>k \<le> unat n div 16. x = a + of_nat (k * 16)"
proof -
  have "(\<exists>k < unat n div 16. x = a + of_nat (k * 16)) \<or> x = a + of_nat (unat n div 16 * 16)"
    using assms
    by (auto simp add: spec_page_writes_def spec_full_pages_def simp del: of_nat_mult)
  then show ?thesis
    by (metis less_imp_le order_refl)
qed

lemma spec_erase_offsets_members:
  assumes "x \<in> set spec_erase_offsets"
  shows "\<exists>k < 128. x = of_nat (k * 16)"
  using assms by (auto simp add: spec_erase_offsets_def simp del: of_nat_mult)

lemma page_runs_starts_member:
  assumes "StartPolling_ev d m p \<in> set (concat (map (\<lambda>(x, pre, e). run_events pre e (f x)) xs))"
  shows "\<exists>x \<in> fst ` set xs. StartPolling_ev d m p \<in> set (f x)"
  using assms by (force simp add: run_events_starts)

lemma WriteBlock_select:
  assumes run: "WriteBlock (logged t) mem data a n (s, []) = Some (s', l)"
    and ev: "StartPolling_ev d m p \<in> set l"
  shows "\<exists>k \<le> unat n div 16. d = HandleDeviceSelectCode (a + of_nat (k * 16))"
proof -
  obtain rs where "l = concat (map (\<lambda>(p, pre, e). run_events pre e (WritePage_frame mem p))
                                 (zip (spec_page_writes data a n) rs))"
    using WriteBlock_log [OF run] by auto
  then obtain pg where pg: "pg \<in> fst ` set (zip (spec_page_writes data a n) rs)"
    "StartPolling_ev d m p \<in> set (WritePage_frame mem pg)"
    using ev page_runs_starts_member [of d m p "WritePage_frame mem"
        "zip (spec_page_writes data a n) rs"]
    by blast
  obtain dp x sz where pg_eq: "pg = (dp, x, sz)" by (cases pg) auto
  have "pg \<in> set (spec_page_writes data a n)"
    using pg(1) by (auto dest: set_zip_leftD)
  then obtain k where "k \<le> unat n div 16" "x = a + of_nat (k * 16)"
    using spec_page_writes_members [of dp x sz data a n] pg_eq by blast
  moreover have "d = HandleDeviceSelectCode x"
    using pg(2) frame_select(3) [of d m p mem dp x sz] pg_eq by simp
  ultimately show ?thesis by blast
qed

lemma ChipErase_select:
  assumes run: "ChipErase (logged t) (s, []) = Some (s', l)"
    and ev: "StartPolling_ev d m p \<in> set l"
  shows "\<exists>k < 128. d = HandleDeviceSelectCode (of_nat (k * 16))"
proof -
  obtain rs where "l = concat (map (\<lambda>(x, pre, e). run_events pre e (ErasePage_frame x))
                                 (zip spec_erase_offsets rs))"
    using ChipErase_log [OF run] by auto
  then obtain x where x: "x \<in> fst ` set (zip spec_erase_offsets rs)"
    "StartPolling_ev d m p \<in> set (ErasePage_frame x)"
    using ev page_runs_starts_member [of d m p ErasePage_frame "zip spec_erase_offsets rs"]
    by blast
  have "x \<in> set spec_erase_offsets"
    using x(1) by (auto dest: set_zip_leftD)
  then obtain k where "k < 128" "x = of_nat (k * 16)"
    using spec_erase_offsets_members by blast
  moreover have "d = HandleDeviceSelectCode x"
    using x(2) by (rule frame_select(7))
  ultimately show ?thesis by blast
qed

text \<open>
  Claim C1, amended: for every 16-bit address the select code is
  \<open>DEVICE_ID | ((address >> 7) & CHIP_ENABLE_ADRESS_MASK)\<close>, a function of the address
  alone, with \<open>select(0x0000) = 0xA0\<close>, \<open>select(0x0080) = 0xA0\<close>,
  \<open>select(0x0100) = 0xA2\<close> and \<open>select(0x0780) = 0xAE\<close>. In every run that returns,
  each attempt of an operation begins its transaction with a \<open>StartPolling\<close> call that
  carries the select code of the operation's address, and no \<open>StartPolling\<close> call carries
  anything else; in \<open>WriteBlock\<close> and \<open>ChipErase\<close> it is the select code of the address of
  the page being written or erased.
\<close>

theorem C1_device_select_code:
  "HandleDeviceSelectCode address =
     DEVICE_ID OR (ucast (drop_bit 7 address) AND CHIP_ENABLE_ADRESS_MASK)
   \<and> DEVICE_ID = 0xA0 \<and> CHIP_ENABLE_ADRESS_MASK = 0x0E
   \<and> HandleDeviceSelectCode 0x0000 = 0xA0
   \<and> HandleDeviceSelectCode 0x0080 = 0xA0
   \<and> HandleDeviceSelectCode 0x0100 = 0xA2
   \<and> HandleDeviceSelectCode 0x0780 = 0xAE
   \<and> (\<forall>s' l. WriteByte (logged t) address v (s, []) = Some (s', l) \<longrightarrow>
        (\<exists>pre e rest. l = run_events pre e
            (StartPolling_ev (HandleDeviceSelectCode address) TX False # rest))
        \<and> (\<forall>d m p. StartPolling_ev d m p \<in> set l \<longrightarrow> d = HandleDeviceSelectCode address))
   \<and> (\<forall>s' l. WriteHalfWord (logged t) address w (s, []) = Some (s', l) \<longrightarrow>
        (\<exists>pre e rest. l = run_events pre e
            (StartPolling_ev (HandleDeviceSelectCode address) TX False # rest))
        \<and> (\<forall>d m p. StartPolling_ev d m p \<in> set l \<longrightarrow> d = HandleDeviceSelectCode address))
   \<and> (\<forall>s' l. WritePage (logged t) mem data address sz (s, []) = Some (s', l) \<longrightarrow>
        (\<exists>pre e rest. l = run_events pre e
            (StartPolling_ev (HandleDeviceSelectCode address) TX False # rest))
        \<and> (\<forall>d m p. StartPolling_ev d m p \<in> set l \<longrightarrow> d = HandleDeviceSelectCode address))
   \<and> (\<forall>r s' l. ReadByte (logged t) address (s, []) = Some (r, s', l) \<longrightarrow>
        (\<exists>pre e rest. l = run_events pre e
            (StartPolling_ev (HandleDeviceSelectCode address) TX False # rest))
        \<and> (\<forall>d m p. StartPolling_ev d m p \<in> set l \<longrightarrow> d = HandleDeviceSelectCode address))
   \<and> (\<forall>r s' l. ReadHalfWord (logged t) address (s, []) = Some (r, s', l) \<longrightarrow>
        (\<exists>pre e rest. l = run_events pre e
            (StartPolling_ev (HandleDeviceSelectCode address) TX True # rest))
        \<and> (\<forall>d m p. StartPolling_ev d m p \<in> set l \<longrightarrow> d = HandleDeviceSelectCode address))
   \<and> (\<forall>mem' s' l. ReadBlock (logged t) mem data address n (s, []) = Some (mem', s', l) \<longrightarrow>
        (\<exists>pre e rest. l = run_events pre e
            (StartPolling_ev (HandleDeviceSelectCode address) TX False # rest))
        \<and> (\<forall>d m p. StartPolling_ev d m p \<in> set l \<longrightarrow> d = HandleDeviceSelectCode address))
   \<and> (\<forall>s' l. ErasePage (logged t) address (s, []) = Some (s', l) \<longrightarrow>
        (\<exists>pre e rest. l = run_events pre e
            (StartPolling_ev (HandleDeviceSelectCode address) TX False # rest))
        \<and> (\<forall>d m p. StartPolling_ev d m p \<in> set l \<longrightarrow> d = HandleDeviceSelectCode address))
   \<and> (\<forall>s' l d m p. WriteBlock (logged t) mem data address n (s, []) = Some (s', l) \<longrightarrow>
        StartPolling_ev d m p \<in> set l \<longrightarrow>
        (\<exists>k \<le> unat n div 16. d = HandleDeviceSelectCode (address + of_nat (k * 16))))
   \<and> (\<forall>s' l d m p. ChipErase (logged t) (s, []) = Some (s', l) \<longrightarrow>
        StartPolling_ev d m p \<in> set l \<longrightarrow>
        (\<exists>k < 128. d = HandleDeviceSelectCode (of_nat (k * 16))))"
proof -
  have "HandleDeviceSelectCode address =
          DEVICE_ID OR (ucast (drop_bit 7 address) AND CHIP_ENABLE_ADRESS_MASK)"
    using HandleDeviceSelectCode_byte [of address] by (simp add: CHIP_ENABLE_ADRESS_SHIFT_def)
  moreover have "DEVICE_ID = 0xA0" "CHIP_ENABLE_ADRESS_MASK = 0x0E"
    by (simp_all add: DEVICE_ID_def CHIP_ENABLE_ADRESS_MASK_def)
  moreover have "HandleDeviceSelectCode 0x0000 = 0xA0" "HandleDeviceSelectCode 0x0080 = 0xA0"
    "HandleDeviceSelectCode 0x0100 = 0xA2" "HandleDeviceSelectCode 0x0780 = 0xAE"
    by (simp_all add: HandleDeviceSelectCode_def DEVICE_ID_def CHIP_ENABLE_ADRESS_MASK_def
        CHIP_ENABLE_ADRESS_SHIFT_def)
  moreover
  have "(\<exists>pre e rest. l = run_events pre e
            (StartPolling_ev (HandleDeviceSelectCode address) TX False # rest))
        \<and> (\<forall>d m p. StartPolling_ev d m p \<in> set l \<longrightarrow> d = HandleDeviceSelectCode address)"
    if "WriteByte (logged t) address v (s, []) = Some (s', l)" for s' l
  proof (rule run_select)
    show "\<exists>rest. WriteByte_frame address v = StartPolling_ev (HandleDeviceSelectCode address) TX False # rest"
      by (rule frame_heads(1) [of address v])
    show "\<And>d m p. StartPolling_ev d m p \<in> set (WriteByte_frame address v)
        \<Longrightarrow> d = HandleDeviceSelectCode address"
      by (rule frame_select(1) [of _ _ _ address v])
    show "\<exists>pre e. l = run_events pre e (WriteByte_frame address v)"
      using WriteByte_log [of t address v s "[]" s' l] that by simp
  qed
  then have "\<forall>s' l. WriteByte (logged t) address v (s, []) = Some (s', l) \<longrightarrow>
        (\<exists>pre e rest. l = run_events pre e
            (StartPolling_ev (HandleDeviceSelectCode address) TX False # rest))
        \<and> (\<forall>d m p. StartPolling_ev d m p \<in> set l \<longrightarrow> d = HandleDeviceSelectCode address)"
    by blast
  moreover
  have "(\<exists>pre e rest. l = run_events pre e
            (StartPolling_ev (HandleDeviceSelectCode address) TX False # rest))
        \<and> (\<forall>d m p. StartPolling_ev d m p \<in> set l \<longrightarrow> d = HandleDeviceSelectCode address)"
    if "WriteHalfWord (logged t) address w (s, []) = Some (s', l)" for s' l
  proof (rule run_select)
    show "\<exists>rest. WriteHalfWord_frame address w = StartPolling_ev (HandleDeviceSelectCode address) TX False # rest"
      by (rule frame_heads(2) [of address w])
    show "\<And>d m p. StartPolling_ev d m p \<in> set (WriteHalfWord_frame address w)
        \<Longrightarrow> d = HandleDeviceSelectCode address"
      by (rule frame_select(2) [of _ _ _ address w])
    show "\<exists>pre e. l = run_events pre e (WriteHalfWord_frame address w)"
      using WriteHalfWord_log [of t address w s "[]" s' l] that by simp
  qed
  then have "\<forall>s' l. WriteHalfWord (logged t) address w (s, []) = Some (s', l) \<longrightarrow>
        (\<exists>pre e rest. l = run_events pre e
            (StartPolling_ev (HandleDeviceSelectCode address) TX False # rest))
        \<and> (\<forall>d m p. StartPolling_ev d m p \<in> set l \<longrightarrow> d = HandleDeviceSelectCode address)"
    by blast
  moreover
  have "(\<exists>pre e rest. l = run_events pre e
            (StartPolling_ev (HandleDeviceSelectCode address) TX False # rest))
        \<and> (\<forall>d m p. StartPolling_ev d m p \<in> set l \<longrightarrow> d = HandleDeviceSelectCode address)"
    if "WritePage (logged t) mem data address sz (s, []) = Some (s', l)" for s' l
  proof (rule run_select)
    show "\<exists>rest. WritePage_frame mem (data, address, sz) = StartPolling_ev (HandleDeviceSelectCode address) TX False # rest"
      by (rule frame_heads(3) [of mem data address sz])
    show "\<And>d m p. StartPolling_ev d m p \<in> set (WritePage_frame mem (data, address, sz))
        \<Longrightarrow> d = HandleDeviceSelectCode address"
      by (rule frame_select(3) [of _ _ _ mem data address sz])
    show "\<exists>pre e. l = run_events pre e (WritePage_frame mem (data, address, sz))"
      using WritePage_log [of t mem data address sz s "[]" s' l] that by simp
  qed
  then have "\<forall>s' l. WritePage (logged t) mem data address sz (s, []) = Some (s', l) \<longrightarrow>
        (\<exists>pre e rest. l = run_events pre e
            (StartPolling_ev (HandleDeviceSelectCode address) TX False # rest))
        \<and> (\<forall>d m p. StartPolling_ev d m p \<in> set l \<longrightarrow> d = HandleDeviceSelectCode address)"
    by blast
  moreover
  have "(\<exists>pre e rest. l = run_events pre e
            (StartPolling_ev (HandleDeviceSelectCode address) TX False # rest))
        \<and> (\<forall>d m p. StartPolling_ev d m p \<in> set l \<longrightarrow> d = HandleDeviceSelectCode address)"
    if "ReadByte (logged t) address (s, []) = Some (r, s', l)" for r s' l
  proof (rule run_select)
    show "\<exists>rest. ReadByte_frame address = StartPolling_ev (HandleDeviceSelectCode address) TX False # rest"
      by (rule frame_heads(4) [of address])
    show "\<And>d m p. StartPolling_ev d m p \<in> set (ReadByte_frame address)
        \<Longrightarrow> d = HandleDeviceSelectCode address"
      by (rule frame_select(4) [of _ _ _ address])
    show "\<exists>pre e. l = run_events pre e (ReadByte_frame address)"
      using ReadByte_log [of t address s "[]" r s' l] that by simp
  qed
  then have "\<forall>r s' l. ReadByte (logged t) address (s, []) = Some (r, s', l) \<longrightarrow>
        (\<exists>pre e rest. l = run_events pre e
            (StartPolling_ev (HandleDeviceSelectCode address) TX False # rest))
        \<and> (\<forall>d m p. StartPolling_ev d m p \<in> set l \<longrightarrow> d = HandleDeviceSelectCode address)"
    by blast
  moreover
  have "(\<exists>pre e rest. l = run_events pre e
            (StartPolling_ev (HandleDeviceSelectCode address) TX True # rest))
        \<and> (\<forall>d m p. StartPolling_ev d m p \<in> set l \<longrightarrow> d = HandleDeviceSelectCode address)"
    if "ReadHalfWord (logged t) address (s, []) = Some (r, s', l)" for r s' l
  proof (rule run_select)
    show "\<exists>rest. ReadHalfWord_frame address = StartPolling_ev (HandleDeviceSelectCode address) TX True # rest"
      by (rule frame_heads(5) [of address])
    show "\<And>d m p. StartPolling_ev d m p \<in> set (ReadHalfWord_frame address)
        \<Longrightarrow> d = HandleDeviceSelectCode address"
      by (rule frame_select(5) [of _ _ _ address])
    show "\<exists>pre e. l = run_events pre e (ReadHalfWord_frame address)"
      using ReadHalfWord_log [of t address s "[]" r s' l] that by simp
  qed
  then have "\<forall>r s' l. ReadHalfWord (logged t) address (s, []) = Some (r, s', l) \<longrightarrow>
        (\<exists>pre e rest. l = run_events pre e
            (StartPolling_ev (HandleDeviceSelectCode address) TX True # rest))
        \<and> (\<forall>d m p. StartPolling_ev d m p \<in> set l \<longrightarrow> d = HandleDeviceSelectCode address)"
    by blast
  moreover
  have "(\<exists>pre e rest. l = run_events pre e
            (StartPolling_ev (HandleDeviceSelectCode address) TX False # rest))
        \<and> (\<forall>d m p. StartPolling_ev d m p \<in> set l \<longrightarrow> d = HandleDeviceSelectCode address)"
    if "ReadBlock (logged t) mem data address n (s, []) = Some (mem', s', l)" for mem' s' l
  proof (rule run_select)
    show "\<exists>rest. ReadBlock_frame data address n = StartPolling_ev (HandleDeviceSelectCode address) TX False # rest"
      by (rule frame_heads(6) [of data address n])
    show "\<And>d m p. StartPolling_ev d m p \<in> set (ReadBlock_frame data address n)
        \<Longrightarrow> d = HandleDeviceSelectCode address"
      by (rule frame_select(6) [of _ _ _ data address n])
    show "\<exists>pre e. l = run_events pre e (ReadBlock_frame data address n)"
      using ReadBlock_log [of t mem data address n s "[]" mem' s' l] that by simp
  qed
  then have "\<forall>mem' s' l. ReadBlock (logged t) mem data address n (s, []) = Some (mem', s', l) \<longrightarrow>
        (\<exists>pre e rest. l = run_events pre e
            (StartPolling_ev (HandleDeviceSelectCode address) TX False # rest))
        \<and> (\<forall>d m p. StartPolling_ev d m p \<in> set l \<longrightarrow> d = HandleDeviceSelectCode address)"
    by blast
  moreover
  have "(\<exists>pre e rest. l = run_events pre e
            (StartPolling_ev (HandleDeviceSelectCode address) TX False # rest))
        \<and> (\<forall>d m p. StartPolling_ev d m p \<in> set l \<longrightarrow> d = HandleDeviceSelectCode address)"
    if "ErasePage (logged t) address (s, []) = Some (s', l)" for s' l
  proof (rule run_select)
    show "\<exists>rest. ErasePage_frame address = StartPolling_ev (HandleDeviceSelectCode address) TX False # rest"
      by (rule frame_heads(7) [of address])
    show "\<And>d m p. StartPolling_ev d m p \<in> set (ErasePage_frame address)
        \<Longrightarrow> d = HandleDeviceSelectCode address"
      by (rule frame_select(7) [of _ _ _ address])
    show "\<exists>pre e. l = run_events pre e (ErasePage_frame address)"
      using ErasePage_log [of t address s "[]" s' l] that by simp
  qed
  then have "\<forall>s' l. ErasePage (logged t) address (s, []) = Some (s', l) \<longrightarrow>
        (\<exists>pre e rest. l = run_events pre e
            (StartPolling_ev (HandleDeviceSelectCode address) TX False # rest))
        \<and> (\<forall>d m p. StartPolling_ev d m p \<in> set l \<longrightarrow> d = HandleDeviceSelectCode address)"
    by blast
  moreover
  have "\<forall>s' l d m p. WriteBlock (logged t) mem data address n (s, []) = Some (s', l) \<longrightarrow>
        StartPolling_ev d m p \<in> set l \<longrightarrow>
        (\<exists>k \<le> unat n div 16. d = HandleDeviceSelectCode (address + of_nat (k * 16)))"
    using WriteBlock_select [of t mem data address n s] by blast
  moreover
  have "\<forall>s' l d m p. ChipErase (logged t) (s, []) = Some (s', l) \<longrightarrow>
        StartPolling_ev d m p \<in> set l \<longrightarrow>
        (\<exists>k < 128. d = HandleDeviceSelectCode (of_nat (k * 16)))"
    using ChipErase_select [of t s] by blast
  ultimately show ?thesis
    by (intro conjI)
qed

theorem C1_device_select_code_witness:
  "HandleDeviceSelectCode 0x0780 = 0xAE
   \<and> (\<exists>s' l. WriteByte (logged (scripted (\<lambda>k. False))) 0x0780 0x42 (0, []) = Some (s', l)
         \<and> StartPolling_ev 0xAE TX False \<in> set l
         \<and> StartPolling_ev 0xA0 TX False \<notin> set l)
   \<and> (\<exists>r s' l. ReadHalfWord (logged (scripted (\<lambda>k. False))) 0x0780 (0, []) = Some (r, s', l)
         \<and> StartPolling_ev 0xAE TX True \<in> set l
         \<and> StartPolling_ev 0xA0 RX False \<notin> set l)
   \<and> (\<exists>s' l. WriteBlock (logged (scripted (\<lambda>k. False))) (\<lambda>i. 0xAB) 0 0x0780 16 (0, [])
           = Some (s', l)
         \<and> StartPolling_ev 0xA2 TX False \<notin> set l)
   \<and> (\<exists>s' l. ChipErase (logged (scripted (\<lambda>k. False))) (0, []) = Some (s', l)
         \<and> StartPolling_ev 0xB0 TX False \<notin> set l)"
proof -
  note C = C1_device_select_code [where address = "0x0780" and t = "scripted (\<lambda>k. False)"
      and s = 0 and v = "0x42" and mem = "\<lambda>i. 0xAB" and data = 0 and n = 16]
  note rest = C [THEN conjunct2, THEN conjunct2, THEN conjunct2, THEN conjunct2, THEN conjunct2,
      THEN conjunct2]
  have sel: "HandleDeviceSelectCode 0x0780 = 0xAE"
    using rest [THEN conjunct1] .
  note ops = rest [THEN conjunct2]
  have clean: "\<And>s. \<not> fst (i2c_IsStateError (scripted (\<lambda>k. False)) s)"
    by simp
  have wb: "\<exists>s' l. WriteByte (logged (scripted (\<lambda>k. False))) 0x0780 0x42 (0, []) = Some (s', l)
         \<and> StartPolling_ev 0xAE TX False \<in> set l
         \<and> StartPolling_ev 0xA0 TX False \<notin> set l"
  proof -
    obtain s' l where run: "WriteByte (logged (scripted (\<lambda>k. False))) 0x0780 0x42 (0, []) = Some (s', l)"
      using WriteByte_clean [OF clean, of "0x0780" "0x42" 0 "[]"] by auto
    note h = ops [THEN conjunct1, rule_format, OF run]
    obtain pre e rest where "l = run_events pre e (StartPolling_ev 0xAE TX False # rest)"
      using h [THEN conjunct1] unfolding sel by blast
    then have "StartPolling_ev 0xAE TX False \<in> set l"
      by (simp add: run_events_starts)
    moreover have "StartPolling_ev 0xA0 TX False \<notin> set l"
      using h [THEN conjunct2, rule_format, of "0xA0" TX False] unfolding sel by auto
    ultimately show ?thesis using run by blast
  qed
  have rh: "\<exists>r s' l. ReadHalfWord (logged (scripted (\<lambda>k. False))) 0x0780 (0, []) = Some (r, s', l)
         \<and> StartPolling_ev 0xAE TX True \<in> set l
         \<and> StartPolling_ev 0xA0 RX False \<notin> set l"
  proof -
    obtain r s' l where run:
      "ReadHalfWord (logged (scripted (\<lambda>k. False))) 0x0780 (0, []) = Some (r, s', l)"
      using ReadHalfWord_clean [OF clean, of "0x0780" 0 "[]"] by auto
    note h = ops [THEN conjunct2, THEN conjunct2, THEN conjunct2, THEN conjunct2, THEN conjunct1,
        rule_format, OF run]
    obtain pre e rest where "l = run_events pre e (StartPolling_ev 0xAE TX True # rest)"
      using h [THEN conjunct1] unfolding sel by blast
    then have "StartPolling_ev 0xAE TX True \<in> set l"
      by (simp add: run_events_starts)
    moreover have "StartPolling_ev 0xA0 RX False \<notin> set l"
      using h [THEN conjunct2, rule_format, of "0xA0" RX False] unfolding sel by auto
    ultimately show ?thesis using run by blast
  qed
  note comp = ops [THEN conjunct2, THEN conjunct2, THEN conjunct2, THEN conjunct2, THEN conjunct2,
      THEN conjunct2, THEN conjunct2]
  have blk: "\<exists>s' l. WriteBlock (logged (scripted (\<lambda>k. False))) (\<lambda>i. 0xAB) 0 0x0780 16 (0, [])
           = Some (s', l)
         \<and> StartPolling_ev 0xA2 TX False \<notin> set l"
  proof -
    obtain s' l where run:
      "WriteBlock (logged (scripted (\<lambda>k. False))) (\<lambda>i. 0xAB) 0 0x0780 16 (0, []) = Some (s', l)"
      using WriteBlock_clean [OF clean, of "\<lambda>i. 0xAB" 0 "0x0780" 16 0 "[]"] by auto
    have "StartPolling_ev 0xA2 TX False \<notin> set l"
    proof
      assume "StartPolling_ev 0xA2 TX False \<in> set l"
      then obtain k where k: "k \<le> unat (16 :: 16 word) div 16"
        "(0xA2 :: 8 word) = HandleDeviceSelectCode (0x0780 + of_nat (k * 16))"
        using comp [THEN conjunct1, rule_format, OF run] by blast
      then have "k = 0 \<or> k = 1" by auto
      then show False
        using k(2)
        by (auto simp add: HandleDeviceSelectCode_def DEVICE_ID_def CHIP_ENABLE_ADRESS_MASK_def
            CHIP_ENABLE_ADRESS_SHIFT_def)
    qed
    then show ?thesis using run by blast
  qed
  have chip: "\<exists>s' l. ChipErase (logged (scripted (\<lambda>k. False))) (0, []) = Some (s', l)
         \<and> StartPolling_ev 0xB0 TX False \<notin> set l"
  proof -
    obtain s' l where run: "ChipErase (logged (scripted (\<lambda>k. False))) (0, []) = Some (s', l)"
      using ChipErase_clean [OF clean, of 0 "[]"] by auto
    have "StartPolling_ev 0xB0 TX False \<notin> set l"
    proof
      assume "StartPolling_ev 0xB0 TX False \<in> set l"
      then obtain k where "(0xB0 :: 8 word) = HandleDeviceSelectCode (of_nat (k * 16))"
        using comp [THEN conjunct2, rule_format, OF run] by blast
      then have "bit (0xB0 :: 8 word) 4 = bit (HandleDeviceSelectCode (of_nat (k * 16))) 4"
        by simp
      then show False
        unfolding select_masks by (simp add: bit_simps)
    qed
    then show ?thesis using run by blast
  qed
  show ?thesis
    using sel wb rh blk chip by (intro conjI)
qed

end
